(* ===== verification/FleetPrelude.thy ===== *)
theory FleetPrelude
  imports Complex_Main "HOL-Library.Multiset" "HOL-Library.Sublist"
begin

text \<open>
  What every component of the fleet platform shares: Python exceptions and results, the
  string methods of \<open>str\<close> the code calls, JSON values, aware and naive datetimes, decimal
  rounding, the generic facts on lists and tables, and the development's collections of
  simplification rules.

  Strings are lists of characters read as code points below 256. Case conversion acts on the
  ASCII letters. Floating-point numbers are idealised to exact rationals. Instants are
  microseconds since the Unix epoch in UTC.
\<close>

named_theorems table_simps \<open>facts on tables and the statements run on them\<close>
named_theorems str_simps \<open>facts on the string methods\<close>

section \<open>Exceptions and results\<close>

datatype py_exn =
    HTTPException int string
  | IntegrityError
  | DataError
  | TypeError
  | ValueError
  | AttributeError
  | OverflowError
  | IndexError
  | RuntimeError
  | InvalidRequestError
  | OtherError

type_synonym 'a result = "py_exn + 'a"

fun bindR :: "'a result \<Rightarrow> ('a \<Rightarrow> 'b result) \<Rightarrow> 'b result" where
  "bindR (Inl e) f = Inl e"
| "bindR (Inr x) f = f x"

lemma bindR_eq_Inr: "bindR r f = Inr y \<longleftrightarrow> (\<exists>x. r = Inr x \<and> f x = Inr y)"
  by (cases r) auto

lemma bindR_eq_Inl: "bindR r f = Inl e \<longleftrightarrow> r = Inl e \<or> (\<exists>x. r = Inr x \<and> f x = Inl e)"
  by (cases r) auto

section \<open>JSON values and dictionaries\<close>

datatype json =
    JNull
  | JBool bool
  | JNum rat
  | JStr string
  | JArr "json list"
  | JObj "(string \<times> json) list"

type_synonym json_obj = "(string \<times> json) list"

text \<open>A Python dictionary keeps insertion order; storing under a present key replaces in place.\<close>

fun dict_set :: "'k \<Rightarrow> 'v \<Rightarrow> ('k \<times> 'v) list \<Rightarrow> ('k \<times> 'v) list" where
  "dict_set k v [] = [(k, v)]"
| "dict_set k v ((k', v') # d) = (if k = k' then (k, v) # d else (k', v') # dict_set k v d)"

abbreviation dict_get :: "('k \<times> 'v) list \<Rightarrow> 'k \<Rightarrow> 'v option" where
  "dict_get \<equiv> map_of"

lemma map_of_dict_set [simp]: "map_of (dict_set k v d) = (map_of d)(k \<mapsto> v)"
  by (induction d) auto

lemma set_keys_dict_set [simp]: "fst ` set (dict_set k v d) = insert k (fst ` set d)"
proof (induction d)
  case (Cons p d)
  then show ?case by (cases p; cases "k = fst p") (simp_all add: insert_commute)
qed simp

lemma distinct_dict_set: "distinct (map fst d) \<Longrightarrow> distinct (map fst (dict_set k v d))"
proof (induction d)
  case (Cons p d)
  moreover have "set (map fst (dict_set k v d)) = insert k (set (map fst d))"
    by simp
  ultimately show ?case by (cases p) auto
qed simp

definition opt_json :: "('a \<Rightarrow> json) \<Rightarrow> 'a option \<Rightarrow> json" where
  "opt_json f v = (case v of None \<Rightarrow> JNull | Some x \<Rightarrow> f x)"

section \<open>Strings\<close>

text \<open>\<open>str.split(c)\<close> with a one-character separator, and \<open>c.join(...)\<close>.\<close>

fun py_split :: "char \<Rightarrow> string \<Rightarrow> string list" where
  "py_split c [] = [[]]"
| "py_split c (x # xs) =
     (if x = c then [] # py_split c xs
      else (case py_split c xs of [] \<Rightarrow> [[x]] | w # ws \<Rightarrow> (x # w) # ws))"

fun py_join :: "char \<Rightarrow> string list \<Rightarrow> string" where
  "py_join c [] = []"
| "py_join c [w] = w"
| "py_join c (w # ws) = w @ c # py_join c ws"

lemma py_split_nonempty [simp]: "py_split c s \<noteq> []"
  by (induction s) (auto split: list.splits)

lemma py_split_no_sep [str_simps]: "c \<notin> set s \<Longrightarrow> py_split c s = [s]"
  by (induction s) auto

lemma py_split_append_sep [str_simps]: "py_split c (s @ c # t) = py_split c s @ py_split c t"
proof (induction s)
  case (Cons x s)
  then show ?case by (cases "py_split c s") auto
qed simp

lemma py_split_join [str_simps]:
  "ws \<noteq> [] \<Longrightarrow> \<forall>w \<in> set ws. c \<notin> set w \<Longrightarrow> py_split c (py_join c ws) = ws"
proof (induction c ws rule: py_join.induct)
  case (3 c w v vs)
  then show ?case by (simp add: py_split_append_sep py_split_no_sep)
qed (auto simp: py_split_no_sep)

lemma py_join_split [str_simps]: "py_join c (py_split c s) = s"
proof (induction s)
  case (Cons x s)
  obtain w ws where sp: "py_split c s = w # ws"
    by (cases "py_split c s") auto
  show ?case
  proof (cases "x = c")
    case True
    with Cons sp show ?thesis by simp
  next
    case False
    with Cons sp show ?thesis by (cases ws) auto
  qed
qed simp

lemma py_split_parts: "w \<in> set (py_split c s) \<Longrightarrow> c \<notin> set w"
proof (induction s arbitrary: w)
  case (Cons x s)
  then show ?case by (cases "py_split c s") (auto split: if_splits)
qed simp

lemma py_join_snoc: "ws \<noteq> [] \<Longrightarrow> py_join c (ws @ [w]) = py_join c ws @ c # w"
  by (induction c ws rule: py_join.induct) auto

text \<open>\<open>str.strip()\<close>: the Unicode white space below code point 256.\<close>

definition py_isspace :: "char \<Rightarrow> bool" where
  "py_isspace ch = (let n = of_char ch :: nat in (9 \<le> n \<and> n \<le> 13) \<or> (28 \<le> n \<and> n \<le> 32) \<or> n = 133 \<or> n = 160)"

definition py_strip :: "string \<Rightarrow> string" where
  "py_strip s = rev (dropWhile py_isspace (rev (dropWhile py_isspace s)))"

definition py_lower_char :: "char \<Rightarrow> char" where
  "py_lower_char ch = (let n = of_char ch :: nat in if 65 \<le> n \<and> n \<le> 90 then char_of (n + 32) else ch)"

definition py_upper_char :: "char \<Rightarrow> char" where
  "py_upper_char ch = (let n = of_char ch :: nat in if 97 \<le> n \<and> n \<le> 122 then char_of (n - 32) else ch)"

definition py_lower :: "string \<Rightarrow> string" where
  "py_lower s = map py_lower_char s"

definition py_upper :: "string \<Rightarrow> string" where
  "py_upper s = map py_upper_char s"

definition py_startswith :: "string \<Rightarrow> string \<Rightarrow> bool" where
  "py_startswith s p = (take (length p) s = p)"

definition py_endswith :: "string \<Rightarrow> string \<Rightarrow> bool" where
  "py_endswith s p = (length p \<le> length s \<and> drop (length s - length p) s = p)"

text \<open>\<open>sub in s\<close> on strings.\<close>

fun py_contains :: "string \<Rightarrow> string \<Rightarrow> bool" where
  "py_contains sub [] = (sub = [])"
| "py_contains sub (x # xs) = (py_startswith (x # xs) sub \<or> py_contains sub xs)"

text \<open>\<open>s.replace(old, new)\<close> for a non-empty \<open>old\<close>, leftmost first, without overlap.\<close>

function py_replace :: "string \<Rightarrow> string \<Rightarrow> string \<Rightarrow> string" where
  "py_replace old new [] = []"
| "py_replace old new (x # xs) =
     (if old \<noteq> [] \<and> py_startswith (x # xs) old
      then new @ py_replace old new (drop (length old) (x # xs))
      else x # py_replace old new xs)"
  by pat_completeness auto
termination
  by (relation "measure (\<lambda>(old, new, s). length s)") auto

lemma py_endswith_append [simp]: "py_endswith (s @ p) p"
  by (simp add: py_endswith_def)

lemma py_endswith_suffix: "py_endswith s p \<longleftrightarrow> suffix p s"
  by (auto simp: py_endswith_def suffix_def) (metis append_take_drop_id)

lemma py_startswith_append [simp]: "py_startswith (p @ s) p"
  by (simp add: py_startswith_def)

text \<open>\<open>not s\<close> for an optional string: \<open>None\<close> and the empty string are false.\<close>

definition truthy_str :: "string option \<Rightarrow> bool" where
  "truthy_str s = (case s of None \<Rightarrow> False | Some t \<Rightarrow> t \<noteq> [])"

lemma truthy_str_simps [simp]: "\<not> truthy_str None" "truthy_str (Some t) \<longleftrightarrow> t \<noteq> []"
  by (auto simp: truthy_str_def)

definition is_ascii :: "string \<Rightarrow> bool" where
  "is_ascii s = list_all (\<lambda>ch. (of_char ch :: nat) < 128) s"

text \<open>
  \<open>hmac.compare_digest\<close> and \<open>secrets.compare_digest\<close> on two \<open>str\<close> arguments: only ASCII
  strings are accepted, anything else raises \<open>TypeError\<close>.
\<close>

definition compare_digest :: "string \<Rightarrow> string \<Rightarrow> bool result" where
  "compare_digest a b = (if is_ascii a \<and> is_ascii b then Inr (a = b) else Inl TypeError)"

section \<open>Printing and reading integers\<close>

definition digit_char :: "nat \<Rightarrow> char" where
  "digit_char d = char_of (48 + d)"

fun nat_str :: "nat \<Rightarrow> string" where
  "nat_str n = (if n < 10 then [digit_char n] else nat_str (n div 10) @ [digit_char (n mod 10)])"

declare nat_str.simps [simp del]

definition int_str :: "int \<Rightarrow> string" where
  "int_str i = (if i < 0 then CHR ''-'' # nat_str (nat (- i)) else nat_str (nat i))"

definition pad_left :: "nat \<Rightarrow> string \<Rightarrow> string" where
  "pad_left w s = replicate (w - length s) (CHR ''0'') @ s"

definition is_digit :: "char \<Rightarrow> bool" where
  "is_digit ch = (let n = of_char ch :: nat in 48 \<le> n \<and> n \<le> 57)"

definition digit_val :: "char \<Rightarrow> nat" where
  "digit_val ch = of_char ch - 48"

text \<open>
  \<open>int(s)\<close>: surrounding white space, a sign, digits with single underscores between them;
  \<open>None\<close> is \<open>ValueError\<close>.
\<close>

fun read_digits :: "nat \<Rightarrow> string \<Rightarrow> nat option" where
  "read_digits acc [] = Some acc"
| "read_digits acc [x] = (if is_digit x then Some (10 * acc + digit_val x) else None)"
| "read_digits acc (x # y # xs) =
     (if is_digit x then read_digits (10 * acc + digit_val x) (y # xs)
      else if x = CHR ''_'' \<and> is_digit y then read_digits (10 * acc + digit_val y) xs
      else None)"

definition read_nat :: "string \<Rightarrow> nat option" where
  "read_nat s = (case s of [] \<Rightarrow> None | x # xs \<Rightarrow> if is_digit x then read_digits (digit_val x) xs else None)"

definition py_int :: "string \<Rightarrow> int option" where
  "py_int s = (case py_strip s of
      [] \<Rightarrow> None
    | x # xs \<Rightarrow>
        if x = CHR ''-'' then map_option (\<lambda>n. - int n) (read_nat xs)
        else if x = CHR ''+'' then map_option int (read_nat xs)
        else map_option int (read_nat (x # xs)))"

lemma of_char_digit [simp]: "d < 10 \<Longrightarrow> of_char (digit_char d) = (48 + d :: nat)"
  by (simp add: digit_char_def)

lemma is_digit_digit_char [simp]: "d < 10 \<Longrightarrow> is_digit (digit_char d)"
  by (simp add: is_digit_def)

lemma digit_val_digit_char [simp]: "d < 10 \<Longrightarrow> digit_val (digit_char d) = d"
  by (simp add: digit_val_def)

lemma read_digits_snoc:
  "list_all is_digit s \<Longrightarrow> d < 10 \<Longrightarrow>
   read_digits acc (s @ [digit_char d]) = map_option (\<lambda>n. 10 * n + d) (read_digits acc s)"
proof (induction acc s rule: read_digits.induct)
  case (2 acc x)
  then show ?case by simp
next
  case (3 acc x y xs)
  then show ?case by simp
qed simp

lemma nat_str_digits: "list_all is_digit (nat_str n)"
proof (induction n rule: nat_str.induct)
  case (1 n)
  then show ?case by (subst nat_str.simps) auto
qed

lemma nat_str_nonempty [simp]: "nat_str n \<noteq> []"
  by (subst nat_str.simps) simp

lemma read_nat_snoc:
  assumes "s \<noteq> []" "list_all is_digit s" "d < 10"
  shows "read_nat (s @ [digit_char d]) = map_option (\<lambda>n. 10 * n + d) (read_nat s)"
  using assms by (cases s) (auto simp: read_nat_def read_digits_snoc)

lemma read_nat_nat_str [simp]: "read_nat (nat_str n) = Some n"
proof (induction n rule: nat_str.induct)
  case (1 n)
  show ?case
  proof (cases "n < 10")
    case True
    then show ?thesis by (subst nat_str.simps) (simp add: read_nat_def)
  next
    case False
    with 1 have "read_nat (nat_str (n div 10)) = Some (n div 10)" by simp
    moreover have "nat_str n = nat_str (n div 10) @ [digit_char (n mod 10)]"
      using False by (subst nat_str.simps) simp
    ultimately show ?thesis by (simp add: read_nat_snoc nat_str_digits)
  qed
qed

lemma read_nat_zero: "list_all is_digit s \<Longrightarrow> s \<noteq> [] \<Longrightarrow> read_nat (CHR ''0'' # s) = read_nat s"
proof -
  assume s: "list_all is_digit s" "s \<noteq> []"
  have z: "is_digit (CHR ''0'')" "digit_val (CHR ''0'') = 0" by (simp_all add: is_digit_def digit_val_def)
  obtain x xs where x: "s = x # xs" "is_digit x" using s by (cases s) auto
  have "read_digits 0 (x # xs) = read_digits (digit_val x) xs" using x(2) by (cases xs) simp_all
  with x z show ?thesis by (simp add: read_nat_def)
qed

lemma read_nat_padded: "read_nat (replicate k (CHR ''0'') @ nat_str n) = Some n"
proof (induction k)
  case (Suc k)
  have "list_all is_digit (replicate k (CHR ''0'') @ nat_str n)"
    using nat_str_digits [of n] by (auto simp: list_all_iff) (simp add: is_digit_def)
  from read_nat_zero [OF this] Suc show ?case by simp
qed simp

lemma length_nat_str: "n < 10 ^ k \<Longrightarrow> 0 < k \<Longrightarrow> length (nat_str n) \<le> k"
proof (induction n arbitrary: k rule: nat_str.induct)
  case (1 n)
  show ?case
  proof (cases "n < 10")
    case True
    with 1 show ?thesis by (subst nat_str.simps) simp
  next
    case False
    obtain j where k: "k = Suc j" using 1 by (cases k) auto
    with False 1 have "0 < j" by (cases j) auto
    moreover have "n div 10 < 10 ^ j" using 1 k by (simp add: less_mult_imp_div_less mult.commute)
    ultimately have "length (nat_str (n div 10)) \<le> j" using 1 False by blast
    with False k show ?thesis by (subst nat_str.simps) simp
  qed
qed

lemma length_int_str: "\<bar>i\<bar> < 10 ^ k \<Longrightarrow> 0 < k \<Longrightarrow> length (int_str i) \<le> Suc k"
proof -
  assume "\<bar>i\<bar> < 10 ^ k" and k: "0 < k"
  then have "nat \<bar>i\<bar> < nat (10 ^ k)" by simp
  then have "nat \<bar>i\<bar> < 10 ^ k" by (simp add: nat_power_eq)
  from length_nat_str [OF this k] show ?thesis
    by (cases "i < 0") (simp_all add: int_str_def)
qed

lemma dropWhile_none: "list_all (\<lambda>x. \<not> P x) s \<Longrightarrow> dropWhile P s = s"
  by (cases s) auto

lemma py_strip_none [str_simps]: "list_all (\<lambda>x. \<not> py_isspace x) s \<Longrightarrow> py_strip s = s"
  by (simp add: py_strip_def dropWhile_none list_all_iff)

lemma digit_not_space: "is_digit x \<Longrightarrow> \<not> py_isspace x"
  by (auto simp: is_digit_def py_isspace_def Let_def)

lemma int_str_no_space: "list_all (\<lambda>x. \<not> py_isspace x) (int_str i)"
proof -
  have "list_all (\<lambda>x. \<not> py_isspace x) (nat_str n)" for n
    using nat_str_digits [of n] by (auto simp: list_all_iff dest: digit_not_space)
  moreover have "\<not> py_isspace (CHR ''-'')" by (simp add: py_isspace_def)
  ultimately show ?thesis by (simp add: int_str_def)
qed

lemma nat_str_head: "\<exists>x xs. nat_str n = x # xs \<and> is_digit x"
  using nat_str_digits [of n] nat_str_nonempty [of n] by (cases "nat_str n") auto

lemma py_int_int_str [simp]: "py_int (int_str i) = Some i"
proof (cases "i < 0")
  case True
  have "py_strip (int_str i) = int_str i"
    by (simp add: py_strip_none int_str_no_space)
  with True show ?thesis by (simp add: py_int_def int_str_def)
next
  case False
  obtain x xs where n: "nat_str (nat i) = x # xs" and d: "is_digit x"
    using nat_str_head by blast
  then have "x \<noteq> CHR ''-''" "x \<noteq> CHR ''+''"
    by (auto simp: is_digit_def)
  moreover have "py_strip (int_str i) = int_str i"
    by (simp add: py_strip_none int_str_no_space)
  moreover have "read_nat (x # xs) = Some (nat i)"
    using n [symmetric] by simp
  ultimately show ?thesis
    using False n by (simp add: py_int_def int_str_def)
qed

section \<open>Dates\<close>

type_synonym instant = int

text \<open>
  A \<open>datetime\<close>: its wall-clock reading (microseconds since 1970-01-01T00:00:00 on that clock)
  and its UTC offset in microseconds, \<open>None\<close> for a naive value.
\<close>

datatype pydt = PyDt (wall: int) (utcoffset: "int option")

definition utc_dt :: "instant \<Rightarrow> pydt" where
  "utc_dt t = PyDt t (Some 0)"

text \<open>The instant of a value whose naive readings count as UTC.\<close>

definition dt_instant :: "pydt \<Rightarrow> instant" where
  "dt_instant d = wall d - (case utcoffset d of None \<Rightarrow> 0 | Some off \<Rightarrow> off)"

lemma dt_instant_utc [simp]: "dt_instant (utc_dt t) = t"
  by (simp add: utc_dt_def dt_instant_def)

lemma utcoffset_utc [simp]: "utcoffset (utc_dt t) = Some 0"
  by (simp add: utc_dt_def)

lemma utc_dt_inject [simp]: "utc_dt s = utc_dt t \<longleftrightarrow> s = t"
  by (simp add: utc_dt_def)

definition seconds :: "int \<Rightarrow> int" where
  "seconds n = n * 1000000"

text \<open>
  \<open>datetime.isoformat()\<close> of a UTC value: proleptic Gregorian date, time, microseconds only
  when they are not zero, and the offset \<open>+00:00\<close>.
\<close>

definition civil_of_days :: "int \<Rightarrow> int \<times> int \<times> int" where
  "civil_of_days z0 =
     (let z = z0 + 719468;
          era = z div 146097;
          doe = z mod 146097;
          yoe = (doe - doe div 1460 + doe div 36524 - doe div 146096) div 365;
          doy = doe - (365 * yoe + yoe div 4 - yoe div 100);
          mp = (5 * doy + 2) div 153;
          d = doy - (153 * mp + 2) div 5 + 1;
          m = (if mp < 10 then mp + 3 else mp - 9)
      in (yoe + era * 400 + (if m \<le> 2 then 1 else 0), m, d))"

definition isoformat :: "instant \<Rightarrow> string" where
  "isoformat t =
     (let us = t mod 1000000; s = t div 1000000; day = s div 86400; r = s mod 86400;
          (y, m, d) = civil_of_days day;
          p = (\<lambda>w i. pad_left w (nat_str (nat i)))
      in p 4 y @ ''-'' @ p 2 m @ ''-'' @ p 2 d @ ''T''
         @ p 2 (r div 3600) @ '':'' @ p 2 (r div 60 mod 60) @ '':'' @ p 2 (r mod 60)
         @ (if us = 0 then '''' else ''.'' @ p 6 us) @ ''+00:00'')"

text \<open>The \<open>.isoformat().replace("+00:00", "Z")\<close> the services put on the wire.\<close>

definition iso_z :: "instant \<Rightarrow> string" where
  "iso_z t = py_replace ''+00:00'' ''Z'' (isoformat t)"

section \<open>Decimal rounding\<close>

text \<open>\<open>round(x, n)\<close>: nearest multiple of \<open>10 ^ -n\<close>, ties to the even multiple.\<close>

definition round_half_even :: "'a::floor_ceiling \<Rightarrow> int" where
  "round_half_even x =
     (let f = floor x; r = x - of_int f
      in if r < 1 / 2 then f else if r > 1 / 2 then f + 1 else if even f then f else f + 1)"

definition py_round :: "nat \<Rightarrow> 'a::floor_ceiling \<Rightarrow> 'a" where
  "py_round n x = of_int (round_half_even (x * 10 ^ n)) / 10 ^ n"

lemma round_half_even_mono:
  fixes x y :: "'a::floor_ceiling"
  shows "x \<le> y \<Longrightarrow> round_half_even x \<le> round_half_even y"
proof -
  assume le: "x \<le> y"
  have lo: "floor z \<le> round_half_even z" and hi: "round_half_even z \<le> floor z + 1" for z :: 'a
    by (auto simp: round_half_even_def Let_def)
  show ?thesis
  proof (cases "floor x = floor y")
    case True
    with le show ?thesis by (auto simp: round_half_even_def Let_def)
  next
    case False
    with le have "floor x + 1 \<le> floor y" using floor_mono [OF le] by linarith
    with hi [of x] lo [of y] show ?thesis by linarith
  qed
qed

lemma round_half_even_int [simp]: "round_half_even (of_int k) = k"
  by (simp add: round_half_even_def)

lemma py_round_mono: "x \<le> y \<Longrightarrow> py_round n x \<le> py_round n y"
  by (simp add: py_round_def divide_right_mono round_half_even_mono mult_right_mono)

lemma py_round_of_int [simp]: "py_round n (of_int k :: 'a::floor_ceiling) = of_int k"
proof -
  have "of_int k * 10 ^ n = (of_int (k * 10 ^ n) :: 'a)" by simp
  then have "round_half_even (of_int k * 10 ^ n :: 'a) = k * 10 ^ n"
    by (metis round_half_even_int)
  then show ?thesis by (simp add: py_round_def)
qed

lemma py_round_bounds:
  "of_int lo \<le> x \<Longrightarrow> x \<le> of_int hi \<Longrightarrow> of_int lo \<le> py_round n x \<and> py_round n x \<le> of_int hi"
  using py_round_mono [of "of_int lo" x n] py_round_mono [of x "of_int hi" n] by simp

section \<open>Lists and tables\<close>

text \<open>Python's \<open>xs[i:j]\<close> for non-negative bounds.\<close>

definition py_slice :: "nat \<Rightarrow> nat \<Rightarrow> 'a list \<Rightarrow> 'a list" where
  "py_slice i j xs = take (j - i) (drop i xs)"

text \<open>
  \<open>UPDATE ... WHERE\<close>: the rows that match are rewritten in place, and the row count is the
  number of matches.
\<close>

definition update_where :: "('r \<Rightarrow> bool) \<Rightarrow> ('r \<Rightarrow> 'r) \<Rightarrow> 'r list \<Rightarrow> 'r list" where
  "update_where p f t = map (\<lambda>r. if p r then f r else r) t"

definition rowcount :: "('r \<Rightarrow> bool) \<Rightarrow> 'r list \<Rightarrow> nat" where
  "rowcount p t = length (filter p t)"

lemma length_update_where [table_simps]: "length (update_where p f t) = length t"
  by (simp add: update_where_def)

lemma nth_update_where [table_simps]:
  "i < length t \<Longrightarrow> update_where p f t ! i = (if p (t ! i) then f (t ! i) else t ! i)"
  by (simp add: update_where_def)

lemma set_update_where [table_simps]:
  "set (update_where p f t) = f ` {r \<in> set t. p r} \<union> {r \<in> set t. \<not> p r}"
  by (auto simp: update_where_def)

lemma rowcount_0 [table_simps]: "rowcount p t = 0 \<longleftrightarrow> (\<forall>r \<in> set t. \<not> p r)"
  by (auto simp: rowcount_def filter_empty_conv)

lemma update_where_none [table_simps]: "\<forall>r \<in> set t. \<not> p r \<Longrightarrow> update_where p f t = t"
  by (induction t) (auto simp: update_where_def)

lemma map_update_where [table_simps]:
  "(\<And>r. r \<in> set t \<Longrightarrow> p r \<Longrightarrow> g (f r) = g r) \<Longrightarrow> map g (update_where p f t) = map g t"
  by (auto simp: update_where_def)

lemma distinct_key_unique:
  "distinct (map k t) \<Longrightarrow> r \<in> set t \<Longrightarrow> s \<in> set t \<Longrightarrow> k r = k s \<Longrightarrow> r = s"
  by (metis distinct_map inj_onD)

text \<open>The row order the database leaves open where a statement does not order its result.\<close>

definition scan_ok :: "('r list \<Rightarrow> 'r list) \<Rightarrow> bool" where
  "scan_ok scan = (\<forall>t. mset (scan t) = mset t)"

lemma scan_ok_id [simp]: "scan_ok (\<lambda>t. t)"
  by (simp add: scan_ok_def)

lemma scan_ok_set: "scan_ok scan \<Longrightarrow> set (scan t) = set t"
  by (metis scan_ok_def set_mset_mset)

lemma scan_ok_length: "scan_ok scan \<Longrightarrow> length (scan t) = length t"
  by (metis scan_ok_def size_mset)

lemma mset_add_length: "mset xs = add_mset r (mset ys) \<Longrightarrow> length xs = Suc (length ys)"
  by (metis size_add_mset size_mset)

lemma mset_add_set: "mset xs = add_mset r (mset ys) \<Longrightarrow> set xs = insert r (set ys)"
  by (metis set_mset_add_mset_insert set_mset_mset)

lemma find_Some_mem: "List.find p t = Some r \<Longrightarrow> r \<in> set t \<and> p r"
  by (auto simp: find_Some_iff)

lemma length_filter_mono: "(\<And>x. x \<in> set xs \<Longrightarrow> P x \<Longrightarrow> Q x) \<Longrightarrow> length (filter P xs) \<le> length (filter Q xs)"
  by (induction xs) (auto simp: le_SucI)

section \<open>Invariants of step relations\<close>

text \<open>What every step keeps holds after any number of steps.\<close>

locale step_invariant =
  fixes step :: "'s \<Rightarrow> 's \<Rightarrow> bool" and inv :: "'s \<Rightarrow> bool"
  assumes step_keeps: "step s s' \<Longrightarrow> inv s \<Longrightarrow> inv s'"
begin

lemma run_keeps: "step\<^sup>*\<^sup>* s s' \<Longrightarrow> inv s \<Longrightarrow> inv s'"
  by (induction rule: rtranclp_induct) (auto intro: step_keeps)

end

end
