(* ===== verification/FleetConfig.thy ===== *)
theory FleetConfig
  imports FleetPrelude
begin

text \<open>
  The application settings (\<open>backend/app/config.py\<close>): every field with its default, the derived
  properties, and the validator that refuses dangerous production configurations. Reading the
  fields from the environment is done by pydantic-settings and is not modelled: a \<open>settings\<close>
  value is one whose fields already have their declared types.
\<close>

section \<open>The settings and their defaults\<close>

record settings =
  database_url :: string
  redis_url :: string
  telemetry_api_key :: string
  ticket_ttl_seconds :: int
  auth_mode :: "string option"
  jwt_secret :: "string option"
  jwt_ttl_seconds :: int
  bootstrap_admin_username :: "string option"
  bootstrap_admin_password :: "string option"
  retention_days :: rat
  defer_writes_without_viewers :: bool
  app_env :: string
  log_level :: string
  log_format_setting :: "string option"
  access_log :: bool
  cors_origins :: string
  websocket_backend :: string
  rate_limit_backend :: string
  rate_limit_per_minute :: int
  console_rate_limit_per_minute :: int
  trusted_proxy_count :: int
  db_pool_size :: int
  db_max_overflow :: int
  offline_after_seconds :: int
  fleet_window_minutes :: int
  fleet_history_per_robot :: int
  max_clock_skew_seconds :: int
  telemetry_stream_maxlen :: int
  require_auth_for_reads :: bool
  opt_redis_buffer :: bool
  opt_read_cache :: bool
  opt_asgi_middleware :: bool
  opt_bounded_fanout :: bool
  opt_batch_insert :: bool

definition default_settings :: "string \<Rightarrow> string \<Rightarrow> settings" where
  "default_settings url key = \<lparr>
     database_url = url,
     redis_url = ''redis://localhost:6379/0'',
     telemetry_api_key = key,
     ticket_ttl_seconds = 300,
     auth_mode = None,
     jwt_secret = None,
     jwt_ttl_seconds = 3600,
     bootstrap_admin_username = None,
     bootstrap_admin_password = None,
     retention_days = 1,
     defer_writes_without_viewers = False,
     app_env = ''development'',
     log_level = ''INFO'',
     log_format_setting = None,
     access_log = True,
     cors_origins = ''http://localhost:5173,http://localhost:3000'',
     websocket_backend = ''redis'',
     rate_limit_backend = ''redis'',
     rate_limit_per_minute = 600,
     console_rate_limit_per_minute = 60,
     trusted_proxy_count = 0,
     db_pool_size = 20,
     db_max_overflow = 50,
     offline_after_seconds = 60,
     fleet_window_minutes = 15,
     fleet_history_per_robot = 30,
     max_clock_skew_seconds = 300,
     telemetry_stream_maxlen = 100000,
     require_auth_for_reads = False,
     opt_redis_buffer = True,
     opt_read_cache = True,
     opt_asgi_middleware = True,
     opt_bounded_fanout = True,
     opt_batch_insert = True\<rparr>"

section \<open>Derived properties\<close>

definition cors_origin_list :: "settings \<Rightarrow> string list" where
  "cors_origin_list s =
     (if py_strip (cors_origins s) = ''*'' then [''*'']
      else filter (\<lambda>o'. o' \<noteq> []) (map py_strip (py_split (CHR '','') (cors_origins s))))"

definition cors_allow_credentials :: "settings \<Rightarrow> bool" where
  "cors_allow_credentials s = (cors_origin_list s \<noteq> [''*''])"

definition is_production :: "settings \<Rightarrow> bool" where
  "is_production s = (py_lower (app_env s) = ''production'')"

definition log_format :: "settings \<Rightarrow> string" where
  "log_format s =
     (if truthy_str (log_format_setting s) then py_lower (the (log_format_setting s))
      else if is_production s then ''json'' else ''text'')"

definition resolved_auth_mode :: "settings \<Rightarrow> string" where
  "resolved_auth_mode s =
     (if truthy_str (auth_mode s) then py_lower (the (auth_mode s))
      else if is_production s then ''required'' else ''open'')"

definition auth_required :: "settings \<Rightarrow> bool" where
  "auth_required s = (resolved_auth_mode s = ''required'')"

definition async_database_url :: "settings \<Rightarrow> string" where
  "async_database_url s =
     (if py_startswith (database_url s) ''postgresql://''
      then ''postgresql+asyncpg://'' @ drop (length ''postgresql://'') (database_url s)
      else database_url s)"

text \<open>
  The validator: the \<open>ValueError\<close> it raises, or the accepted settings with whether it logged
  the public-console warning.
\<close>

datatype config_error = WildcardCors | ShortApiKey | ShortJwtSecret | BadAuthMode "string option"

definition guard_production :: "settings \<Rightarrow> config_error + (settings \<times> bool)" where
  "guard_production s =
     (if is_production s \<and> cors_origin_list s = [''*''] then Inl WildcardCors
      else if is_production s \<and> length (telemetry_api_key s) < 16 then Inl ShortApiKey
      else if is_production s \<and> (case jwt_secret s of None \<Rightarrow> False | Some j \<Rightarrow> length j < 32) then Inl ShortJwtSecret
      else if resolved_auth_mode s \<notin> {''open'', ''required''} then Inl (BadAuthMode (auth_mode s))
      else Inr (s, is_production s \<and> \<not> auth_required s))"

text \<open>
  The \<open>opt_\<close> flags, in the alphabetical order of their names.
\<close>

definition optimization_flags :: "settings \<Rightarrow> (string \<times> bool) list" where
  "optimization_flags s =
     [(''opt_asgi_middleware'', opt_asgi_middleware s),
      (''opt_batch_insert'', opt_batch_insert s),
      (''opt_bounded_fanout'', opt_bounded_fanout s),
      (''opt_read_cache'', opt_read_cache s),
      (''opt_redis_buffer'', opt_redis_buffer s)]"

section \<open>Lemmas\<close>

lemma py_strip_idem_head: "py_strip s \<noteq> [] \<Longrightarrow> \<not> py_isspace (hd (py_strip s)) \<and> \<not> py_isspace (last (py_strip s))"
proof -
  define t where "t = dropWhile py_isspace s"
  assume ne: "py_strip s \<noteq> []"
  then have r: "dropWhile py_isspace (rev t) \<noteq> []" by (simp add: py_strip_def t_def)
  then have l: "\<not> py_isspace (last (py_strip s))"
    by (simp add: py_strip_def t_def [symmetric] last_rev hd_dropWhile)
  have tne: "t \<noteq> []" using r by auto
  obtain u where u: "rev t = u @ dropWhile py_isspace (rev t)"
    by (metis takeWhile_dropWhile_id)
  then have "t = rev (dropWhile py_isspace (rev t)) @ rev u"
    by (metis rev_append rev_rev_ident)
  then have "hd (rev (dropWhile py_isspace (rev t))) = hd t"
    using r by (metis hd_append2 rev_is_Nil_conv)
  moreover have "\<not> py_isspace (hd t)"
    using tne by (simp add: t_def hd_dropWhile)
  ultimately show ?thesis using l by (simp add: py_strip_def t_def [symmetric])
qed

lemma set_py_strip: "set (py_strip s) \<subseteq> set s"
  by (auto simp: py_strip_def dest!: set_dropWhileD)

lemma cors_origin_list_clean:
  "\<forall>x \<in> set (cors_origin_list s). x \<noteq> [] \<and> CHR '','' \<notin> set x \<and> \<not> py_isspace (hd x) \<and> \<not> py_isspace (last x)"
proof (cases "py_strip (cors_origins s) = ''*''")
  case True
  then show ?thesis by (simp add: cors_origin_list_def py_isspace_def)
next
  case False
  show ?thesis
  proof
    fix x
    assume "x \<in> set (cors_origin_list s)"
    with False obtain w where w: "w \<in> set (py_split (CHR '','') (cors_origins s))"
      and x: "x = py_strip w" "x \<noteq> []"
      by (auto simp: cors_origin_list_def)
    from py_split_parts [OF w] set_py_strip [of w] x
    show "x \<noteq> [] \<and> CHR '','' \<notin> set x \<and> \<not> py_isspace (hd x) \<and> \<not> py_isspace (last x)"
      using py_strip_idem_head [of w] by auto
  qed
qed

lemma auth_mode_default: "\<not> truthy_str (auth_mode s) \<Longrightarrow> is_production s \<Longrightarrow> auth_required s"
  by (simp add: auth_required_def resolved_auth_mode_def)

text \<open>
  What the start-up validator guarantees: a configuration it accepts resolves to exactly
  one of the two authentication modes and never combines the bare wildcard origin with
  credentials, and in production it has no bare wildcard origin, a master key of at least 16
  characters and no JWT secret shorter than 32, and its console is public only when the
  operator wrote an authentication mode (never by default) and the warning was logged.
  Conversely every configuration with these properties is accepted unchanged.
\<close>

theorem guard_production_exact:
  "guard_production s = Inr (s', warned) \<longleftrightarrow>
     s' = s
     \<and> (warned \<longleftrightarrow> is_production s \<and> \<not> auth_required s)
     \<and> (resolved_auth_mode s = ''open'' \<or> auth_required s)
     \<and> (cors_origin_list s = [''*''] \<longrightarrow> \<not> cors_allow_credentials s)
     \<and> (is_production s \<longrightarrow>
          cors_allow_credentials s
          \<and> 16 \<le> length (telemetry_api_key s)
          \<and> (\<forall>j. jwt_secret s = Some j \<longrightarrow> 32 \<le> length j)
          \<and> (auth_required s \<or> (\<exists>m. auth_mode s = Some m \<and> py_lower m = ''open'')))"
proof -
  have explicit: "auth_required s \<or> (\<exists>m. auth_mode s = Some m \<and> py_lower m = ''open'')"
    if "is_production s" "resolved_auth_mode s \<in> {''open'', ''required''}"
    using that by (cases "auth_mode s") (auto simp: auth_required_def resolved_auth_mode_def split: if_splits)
  show ?thesis
    using explicit
    by (auto simp: guard_production_def cors_allow_credentials_def auth_required_def not_less split: option.splits)
qed

definition demo_settings :: settings where
  "demo_settings = (default_settings ''postgresql://db/fleet'' ''0123456789abcdef'')
     \<lparr>app_env := ''Production'', auth_mode := Some ''OPEN'', cors_origins := ''https://a.example, https://b.example''\<rparr>"

theorem guard_production_exact_witness:
  "guard_production demo_settings = Inr (demo_settings, True)
   \<and> cors_origin_list demo_settings = [''https://a.example'', ''https://b.example'']"
proof
  have cors: "cors_origin_list demo_settings = [''https://a.example'', ''https://b.example'']"
    by code_simp
  have m: "py_lower ''OPEN'' = ''open''" "py_lower ''Production'' = ''production''"
    by code_simp+
  show "guard_production demo_settings = Inr (demo_settings, True)"
    unfolding guard_production_exact
    using cors m
    by (simp add: cors_allow_credentials_def is_production_def auth_required_def resolved_auth_mode_def)
       (simp add: demo_settings_def default_settings_def)
  show "cors_origin_list demo_settings = [''https://a.example'', ''https://b.example'']"
    by (rule cors)
qed

text \<open>
  The wildcard guard looks at the whole origin list, so a wildcard listed beside another
  origin is accepted in production and the origin list handed to the CORS layer contains the
  wildcard while credentials are allowed.
\<close>

theorem wildcard_beside_origin_accepted:
  "guard_production (demo_settings\<lparr>cors_origins := ''*,https://a.example''\<rparr>) =
     Inr (demo_settings\<lparr>cors_origins := ''*,https://a.example''\<rparr>, True)
   \<and> ''*'' \<in> set (cors_origin_list (demo_settings\<lparr>cors_origins := ''*,https://a.example''\<rparr>))
   \<and> cors_allow_credentials (demo_settings\<lparr>cors_origins := ''*,https://a.example''\<rparr>)"
  (is "guard_production ?s = _ \<and> _")
proof -
  have cors: "cors_origin_list ?s = [''*'', ''https://a.example'']"
    by code_simp
  have m: "resolved_auth_mode ?s = ''open''" by code_simp
  have "telemetry_api_key ?s = ''0123456789abcdef''" "jwt_secret ?s = None" "is_production ?s"
    by code_simp+
  with cors m show ?thesis
    by (simp add: guard_production_def cors_allow_credentials_def auth_required_def)
qed

text \<open>
  The origin list is read back exactly: a list of clean origins (not empty, no comma,
  no space at either end) written with commas is parsed as itself.
\<close>

theorem cors_origins_roundtrip:
  assumes "ws \<noteq> []" and "\<forall>w \<in> set ws. w \<noteq> [] \<and> CHR '','' \<notin> set w \<and> list_all (\<lambda>ch. \<not> py_isspace ch) w"
  shows "cors_origin_list (s\<lparr>cors_origins := py_join (CHR '','') ws\<rparr>) = ws"
proof -
  have sp: "py_split (CHR '','') (py_join (CHR '','') ws) = ws"
    using assms by (intro py_split_join) auto
  have st: "map py_strip ws = ws"
    using assms(2) by (intro map_idI) (auto intro: py_strip_none)
  have ne: "filter (\<lambda>w. w \<noteq> []) ws = ws"
    using assms(2) by (simp add: filter_id_conv)
  have clean: "list_all (\<lambda>ch. \<not> py_isspace ch) (py_join (CHR '','') ws)"
    using assms(2) by (induction "CHR '',''" ws rule: py_join.induct) (auto simp: py_isspace_def)
  show ?thesis
  proof (cases "py_join (CHR '','') ws = ''*''")
    case True
    with sp have "ws = [''*'']" by simp
    then show ?thesis
      by (simp add: cors_origin_list_def py_strip_def py_isspace_def)
  next
    case False
    with sp st ne clean show ?thesis
      by (simp add: cors_origin_list_def py_strip_none)
  qed
qed

theorem cors_origins_roundtrip_witness:
  "cors_origin_list (demo_settings\<lparr>cors_origins := py_join (CHR '','') [''http://x'', ''http://y'']\<rparr>)
     = [''http://x'', ''http://y'']"
  by (rule cors_origins_roundtrip) (simp_all add: py_isspace_def)

end
