(* ===== verification/FleetTickets.thy ===== *)
theory FleetTickets
  imports FleetConfig
begin

text \<open>
  Short-lived console tickets (\<open>backend/app/tickets.py\<close>). HMAC-SHA256 is the parameter
  \<open>mac\<close> (key, payload, hexadecimal digest) and \<open>secrets.token_urlsafe\<close> supplies the nonce.
  The hypotheses on them are the documented shape of their results: \<open>mac_hex\<close> says a digest is
  written with hexadecimal digits, \<open>urlsafe\<close> that a token uses letters, digits, minus and
  underscore only. \<open>time.time()\<close> is an instant in microseconds.
\<close>

definition SCOPE_CONSOLE :: string where
  "SCOPE_CONSOLE = ''console''"

definition ticket_version :: string where
  "ticket_version = ''v1''"

abbreviation field_sep :: char where
  "field_sep \<equiv> CHR ''.''"

text \<open>\<open>int(time.time())\<close> truncates towards zero.\<close>

definition unix_seconds :: "instant \<Rightarrow> int" where
  "unix_seconds t = (if 0 \<le> t then t div 1000000 else - ((- t) div 1000000))"

definition sign :: "(string \<Rightarrow> string \<Rightarrow> string) \<Rightarrow> settings \<Rightarrow> string \<Rightarrow> string" where
  "sign mac cfg payload = mac (telemetry_api_key cfg) payload"

definition issue_ticket ::
  "(string \<Rightarrow> string \<Rightarrow> string) \<Rightarrow> settings \<Rightarrow> string \<Rightarrow> int option \<Rightarrow> instant \<Rightarrow> string \<Rightarrow> string \<times> int"
where
  "issue_ticket mac cfg scope ttl_seconds now nonce =
     (let ttl = (case ttl_seconds of Some t \<Rightarrow> t | None \<Rightarrow> ticket_ttl_seconds cfg);
          expires_at = unix_seconds now + ttl;
          payload = py_join field_sep [ticket_version, scope, int_str expires_at, nonce]
      in (payload @ field_sep # sign mac cfg payload, expires_at))"

definition verify_ticket ::
  "(string \<Rightarrow> string \<Rightarrow> string) \<Rightarrow> settings \<Rightarrow> string option \<Rightarrow> string \<Rightarrow> instant \<Rightarrow> bool result"
where
  "verify_ticket mac cfg ticket scope now =
     (if \<not> truthy_str ticket then Inr False
      else case py_split field_sep (the ticket) of
        [version, ticket_scope, expires_raw, nonce, signature] \<Rightarrow>
          if version \<noteq> ticket_version then Inr False
          else
            bindR (compare_digest signature
                     (sign mac cfg (py_join field_sep [version, ticket_scope, expires_raw, nonce])))
              (\<lambda>sig_ok. if \<not> sig_ok then Inr False
                else bindR (compare_digest ticket_scope scope)
                  (\<lambda>scope_ok. if \<not> scope_ok then Inr False
                    else case py_int expires_raw of
                      None \<Rightarrow> Inr False
                    | Some expires_at \<Rightarrow> Inr (now < seconds expires_at)))
      | _ \<Rightarrow> Inr False)"

section \<open>The shape of digests and tokens\<close>

definition hex_char :: "char \<Rightarrow> bool" where
  "hex_char ch = (is_digit ch \<or> ch \<in> set ''abcdef'')"

definition mac_hex :: "(string \<Rightarrow> string \<Rightarrow> string) \<Rightarrow> bool" where
  "mac_hex mac = (\<forall>k p. list_all hex_char (mac k p))"

definition urlsafe :: "string \<Rightarrow> bool" where
  "urlsafe s = list_all (\<lambda>ch. is_digit ch \<or> ch \<in> set ''abcdefghijklmnopqrstuvwxyzABCDEFGHIJKLMNOPQRSTUVWXYZ-_'') s"

lemma is_digit_ascii: "is_digit ch \<Longrightarrow> (of_char ch :: nat) < 128"
  by (simp add: is_digit_def Let_def)

lemma hex_char_ascii: "hex_char ch \<Longrightarrow> (of_char ch :: nat) < 128"
  by (auto simp: hex_char_def dest: is_digit_ascii)

lemma hex_char_no_dot: "\<not> hex_char (CHR ''.'')"
  by (simp add: hex_char_def is_digit_def)

lemma mac_hex_ascii: "mac_hex mac \<Longrightarrow> is_ascii (mac k p)"
  by (auto simp: mac_hex_def is_ascii_def list_all_iff dest!: hex_char_ascii)

lemma mac_hex_no_dot: "mac_hex mac \<Longrightarrow> CHR ''.'' \<notin> set (mac k p)"
  using hex_char_no_dot by (auto simp: mac_hex_def list_all_iff)

lemma urlsafe_no_dot: "urlsafe s \<Longrightarrow> CHR ''.'' \<notin> set s"
  by (auto simp: urlsafe_def list_all_iff is_digit_def)

lemma int_str_no_dot: "CHR ''.'' \<notin> set (int_str i)"
proof -
  have "CHR ''.'' \<notin> set (nat_str n)" for n
    using nat_str_digits [of n] by (auto simp: list_all_iff is_digit_def)
  then show ?thesis by (simp add: int_str_def)
qed

lemma join_snoc5:
  "py_join c [a, b, d, e] @ c # f = py_join c [a, b, d, e, f]"
  by simp

lemma split_five:
  "py_split c t = [a, b, d, e, f] \<Longrightarrow>
   t = py_join c [a, b, d, e] @ c # f \<and> c \<notin> set a \<union> set b \<union> set d \<union> set e \<union> set f"
  using py_join_split [of c t] py_split_parts [of _ c t] by auto

section \<open>What an accepted ticket is\<close>

lemma verify_ticket_split:
  assumes "py_split field_sep t = [v, s, x, n, sg]"
  shows "verify_ticket mac cfg (Some t) scope now =
    (if v \<noteq> ticket_version then Inr False
     else bindR (compare_digest sg (sign mac cfg (py_join field_sep [v, s, x, n])))
       (\<lambda>ok. if \<not> ok then Inr False
         else bindR (compare_digest s scope)
           (\<lambda>ok. if \<not> ok then Inr False
             else case py_int x of None \<Rightarrow> Inr False | Some e \<Rightarrow> Inr (now < seconds e))))"
proof -
  have "t \<noteq> []" using assms by auto
  with assms show ?thesis by (simp add: verify_ticket_def)
qed

lemma verify_ticket_other:
  "\<nexists>v s x n sg. py_split field_sep t = [v, s, x, n, sg] \<Longrightarrow> verify_ticket mac cfg (Some t) scope now = Inr False"
  by (auto simp: verify_ticket_def split: list.splits)

lemma verify_ticket_True:
  assumes hex: "mac_hex mac"
  shows "verify_ticket mac cfg (Some t) scope now = Inr True \<longleftrightarrow>
    (\<exists>x n e. py_split field_sep t =
         [ticket_version, scope, x, n, sign mac cfg (py_join field_sep [ticket_version, scope, x, n])]
       \<and> is_ascii scope \<and> py_int x = Some e \<and> now < seconds e)"
proof (cases "\<exists>v s x n sg. py_split field_sep t = [v, s, x, n, sg]")
  case True
  then obtain v s x n sg where sp: "py_split field_sep t = [v, s, x, n, sg]" by blast
  have asc: "is_ascii (sign mac cfg p)" for p
    using hex by (simp add: sign_def mac_hex_ascii)
  show ?thesis
    unfolding verify_ticket_split [OF sp] sp
    by (auto simp: compare_digest_def asc bindR_eq_Inr split: if_splits option.splits)
next
  case False
  then show ?thesis by (auto simp: verify_ticket_other)
qed

lemma issued_split:
  assumes "mac_hex mac" "urlsafe nonce" "CHR ''.'' \<notin> set scope"
  shows "py_split field_sep (fst (issue_ticket mac cfg scope ttl now nonce)) =
    (let x = int_str (snd (issue_ticket mac cfg scope ttl now nonce))
     in [ticket_version, scope, x, nonce, sign mac cfg (py_join field_sep [ticket_version, scope, x, nonce])])"
proof -
  let ?e = "snd (issue_ticket mac cfg scope ttl now nonce)"
  let ?p = "py_join field_sep [ticket_version, scope, int_str ?e, nonce]"
  have "fst (issue_ticket mac cfg scope ttl now nonce) =
      py_join field_sep [ticket_version, scope, int_str ?e, nonce, sign mac cfg ?p]"
    by (simp add: issue_ticket_def Let_def)
  moreover have "\<forall>w \<in> set [ticket_version, scope, int_str ?e, nonce, sign mac cfg ?p]. CHR ''.'' \<notin> set w"
    using assms by (simp add: ticket_version_def sign_def int_str_no_dot urlsafe_no_dot mac_hex_no_dot)
  ultimately show ?thesis
    by (simp add: Let_def py_split_join del: py_join.simps)
qed

section \<open>Properties\<close>

text \<open>
  Issue, then verify: a ticket minted for a scope is accepted under the same key for
  exactly that scope and exactly until the expiry second returned with it, which lies the
  configured lifetime after the time of issue.
\<close>

theorem ticket_roundtrip:
  assumes "mac_hex mac" and "urlsafe nonce"
    and "CHR ''.'' \<notin> set scope" and "is_ascii scope" and "is_ascii scope'"
    and "issue_ticket mac cfg scope ttl issued nonce = (ticket, expires_at)"
  shows "verify_ticket mac cfg (Some ticket) scope' now = Inr (scope' = scope \<and> now < seconds expires_at)
    \<and> expires_at = unix_seconds issued + (case ttl of Some t \<Rightarrow> t | None \<Rightarrow> ticket_ttl_seconds cfg)"
proof
  have sp: "py_split field_sep ticket = [ticket_version, scope, int_str expires_at, nonce,
      sign mac cfg (py_join field_sep [ticket_version, scope, int_str expires_at, nonce])]"
    using issued_split [OF assms(1-3), of cfg ttl issued] assms(6) by (simp add: Let_def)
  have asc: "is_ascii (sign mac cfg p)" for p
    using assms(1) by (simp add: sign_def mac_hex_ascii)
  show "verify_ticket mac cfg (Some ticket) scope' now = Inr (scope' = scope \<and> now < seconds expires_at)"
    unfolding verify_ticket_split [OF sp]
    using assms(4,5) asc by (simp add: compare_digest_def)
  show "expires_at = unix_seconds issued + (case ttl of Some t \<Rightarrow> t | None \<Rightarrow> ticket_ttl_seconds cfg)"
    using assms(6) by (auto simp: issue_ticket_def Let_def)
qed

definition sample_mac :: "string \<Rightarrow> string \<Rightarrow> string" where
  "sample_mac k p = nat_str (length k + 31 * sum_list (map of_char p))"

lemma nat_str_inject: "nat_str m = nat_str n \<longleftrightarrow> m = n"
  by (metis option.inject read_nat_nat_str)

lemma sample_mac_hex: "mac_hex sample_mac"
  using nat_str_digits by (auto simp: mac_hex_def sample_mac_def hex_char_def list_all_iff)

theorem ticket_roundtrip_witness:
  "verify_ticket sample_mac demo_settings
      (Some (fst (issue_ticket sample_mac demo_settings ''console'' None 5000000 ''n-1''))) ''console'' 304999999
     = Inr True
   \<and> snd (issue_ticket sample_mac demo_settings ''console'' None 5000000 ''n-1'') = 305"
proof -
  have "issue_ticket sample_mac demo_settings ''console'' None 5000000 ''n-1''
      = (fst (issue_ticket sample_mac demo_settings ''console'' None 5000000 ''n-1''), 305)"
    by (simp add: issue_ticket_def Let_def unix_seconds_def demo_settings_def default_settings_def)
  moreover from this have "snd (issue_ticket sample_mac demo_settings ''console'' None 5000000 ''n-1'') = 305"
    by (metis snd_conv)
  moreover have "urlsafe ''n-1''" "is_ascii ''console''"
    by (simp_all add: urlsafe_def is_ascii_def is_digit_def)
  ultimately show ?thesis
    using ticket_roundtrip [OF sample_mac_hex, of "''n-1''" "''console''" "''console''" demo_settings None 5000000
        "fst (issue_ticket sample_mac demo_settings ''console'' None 5000000 ''n-1'')" 305 304999999]
    by (simp add: seconds_def)
qed

definition issued_ticket ::
  "(string \<Rightarrow> string \<Rightarrow> string) \<Rightarrow> settings \<Rightarrow> string \<times> int option \<times> instant \<times> string \<Rightarrow> string \<times> int"
where
  "issued_ticket mac cfg call = (case call of (scope, ttl, t0, nonce) \<Rightarrow> issue_ticket mac cfg scope ttl t0 nonce)"

definition issued_payload ::
  "(string \<Rightarrow> string \<Rightarrow> string) \<Rightarrow> settings \<Rightarrow> string \<times> int option \<times> instant \<times> string \<Rightarrow> string"
where
  "issued_payload mac cfg call = (case call of (scope, ttl, t0, nonce) \<Rightarrow>
     py_join field_sep [ticket_version, scope, int_str (snd (issued_ticket mac cfg call)), nonce])"

definition not_forged ::
  "(string \<Rightarrow> string \<Rightarrow> string) \<Rightarrow> settings \<Rightarrow> (string \<times> int option \<times> instant \<times> string) list \<Rightarrow> string \<Rightarrow> bool"
where
  "not_forged mac cfg issued ticket =
     (let parts = py_split field_sep ticket; payload = py_join field_sep (butlast parts)
      in last parts = mac (telemetry_api_key cfg) payload \<longrightarrow> payload \<in> issued_payload mac cfg ` set issued)"

lemma issued_ticket_text:
  "fst (issued_ticket mac cfg c) = issued_payload mac cfg c @ field_sep # mac (telemetry_api_key cfg) (issued_payload mac cfg c)"
  by (cases c) (simp add: issued_ticket_def issued_payload_def issue_ticket_def sign_def Let_def)

text \<open>
  C19: A client cannot widen the scope or extend the lifetime of what it was given. Let
  \<open>issued\<close> be the calls of \<open>issue_ticket\<close> the server made under its key, and let a presented
  ticket carry no signature of a payload the server never signed (the MAC is unforgeable).
  If \<open>verify_ticket\<close> accepts it for a scope at a time, it is, character for character, a
  ticket the server issued for that scope and whose expiry has not passed.
\<close>

theorem ticket_not_widened:
  assumes hex: "mac_hex mac"
    and calls: "\<forall>(s, ttl, t0, n) \<in> set issued. urlsafe n \<and> CHR ''.'' \<notin> set s"
    and nf: "not_forged mac cfg issued ticket"
    and acc: "verify_ticket mac cfg (Some ticket) scope now = Inr True"
  shows "\<exists>c \<in> set issued. fst c = scope \<and> ticket = fst (issued_ticket mac cfg c)
    \<and> now < seconds (snd (issued_ticket mac cfg c))"
proof -
  obtain x n e where sp: "py_split field_sep ticket =
      [ticket_version, scope, x, n, sign mac cfg (py_join field_sep [ticket_version, scope, x, n])]"
    and e: "py_int x = Some e" "now < seconds e"
    using acc verify_ticket_True [OF hex] by blast
  define payload where "payload = py_join field_sep [ticket_version, scope, x, n]"
  have "payload \<in> issued_payload mac cfg ` set issued"
    using nf sp by (simp add: not_forged_def sign_def payload_def Let_def)
  then obtain c where c: "c \<in> set issued" "payload = issued_payload mac cfg c" by blast
  obtain s ttl t0 k where ck: "c = (s, ttl, t0, k)" by (cases c)
  have t: "ticket = payload @ field_sep # mac (telemetry_api_key cfg) payload"
    using split_five [OF sp] by (simp add: sign_def payload_def)
  have nodot: "\<forall>w \<in> set [ticket_version, scope, x, n]. CHR ''.'' \<notin> set w"
    using split_five [OF sp] by simp
  have nodot': "\<forall>w \<in> set [ticket_version, s, int_str (snd (issued_ticket mac cfg c)), k]. CHR ''.'' \<notin> set w"
    using calls c ck by (auto simp: ticket_version_def int_str_no_dot urlsafe_no_dot)
  have "py_split field_sep payload = [ticket_version, scope, x, n]"
    unfolding payload_def by (intro py_split_join nodot) simp
  moreover have "py_split field_sep (issued_payload mac cfg c) =
      [ticket_version, s, int_str (snd (issued_ticket mac cfg c)), k]"
    using py_split_join [OF _ nodot'] ck by (simp add: issued_payload_def)
  ultimately have "scope = s" "x = int_str (snd (issued_ticket mac cfg c))"
    using c by auto
  with c ck t e issued_ticket_text [of mac cfg c] show ?thesis
    by (intro bexI [of _ c]) auto
qed

theorem ticket_not_widened_witness:
  "\<exists>c \<in> set [(''console'', None, 5000000, ''n-1'')]. fst c = ''console''
     \<and> fst (issue_ticket sample_mac demo_settings ''console'' None 5000000 ''n-1'') = fst (issued_ticket sample_mac demo_settings c)
     \<and> 304999999 < seconds (snd (issued_ticket sample_mac demo_settings c))"
proof (rule ticket_not_widened [OF sample_mac_hex])
  let ?c = "(''console'', None, 5000000, ''n-1'') :: string \<times> int option \<times> instant \<times> string"
  have u: "urlsafe ''n-1''" by (simp add: urlsafe_def is_digit_def)
  then show "\<forall>(s, ttl, t0, n) \<in> set [?c]. urlsafe n \<and> CHR ''.'' \<notin> set s" by simp
  have sp: "py_split field_sep (fst (issue_ticket sample_mac demo_settings ''console'' None 5000000 ''n-1'')) =
    (let x = int_str (snd (issue_ticket sample_mac demo_settings ''console'' None 5000000 ''n-1''))
     in [ticket_version, ''console'', x, ''n-1'',
         sign sample_mac demo_settings (py_join field_sep [ticket_version, ''console'', x, ''n-1''])])"
    by (rule issued_split [OF sample_mac_hex u]) simp
  then show "not_forged sample_mac demo_settings [?c]
      (fst (issue_ticket sample_mac demo_settings ''console'' None 5000000 ''n-1''))"
    by (simp add: not_forged_def Let_def issued_payload_def issued_ticket_def)
  have e: "snd (issue_ticket sample_mac demo_settings ''console'' None 5000000 ''n-1'') = 305"
    by (simp add: issue_ticket_def Let_def unix_seconds_def demo_settings_def default_settings_def)
  show "verify_ticket sample_mac demo_settings
      (Some (fst (issue_ticket sample_mac demo_settings ''console'' None 5000000 ''n-1''))) ''console'' 304999999 = Inr True"
    unfolding verify_ticket_True [OF sample_mac_hex] sp Let_def e
    by (simp add: is_ascii_def seconds_def)
qed

text \<open>
  Rotating the master key invalidates outstanding tickets: a ticket minted under one key
  is refused under another whose MAC of its payload differs, at every time and for every scope.
\<close>

theorem ticket_key_rotation:
  assumes hex: "mac_hex mac" and nonce: "urlsafe nonce" and scope: "CHR ''.'' \<notin> set scope"
    and issue: "issue_ticket mac cfg scope ttl issued nonce = (ticket, expires_at)"
    and differs: "\<And>p. mac (telemetry_api_key cfg') p \<noteq> mac (telemetry_api_key cfg) p"
  shows "verify_ticket mac cfg' (Some ticket) scope' now = Inr False"
proof -
  have sp: "py_split field_sep ticket = [ticket_version, scope, int_str expires_at, nonce,
      sign mac cfg (py_join field_sep [ticket_version, scope, int_str expires_at, nonce])]"
    using issued_split [OF hex nonce scope, of cfg ttl issued] issue by (simp add: Let_def)
  have "is_ascii (mac k p)" for k p
    using hex by (simp add: mac_hex_ascii)
  then show ?thesis
    unfolding verify_ticket_split [OF sp]
    by (simp add: compare_digest_def sign_def not_sym [OF differs])
qed

theorem ticket_key_rotation_witness:
  "verify_ticket sample_mac (demo_settings\<lparr>telemetry_api_key := ''another-master-key''\<rparr>)
     (Some (fst (issue_ticket sample_mac demo_settings ''console'' None 5000000 ''n-1''))) ''console'' 6000000 = Inr False"
proof (rule ticket_key_rotation [OF sample_mac_hex, where nonce = "''n-1''" and scope = "''console''"
      and cfg = demo_settings and ttl = None and issued = 5000000
      and expires_at = "snd (issue_ticket sample_mac demo_settings ''console'' None 5000000 ''n-1'')"])
  show "sample_mac (telemetry_api_key (demo_settings\<lparr>telemetry_api_key := ''another-master-key''\<rparr>)) p
      \<noteq> sample_mac (telemetry_api_key demo_settings) p" for p
    by (simp add: sample_mac_def nat_str_inject demo_settings_def default_settings_def)
qed (simp_all add: urlsafe_def is_digit_def)

text \<open>
  The one malformed input that is not answered with \<open>False\<close>: five fields of version
  \<open>v1\<close> whose signature holds a character outside ASCII make \<open>verify_ticket\<close> raise
  \<open>TypeError\<close>, whatever the key, scope and time.
\<close>

theorem ticket_nonascii_signature_raises:
  assumes "py_split field_sep t = [ticket_version, s, x, n, sg]" and "\<not> is_ascii sg"
  shows "verify_ticket mac cfg (Some t) scope now = Inl TypeError"
  unfolding verify_ticket_split [OF assms(1)] using assms(2) by (simp add: compare_digest_def)

theorem ticket_nonascii_signature_raises_witness:
  "verify_ticket sample_mac demo_settings (Some (''v1.console.9.n.'' @ [char_of (233 :: nat)])) ''console'' 0 = Inl TypeError"
  by (rule ticket_nonascii_signature_raises [where s = "''console''" and x = "''9''" and n = "''n''" and sg = "[char_of (233 :: nat)]"])
     (simp_all add: ticket_version_def is_ascii_def char_of_eq_iff)

end
