(* ===== verification/FleetCommands.thy ===== *)
theory FleetCommands
  imports FleetPrelude
begin

text \<open>
  Robot commands: the \<open>robot_commands\<close> table (\<open>models.RobotCommand\<close>), the state machine and the
  three status writers. \<open>CommandService.create_command\<close> and \<open>update_status\<close>
  (\<open>services/command_service.py\<close>), \<open>CommandRepository.get_next_pending\<close> and \<open>try_dispatch\<close>
  (\<open>repositories/command_repo.py\<close>), \<open>_claim_pending_commands\<close> (\<open>routes/commands.py\<close>) and
  \<open>scan_for_timeouts\<close> (\<open>worker.py\<close>) are each one definition over the table and the list of
  messages handed to \<open>manager.broadcast\<close>. A handler that awaits between a read and a write is
  a step function over an explicit program counter, so that other writers can run in between;
  the handler itself is the composition of its steps.
\<close>

section \<open>The table\<close>

record robot_command =
  rc_id :: string
  rc_robot_id :: int
  rc_command_type :: string
  rc_payload :: "json_obj option"
  rc_status :: string
  rc_idempotency_key :: "string option"
  rc_timeout_seconds :: "int option"
  rc_retry_count :: int
  rc_max_retries :: int
  rc_created_at :: "instant option"
  rc_dispatched_at :: "instant option"
  rc_acknowledged_at :: "instant option"
  rc_started_at :: "instant option"
  rc_completed_at :: "instant option"
  rc_expires_at :: "instant option"
  rc_error_code :: "string option"
  rc_error_message :: "string option"
  rc_result :: "json_obj option"

record command_create =
  cc_command_type :: string
  cc_payload :: "json_obj option"
  cc_timeout_seconds :: "int option"
  cc_idempotency_key :: "string option"

record command_status_update =
  su_status :: string
  su_error_code :: "string option"
  su_error_message :: "string option"
  su_result :: "json_obj option"

type_synonym message = "string \<times> json_obj"

record cmd_db =
  commands :: "robot_command list"
  outbox :: "message list"

abbreviation telemetry_stream :: string where
  "telemetry_stream \<equiv> ''telemetry_stream''"

abbreviation event_stream :: string where
  "event_stream \<equiv> ''event_stream''"

definition publish :: "string \<Rightarrow> json_obj \<Rightarrow> cmd_db \<Rightarrow> cmd_db" where
  "publish stream m db = db\<lparr>outbox := outbox db @ [(stream, m)]\<rparr>"

lemma commands_publish [simp]: "commands (publish s m db) = commands db"
  by (simp add: publish_def)

section \<open>Statements on the table\<close>

text \<open>Column widths (\<open>String(n)\<close>, 32-bit \<open>Integer\<close>); a value that does not fit is refused.\<close>

definition int4 :: "int \<Rightarrow> bool" where
  "int4 i = (- 2147483648 \<le> i \<and> i \<le> 2147483647)"

definition fits :: "nat \<Rightarrow> string option \<Rightarrow> bool" where
  "fits n s = (case s of None \<Rightarrow> True | Some t \<Rightarrow> length t \<le> n)"

definition command_columns_ok :: "robot_command \<Rightarrow> bool" where
  "command_columns_ok r \<longleftrightarrow>
     length (rc_id r) \<le> 36 \<and> int4 (rc_robot_id r) \<and> length (rc_command_type r) \<le> 64 \<and>
     length (rc_status r) \<le> 32 \<and> fits 128 (rc_idempotency_key r) \<and>
     (case rc_timeout_seconds r of None \<Rightarrow> True | Some n \<Rightarrow> int4 n) \<and>
     fits 64 (rc_error_code r) \<and> fits 255 (rc_error_message r)"

text \<open>The primary key and \<open>uix_robot_id_idempotency_key\<close>, in which \<open>NULL\<close> keys are distinct.\<close>

definition command_conflict :: "robot_command \<Rightarrow> robot_command \<Rightarrow> bool" where
  "command_conflict r s \<longleftrightarrow>
     rc_id r = rc_id s \<or>
     (rc_robot_id r = rc_robot_id s \<and> rc_idempotency_key r \<noteq> None \<and>
      rc_idempotency_key r = rc_idempotency_key s)"

definition insert_command :: "robot_command \<Rightarrow> robot_command list \<Rightarrow> robot_command list result" where
  "insert_command r t =
     (if \<not> command_columns_ok r then Inl DataError
      else if list_ex (command_conflict r) t then Inl IntegrityError
      else Inr (t @ [r]))"

definition exec_update ::
  "(robot_command \<Rightarrow> bool) \<Rightarrow> (robot_command \<Rightarrow> robot_command) \<Rightarrow> robot_command list
   \<Rightarrow> (robot_command list \<times> nat) result" where
  "exec_update p f t =
     (if list_ex (\<lambda>r. p r \<and> \<not> command_columns_ok (f r)) t then Inl DataError
      else Inr (update_where p f t, rowcount p t))"

definition find_command :: "string \<Rightarrow> robot_command list \<Rightarrow> robot_command option" where
  "find_command cid t = List.find (\<lambda>r. rc_id r = cid) t"

section \<open>The state machine\<close>

definition TERMINAL_STATES :: "string list" where
  "TERMINAL_STATES = [''COMPLETED'', ''FAILED'', ''TIMEOUT'', ''CANCELLED'']"

definition VALID_TRANSITIONS :: "string \<Rightarrow> string list" where
  "VALID_TRANSITIONS s =
     (if s = ''PENDING'' then [''DISPATCHED'', ''CANCELLED'', ''TIMEOUT'']
      else if s = ''DISPATCHED'' then [''ACKNOWLEDGED'', ''FAILED'', ''CANCELLED'', ''TIMEOUT'']
      else if s = ''ACKNOWLEDGED'' then [''EXECUTING'', ''FAILED'', ''TIMEOUT'', ''COMPLETED'']
      else if s = ''EXECUTING'' then [''COMPLETED'', ''FAILED'', ''TIMEOUT'']
      else [])"

abbreviation terminal :: "string \<Rightarrow> bool" where
  "terminal s \<equiv> s \<in> set TERMINAL_STATES"

abbreviation valid_transition :: "string \<Rightarrow> string \<Rightarrow> bool" where
  "valid_transition s s' \<equiv> s' \<in> set (VALID_TRANSITIONS s)"

section \<open>CommandService\<close>

definition to_dict :: "robot_command \<Rightarrow> json_obj" where
  "to_dict r =
     [(''command_id'', JStr (rc_id r)),
      (''robot_id'', JNum (of_int (rc_robot_id r))),
      (''command_type'', JStr (rc_command_type r)),
      (''payload'', opt_json JObj (rc_payload r)),
      (''status'', JStr (rc_status r)),
      (''idempotency_key'', opt_json JStr (rc_idempotency_key r)),
      (''timeout_seconds'', opt_json (\<lambda>n. JNum (of_int n)) (rc_timeout_seconds r)),
      (''expires_at'', opt_json (\<lambda>t. JStr (isoformat t)) (rc_expires_at r)),
      (''created_at'', opt_json (\<lambda>t. JStr (isoformat t)) (rc_created_at r)),
      (''error_code'', opt_json JStr (rc_error_code r)),
      (''error_message'', opt_json JStr (rc_error_message r)),
      (''result'', opt_json JObj (rc_result r))]"

text \<open>\<open>datetime\<close> values end with the year 9999; going past it raises \<open>OverflowError\<close>.\<close>

definition add_seconds :: "instant \<Rightarrow> int \<Rightarrow> instant result" where
  "add_seconds now n =
     (let t = now + seconds n
      in if - 62135596800000000 \<le> t \<and> t \<le> 253402300799999999 then Inr t else Inl OverflowError)"

text \<open>\<open>if command.timeout_seconds:\<close> is false for \<open>None\<close> and for zero.\<close>

definition expires_at_of :: "instant \<Rightarrow> int option \<Rightarrow> instant option result" where
  "expires_at_of now timeout =
     (case timeout of
        None \<Rightarrow> Inr None
      | Some n \<Rightarrow> if n = 0 then Inr None
                  else (case add_seconds now n of Inl e \<Rightarrow> Inl e | Inr t \<Rightarrow> Inr (Some t)))"

definition new_command :: "string \<Rightarrow> instant \<Rightarrow> int \<Rightarrow> command_create \<Rightarrow> instant option \<Rightarrow> robot_command" where
  "new_command cmd_id now robot_id command expires =
     \<lparr>rc_id = cmd_id, rc_robot_id = robot_id, rc_command_type = cc_command_type command,
      rc_payload = cc_payload command, rc_status = ''PENDING'',
      rc_idempotency_key = cc_idempotency_key command,
      rc_timeout_seconds = cc_timeout_seconds command, rc_retry_count = 0, rc_max_retries = 0,
      rc_created_at = Some now, rc_dispatched_at = None, rc_acknowledged_at = None,
      rc_started_at = None, rc_completed_at = None, rc_expires_at = expires,
      rc_error_code = None, rc_error_message = None, rc_result = None\<rparr>"

text \<open>
  \<open>create_command\<close> with the identifier \<open>uuid.uuid4()\<close> produced and the clock reading as
  arguments. On an integrity error the row of the same robot and key is returned.
\<close>

definition create_command ::
  "(robot_command list \<Rightarrow> robot_command list) \<Rightarrow> string \<Rightarrow> instant \<Rightarrow> int \<Rightarrow> command_create
   \<Rightarrow> cmd_db \<Rightarrow> json_obj result \<times> cmd_db" where
  "create_command scan cmd_id now robot_id command db =
     (case expires_at_of now (cc_timeout_seconds command) of
        Inl e \<Rightarrow> (Inl e, db)
      | Inr expires \<Rightarrow>
          (let new_cmd = new_command cmd_id now robot_id command expires
           in case insert_command new_cmd (commands db) of
                Inr t \<Rightarrow>
                  (let payload = to_dict new_cmd;
                       msg = dict_set ''timestamp'' (JStr (iso_z now))
                               (dict_set ''type'' (JStr ''COMMAND_CREATED'') payload)
                   in (Inr payload, publish event_stream msg (db\<lparr>commands := t\<rparr>)))
              | Inl e \<Rightarrow>
                  if e = IntegrityError then
                    (case List.find (\<lambda>r. rc_robot_id r = robot_id \<and>
                                    rc_idempotency_key r = cc_idempotency_key command)
                            (scan (commands db)) of
                       None \<Rightarrow> (Inl (HTTPException 500 ''Database conflict handling failed''), db)
                     | Some existing \<Rightarrow> (Inr (to_dict existing), db))
                  else (Inl e, db)))"

text \<open>The columns \<open>_transition_values\<close> writes for a target state, applied to a row.\<close>

definition transition_values ::
  "string \<Rightarrow> command_status_update \<Rightarrow> instant \<Rightarrow> robot_command \<Rightarrow> robot_command" where
  "transition_values new_status upd now r =
     (let r1 = r\<lparr>rc_status := new_status\<rparr>
      in if new_status = ''DISPATCHED'' then r1\<lparr>rc_dispatched_at := Some now\<rparr>
         else if new_status = ''ACKNOWLEDGED'' then r1\<lparr>rc_acknowledged_at := Some now\<rparr>
         else if new_status = ''EXECUTING'' then r1\<lparr>rc_started_at := Some now\<rparr>
         else if new_status = ''COMPLETED'' then
           r1\<lparr>rc_completed_at := Some now, rc_result := su_result upd\<rparr>
         else if terminal new_status then
           (let r2 = r1\<lparr>rc_completed_at := Some now, rc_error_code := su_error_code upd,
                        rc_error_message := su_error_message upd\<rparr>
            in case su_result upd of
                 None \<Rightarrow> r2
               | Some d \<Rightarrow> if d = [] then r2 else r2\<lparr>rc_result := Some d\<rparr>)
         else r1)"

datatype update_pc =
    UStart
  | UChecked string
  | UWritten nat
  | UDone "json_obj result"

definition not_found :: "json_obj result" where
  "not_found = Inl (HTTPException 404 ''Command not found'')"

text \<open>
  \<open>update_status\<close>, one step per statement: read and validate; the conditional \<open>UPDATE\<close> with
  its commit; read back, then report, broadcast or raise.
\<close>

fun update_step ::
  "string \<Rightarrow> command_status_update \<Rightarrow> instant \<Rightarrow> update_pc \<Rightarrow> cmd_db \<Rightarrow> update_pc \<times> cmd_db" where
  "update_step cid upd now UStart db =
     (case find_command cid (commands db) of
        None \<Rightarrow> (UDone not_found, db)
      | Some r \<Rightarrow>
          if rc_status r = su_status upd then (UDone (Inr (to_dict r)), db)
          else if terminal (rc_status r) then
            (UDone (Inl (HTTPException 400
               (''Cannot transition from terminal state '' @ rc_status r))), db)
          else if \<not> valid_transition (rc_status r) (su_status upd) then
            (UDone (Inl (HTTPException 400
               (''Invalid transition from '' @ rc_status r @ '' to '' @ su_status upd))), db)
          else (UChecked (rc_status r), db))"
| "update_step cid upd now (UChecked current_status) db =
     (case exec_update (\<lambda>r. rc_id r = cid \<and> rc_status r = current_status)
             (transition_values (su_status upd) upd now) (commands db) of
        Inl e \<Rightarrow> (UDone (Inl e), db)
      | Inr (t, n) \<Rightarrow> (UWritten n, db\<lparr>commands := t\<rparr>))"
| "update_step cid upd now (UWritten n) db =
     (case find_command cid (commands db) of
        None \<Rightarrow> (UDone not_found, db)
      | Some r \<Rightarrow>
          if n = 0 then
            (if rc_status r = su_status upd then (UDone (Inr (to_dict r)), db)
             else (UDone (Inl (HTTPException 409
                    (''Command was concurrently updated to '' @ rc_status r @
                     ''; transition to '' @ su_status upd @ '' no longer applies''))), db))
          else
            (let payload = to_dict r;
                 msg = dict_set ''timestamp'' (JStr (iso_z now))
                         (dict_set ''type'' (JStr ''COMMAND_UPDATE'') payload)
             in (UDone (Inr payload), publish event_stream msg db)))"
| "update_step cid upd now (UDone r) db = (UDone r, db)"

definition update_status ::
  "string \<Rightarrow> command_status_update \<Rightarrow> instant \<Rightarrow> cmd_db \<Rightarrow> json_obj result \<times> cmd_db" where
  "update_status cid upd now db =
     (let (pc1, db1) = update_step cid upd now UStart db;
          (pc2, db2) = update_step cid upd now pc1 db1;
          (pc3, db3) = update_step cid upd now pc2 db2
      in case pc3 of UDone r \<Rightarrow> (r, db3) | _ \<Rightarrow> (Inl OtherError, db3))"

section \<open>CommandRepository and the claim loop\<close>

text \<open>\<open>ORDER BY created_at ASC\<close>, \<open>NULL\<close> last; among equal keys the scan order decides.\<close>

definition created_before :: "robot_command \<Rightarrow> robot_command \<Rightarrow> bool" where
  "created_before r s =
     (case (rc_created_at r, rc_created_at s) of
        (Some a, Some b) \<Rightarrow> a < b
      | (Some a, None) \<Rightarrow> True
      | (None, _) \<Rightarrow> False)"

fun oldest :: "robot_command list \<Rightarrow> robot_command option" where
  "oldest [] = None"
| "oldest (r # rs) =
     (case oldest rs of
        None \<Rightarrow> Some r
      | Some s \<Rightarrow> if created_before s r then Some s else Some r)"

definition pending_for :: "int \<Rightarrow> robot_command \<Rightarrow> bool" where
  "pending_for robot_id r \<longleftrightarrow> rc_robot_id r = robot_id \<and> rc_status r = ''PENDING''"

definition get_next_pending ::
  "(robot_command list \<Rightarrow> robot_command list) \<Rightarrow> int \<Rightarrow> robot_command list \<Rightarrow> robot_command option" where
  "get_next_pending scan robot_id t = oldest (filter (pending_for robot_id) (scan t))"

definition mark_dispatched :: "instant \<Rightarrow> robot_command \<Rightarrow> robot_command" where
  "mark_dispatched now r = r\<lparr>rc_status := ''DISPATCHED'', rc_dispatched_at := Some now\<rparr>"

definition try_dispatch :: "string \<Rightarrow> instant \<Rightarrow> robot_command list \<Rightarrow> bool \<times> robot_command list" where
  "try_dispatch cid now t =
     (let p = (\<lambda>r. rc_id r = cid \<and> rc_status r = ''PENDING'')
      in if rowcount p t > 0 then (True, update_where p (mark_dispatched now) t) else (False, t))"

definition claimed_entry :: "robot_command \<Rightarrow> json_obj" where
  "claimed_entry r =
     [(''id'', JStr (rc_id r)), (''command_type'', JStr (rc_command_type r)),
      (''payload'', opt_json JObj (rc_payload r))]"

definition dispatch_message :: "int \<Rightarrow> instant \<Rightarrow> robot_command \<Rightarrow> json_obj" where
  "dispatch_message robot_id now r =
     [(''type'', JStr ''COMMAND_UPDATE''), (''robot_id'', JNum (of_int robot_id)),
      (''command_type'', JStr (rc_command_type r)), (''status'', JStr ''DISPATCHED''),
      (''command_id'', JStr (rc_id r)), (''timestamp'', JStr (iso_z now))]"

text \<open>
  \<open>_claim_pending_commands\<close>: the rows claimed so far are the loop's accumulator, and
  \<open>clock i\<close> is the time read in the iteration that starts with \<open>i\<close> claims. The message goes
  out without a stream argument, so it takes the default stream.
\<close>

datatype claim_pc = CSelect | CTry robot_command | CDone

fun claim_step ::
  "(robot_command list \<Rightarrow> robot_command list) \<Rightarrow> int \<Rightarrow> instant \<Rightarrow> claim_pc \<Rightarrow> robot_command list
   \<Rightarrow> cmd_db \<Rightarrow> claim_pc \<times> robot_command list \<times> cmd_db" where
  "claim_step scan robot_id now CSelect claimed db =
     (case get_next_pending scan robot_id (commands db) of
        None \<Rightarrow> (CDone, claimed, db)
      | Some r \<Rightarrow> (CTry r, claimed, db))"
| "claim_step scan robot_id now (CTry r) claimed db =
     (let (won, t) = try_dispatch (rc_id r) now (commands db)
      in if \<not> won then (CSelect, claimed, db)
         else (CSelect, claimed @ [r],
               publish telemetry_stream (dispatch_message robot_id now r) (db\<lparr>commands := t\<rparr>)))"
| "claim_step scan robot_id now CDone claimed db = (CDone, claimed, db)"

partial_function (option) claim_loop ::
  "(robot_command list \<Rightarrow> robot_command list) \<Rightarrow> int \<Rightarrow> (nat \<Rightarrow> instant) \<Rightarrow> claim_pc
   \<Rightarrow> robot_command list \<Rightarrow> cmd_db \<Rightarrow> (robot_command list \<times> cmd_db) option" where
  "claim_loop scan robot_id clock pc claimed db =
     (if pc = CDone then Some (claimed, db)
      else (case claim_step scan robot_id (clock (length claimed)) pc claimed db of
              (pc', claimed', db') \<Rightarrow> claim_loop scan robot_id clock pc' claimed' db'))"

definition claim_pending_commands ::
  "(robot_command list \<Rightarrow> robot_command list) \<Rightarrow> int \<Rightarrow> (nat \<Rightarrow> instant) \<Rightarrow> cmd_db
   \<Rightarrow> (json_obj list \<times> cmd_db) option" where
  "claim_pending_commands scan robot_id clock db =
     map_option (\<lambda>(claimed, db'). (map claimed_entry claimed, db'))
       (claim_loop scan robot_id clock CSelect [] db)"

section \<open>The timeout scanner\<close>

definition expired :: "instant \<Rightarrow> robot_command \<Rightarrow> bool" where
  "expired now r \<longleftrightarrow>
     (case rc_expires_at r of None \<Rightarrow> False | Some t \<Rightarrow> t < now) \<and> \<not> terminal (rc_status r)"

definition timeout_text :: "robot_command \<Rightarrow> string" where
  "timeout_text cmd =
     ''Command did not complete within '' @
     (case rc_timeout_seconds cmd of None \<Rightarrow> ''None'' | Some n \<Rightarrow> int_str n) @ '' seconds''"

definition timeout_values :: "instant \<Rightarrow> robot_command \<Rightarrow> robot_command \<Rightarrow> robot_command" where
  "timeout_values dbnow cmd r =
     r\<lparr>rc_status := ''TIMEOUT'', rc_completed_at := Some dbnow,
       rc_error_code := Some ''TIMEOUT'', rc_error_message := Some (timeout_text cmd)\<rparr>"

text \<open>The loop of guarded updates, run in the scanner's one transaction.\<close>

fun timeout_updates ::
  "instant \<Rightarrow> robot_command list \<Rightarrow> robot_command list \<Rightarrow> robot_command list
   \<Rightarrow> (robot_command list \<times> robot_command list) result" where
  "timeout_updates dbnow [] timed_out t = Inr (timed_out, t)"
| "timeout_updates dbnow (cmd # cmds) timed_out t =
     (case exec_update (\<lambda>r. rc_id r = rc_id cmd \<and> \<not> terminal (rc_status r))
             (timeout_values dbnow cmd) t of
        Inl e \<Rightarrow> Inl e
      | Inr (t', n) \<Rightarrow>
          if n = 0 then timeout_updates dbnow cmds timed_out t'
          else timeout_updates dbnow cmds (timed_out @ [cmd]) t')"

definition timeout_message :: "instant \<Rightarrow> robot_command \<Rightarrow> json_obj" where
  "timeout_message now cmd =
     [(''type'', JStr ''COMMAND_UPDATE''), (''robot_id'', JNum (of_int (rc_robot_id cmd))),
      (''command_type'', JStr (rc_command_type cmd)), (''status'', JStr ''TIMEOUT''),
      (''command_id'', JStr (rc_id cmd)), (''timestamp'', JStr (iso_z now))]"

datatype scan_pc =
    SStart
  | SSelected "robot_command list"
  | SAnnounce "robot_command list"
  | SDone "unit result"

text \<open>
  \<open>scan_for_timeouts\<close>: select; the guarded updates with their commit; one message per
  command that timed out. \<open>dbnow\<close> is the database's \<open>now()\<close> of the transaction.
\<close>

fun scan_step ::
  "(robot_command list \<Rightarrow> robot_command list) \<Rightarrow> instant \<Rightarrow> instant \<Rightarrow> scan_pc \<Rightarrow> cmd_db
   \<Rightarrow> scan_pc \<times> cmd_db" where
  "scan_step scan now dbnow SStart db =
     (SSelected (filter (expired now) (scan (commands db))), db)"
| "scan_step scan now dbnow (SSelected cmds) db =
     (case timeout_updates dbnow cmds [] (commands db) of
        Inl e \<Rightarrow> (SDone (Inl e), db)
      | Inr (timed_out, t) \<Rightarrow>
          if timed_out = [] then (SDone (Inr ()), db)
          else (SAnnounce timed_out, db\<lparr>commands := t\<rparr>))"
| "scan_step scan now dbnow (SAnnounce cmds) db =
     (case cmds of
        [] \<Rightarrow> (SDone (Inr ()), db)
      | cmd # rest \<Rightarrow> (SAnnounce rest, publish event_stream (timeout_message now cmd) db))"
| "scan_step scan now dbnow (SDone r) db = (SDone r, db)"

definition scan_for_timeouts ::
  "(robot_command list \<Rightarrow> robot_command list) \<Rightarrow> instant \<Rightarrow> instant \<Rightarrow> cmd_db
   \<Rightarrow> unit result \<times> cmd_db" where
  "scan_for_timeouts scan now dbnow db =
     (case timeout_updates dbnow (filter (expired now) (scan (commands db))) [] (commands db) of
        Inl e \<Rightarrow> (Inl e, db)
      | Inr (timed_out, t) \<Rightarrow>
          (Inr (), fold (\<lambda>cmd. publish event_stream (timeout_message now cmd)) timed_out
                     (if timed_out = [] then db else db\<lparr>commands := t\<rparr>)))"

section \<open>How rows evolve\<close>

text \<open>The columns no writer touches, and one legal change of a row.\<close>

definition fixed_columns ::
  "robot_command \<Rightarrow> string \<times> int \<times> string option \<times> string \<times> json_obj option \<times> int option
     \<times> instant option \<times> instant option" where
  "fixed_columns r =
     (rc_id r, rc_robot_id r, rc_idempotency_key r, rc_command_type r, rc_payload r,
      rc_timeout_seconds r, rc_created_at r, rc_expires_at r)"

definition row_step :: "robot_command \<Rightarrow> robot_command \<Rightarrow> bool" where
  "row_step r r' \<longleftrightarrow>
     fixed_columns r' = fixed_columns r \<and> valid_transition (rc_status r) (rc_status r') \<and>
     (command_columns_ok r \<longrightarrow> command_columns_ok r')"

abbreviation row_evolves :: "robot_command \<Rightarrow> robot_command \<Rightarrow> bool" where
  "row_evolves \<equiv> row_step\<^sup>*\<^sup>*"

definition table_evolves :: "robot_command list \<Rightarrow> robot_command list \<Rightarrow> bool" where
  "table_evolves t t' \<longleftrightarrow>
     length t \<le> length t' \<and> (\<forall>i < length t. row_evolves (t ! i) (t' ! i))"

definition status_rank :: "string \<Rightarrow> nat" where
  "status_rank s =
     (if s = ''PENDING'' then 0 else if s = ''DISPATCHED'' then 1
      else if s = ''ACKNOWLEDGED'' then 2 else if s = ''EXECUTING'' then 3 else 4)"

lemma terminal_iff:
  "terminal s \<longleftrightarrow> s = ''COMPLETED'' \<or> s = ''FAILED'' \<or> s = ''TIMEOUT'' \<or> s = ''CANCELLED''"
  by (simp add: TERMINAL_STATES_def)

lemma terminal_no_successor: "terminal s \<Longrightarrow> \<not> valid_transition s s'"
  by (auto simp: terminal_iff VALID_TRANSITIONS_def)

lemma valid_transition_rank: "valid_transition s s' \<Longrightarrow> status_rank s < status_rank s'"
  by (auto simp: VALID_TRANSITIONS_def status_rank_def split: if_splits)

lemma nonterminal_timeout: "valid_transition s s' \<Longrightarrow> valid_transition s ''TIMEOUT''"
  by (auto simp: VALID_TRANSITIONS_def split: if_splits)

lemma valid_transition_new_status:
  "valid_transition s s' \<Longrightarrow> s' \<noteq> ''PENDING'' \<and> s' \<noteq> s"
  by (auto simp: VALID_TRANSITIONS_def split: if_splits)

lemma row_step_terminal: "terminal (rc_status r) \<Longrightarrow> \<not> row_step r r'"
  by (auto simp: row_step_def dest: terminal_no_successor)

lemma row_evolves_terminal: "row_evolves r r' \<Longrightarrow> terminal (rc_status r) \<Longrightarrow> r' = r"
  by (induction rule: converse_rtranclp_induct) (auto dest: row_step_terminal)

lemma row_evolves_fixed: "row_evolves r r' \<Longrightarrow> fixed_columns r' = fixed_columns r"
  by (induction rule: rtranclp_induct) (auto simp: row_step_def)

lemma row_evolves_rank:
  "row_evolves r r' \<Longrightarrow> r' = r \<or> status_rank (rc_status r) < status_rank (rc_status r')"
  by (induction rule: rtranclp_induct) (auto simp: row_step_def dest: valid_transition_rank)

lemma row_evolves_not_pending:
  "row_evolves r r' \<Longrightarrow> rc_status r \<noteq> ''PENDING'' \<Longrightarrow> rc_status r' \<noteq> ''PENDING''"
  using row_evolves_rank [of r r'] by (auto simp: status_rank_def)

lemma table_evolves_refl [simp, intro]: "table_evolves t t"
  by (simp add: table_evolves_def)

lemma table_evolves_trans [trans]:
  "table_evolves t t' \<Longrightarrow> table_evolves t' t'' \<Longrightarrow> table_evolves t t''"
  unfolding table_evolves_def by (meson less_le_trans order_trans rtranclp_trans)

lemma table_evolves_append [simp, intro]: "table_evolves t (t @ u)"
  by (simp add: table_evolves_def nth_append)

lemma table_evolves_update:
  "(\<And>r. r \<in> set t \<Longrightarrow> p r \<Longrightarrow> row_step r (f r)) \<Longrightarrow> table_evolves t (update_where p f t)"
  by (auto simp: table_evolves_def table_simps)

lemma table_evolves_nth:
  "table_evolves t t' \<Longrightarrow> i < length t \<Longrightarrow> i < length t' \<and> row_evolves (t ! i) (t' ! i)"
  by (auto simp: table_evolves_def)

lemma table_evolves_mem:
  "table_evolves t t' \<Longrightarrow> r \<in> set t \<Longrightarrow> \<exists>r' \<in> set t'. row_evolves r r'"
  by (metis in_set_conv_nth table_evolves_nth)

section \<open>The table's invariant\<close>

definition known_status :: "string \<Rightarrow> bool" where
  "known_status s \<longleftrightarrow> terminal s \<or> VALID_TRANSITIONS s \<noteq> []"

definition row_ok :: "robot_command \<Rightarrow> bool" where
  "row_ok r \<longleftrightarrow> command_columns_ok r \<and> known_status (rc_status r)"

definition commands_wf :: "robot_command list \<Rightarrow> bool" where
  "commands_wf t \<longleftrightarrow> sorted_wrt (\<lambda>r s. \<not> command_conflict r s) t \<and> list_all row_ok t"

lemma valid_transition_known: "valid_transition s s' \<Longrightarrow> known_status s'"
  by (auto simp: known_status_def VALID_TRANSITIONS_def terminal_iff split: if_splits)

lemma known_nonterminal_timeout:
  "known_status s \<Longrightarrow> \<not> terminal s \<Longrightarrow> valid_transition s ''TIMEOUT''"
  by (auto simp: known_status_def VALID_TRANSITIONS_def terminal_iff split: if_splits)

lemma row_evolves_ok: "row_evolves r r' \<Longrightarrow> row_ok r \<Longrightarrow> row_ok r'"
  by (induction rule: rtranclp_induct)
    (auto simp: row_step_def row_ok_def dest: valid_transition_known)

lemma command_conflict_sym: "command_conflict r s \<longleftrightarrow> command_conflict s r"
  unfolding command_conflict_def by metis

lemma command_conflict_fixed:
  "fixed_columns r' = fixed_columns r \<Longrightarrow> fixed_columns s' = fixed_columns s \<Longrightarrow>
   command_conflict r' s' = command_conflict r s"
  by (auto simp: command_conflict_def fixed_columns_def)

lemma commands_wf_Nil [simp]: "commands_wf []"
  by (simp add: commands_wf_def)

lemma commands_wf_nth_conflict:
  "commands_wf t \<Longrightarrow> i < length t \<Longrightarrow> j < length t \<Longrightarrow> command_conflict (t ! i) (t ! j) \<Longrightarrow> i = j"
  unfolding commands_wf_def sorted_wrt_iff_nth_less
  by (metis command_conflict_sym linorder_neqE_nat)

lemma commands_wf_unique:
  assumes "commands_wf t" "r \<in> set t" "s \<in> set t" "command_conflict r s"
  shows "r = s"
  using assms by (auto simp: in_set_conv_nth dest: commands_wf_nth_conflict)

lemma commands_wf_id_unique:
  "commands_wf t \<Longrightarrow> r \<in> set t \<Longrightarrow> s \<in> set t \<Longrightarrow> rc_id r = rc_id s \<Longrightarrow> r = s"
  by (erule commands_wf_unique) (auto simp: command_conflict_def)

lemma commands_wf_distinct_ids: "commands_wf t \<Longrightarrow> distinct (map rc_id t)"
  by (auto simp: distinct_conv_nth command_conflict_def dest: commands_wf_nth_conflict)

lemma commands_wf_distinct: "commands_wf t \<Longrightarrow> distinct t"
  using commands_wf_distinct_ids distinct_map by blast

lemma commands_wf_evolves_same_length:
  assumes ev: "table_evolves t t'" and len: "length t' = length t" and wf: "commands_wf t"
  shows "commands_wf t'"
proof -
  have fx: "fixed_columns (t' ! i) = fixed_columns (t ! i)" if "i < length t" for i
    using ev that by (auto dest!: table_evolves_nth row_evolves_fixed)
  have "\<not> command_conflict (t' ! i) (t' ! j)" if "i < j" "j < length t" for i j
  proof -
    have "\<not> command_conflict (t ! i) (t ! j)"
      using wf that by (simp add: commands_wf_def sorted_wrt_iff_nth_less)
    moreover have "command_conflict (t' ! i) (t' ! j) = command_conflict (t ! i) (t ! j)"
      by (rule command_conflict_fixed) (use fx that in auto)
    ultimately show ?thesis by simp
  qed
  then have "sorted_wrt (\<lambda>r s. \<not> command_conflict r s) t'"
    using len by (simp add: sorted_wrt_iff_nth_less)
  moreover have "list_all row_ok t'"
    using wf len ev by (auto simp: commands_wf_def list_all_length table_evolves_def
        intro: row_evolves_ok)
  ultimately show ?thesis by (simp add: commands_wf_def)
qed

lemma insert_command_wf:
  "insert_command r t = Inr t' \<Longrightarrow> known_status (rc_status r) \<Longrightarrow> commands_wf t \<Longrightarrow> commands_wf t'"
proof -
  assume ins: "insert_command r t = Inr t'" and kn: "known_status (rc_status r)"
    and wf: "commands_wf t"
  then have t': "t' = t @ [r]" and ok: "command_columns_ok r"
    and no: "\<forall>s \<in> set t. \<not> command_conflict r s"
    by (auto simp: insert_command_def list_ex_iff split: if_splits)
  from no have "\<forall>s \<in> set t. \<not> command_conflict s r"
    using command_conflict_sym by blast
  with wf t' ok kn show ?thesis by (simp add: commands_wf_def sorted_wrt_append row_ok_def)
qed

lemma find_command_Some: "find_command cid t = Some r \<Longrightarrow> r \<in> set t \<and> rc_id r = cid"
  by (auto simp: find_command_def dest: find_Some_mem)

lemma find_command_None: "find_command cid t = None \<longleftrightarrow> cid \<notin> rc_id ` set t"
  by (auto simp: find_command_def find_None_iff)

lemma find_command_wf:
  "commands_wf t \<Longrightarrow> r \<in> set t \<Longrightarrow> find_command (rc_id r) t = Some r"
proof -
  assume wf: "commands_wf t" and r: "r \<in> set t"
  obtain s where s: "find_command (rc_id r) t = Some s"
    using r find_command_None [of "rc_id r" t] by (cases "find_command (rc_id r) t") auto
  then have "s = r"
    using wf r by (auto dest!: find_command_Some intro: commands_wf_id_unique)
  with s show ?thesis by simp
qed

section \<open>Every writer moves rows along the state machine\<close>

lemma exec_update_evolves:
  assumes "exec_update p f t = Inr (t', n)"
    and "\<And>r. r \<in> set t \<Longrightarrow> p r \<Longrightarrow> fixed_columns (f r) = fixed_columns r"
    and "\<And>r. r \<in> set t \<Longrightarrow> p r \<Longrightarrow> valid_transition (rc_status r) (rc_status (f r))"
  shows "table_evolves t t' \<and> length t' = length t"
proof -
  from assms(1) have t': "t' = update_where p f t"
    and ok: "\<forall>r \<in> set t. p r \<longrightarrow> command_columns_ok (f r)"
    by (auto simp: exec_update_def list_ex_iff split: if_splits)
  have "table_evolves t (update_where p f t)"
    using assms(2,3) ok by (intro table_evolves_update) (auto simp: row_step_def)
  with t' show ?thesis by (simp add: table_simps)
qed

lemma transition_values_fixed [simp]: "fixed_columns (transition_values s u now r) = fixed_columns r"
  by (simp add: fixed_columns_def transition_values_def Let_def split: option.split)

lemma transition_values_status [simp]: "rc_status (transition_values s u now r) = s"
  by (simp add: transition_values_def Let_def split: option.split)

lemma timeout_values_fixed [simp]: "fixed_columns (timeout_values dbnow cmd r) = fixed_columns r"
  by (simp add: fixed_columns_def timeout_values_def)

lemma timeout_values_status [simp]: "rc_status (timeout_values dbnow cmd r) = ''TIMEOUT''"
  by (simp add: timeout_values_def)

text \<open>What the first step of an update has established when it hands on the status it read.\<close>

definition update_pc_ok :: "command_status_update \<Rightarrow> update_pc \<Rightarrow> bool" where
  "update_pc_ok upd pc =
     (case pc of UChecked cur \<Rightarrow> valid_transition cur (su_status upd) | _ \<Rightarrow> True)"

lemma update_step_pc_ok: "update_pc_ok upd (fst (update_step cid upd now pc db))"
  by (cases pc) (auto simp: update_pc_ok_def Let_def split: option.split sum.split)

lemma update_step_evolves:
  assumes "update_pc_ok upd pc"
  shows "table_evolves (commands db) (commands (snd (update_step cid upd now pc db))) \<and>
    length (commands (snd (update_step cid upd now pc db))) = length (commands db)"
proof (cases pc)
  case (UChecked cur)
  show ?thesis
  proof (cases "exec_update (\<lambda>r. rc_id r = cid \<and> rc_status r = cur)
                  (transition_values (su_status upd) upd now) (commands db)")
    case (Inl e)
    with UChecked show ?thesis by simp
  next
    case (Inr tn)
    obtain t n where "tn = (t, n)" by (cases tn)
    with Inr UChecked assms show ?thesis
      by (auto simp: update_pc_ok_def dest!: exec_update_evolves)
  qed
qed (auto simp: Let_def split: option.split)

lemma mark_dispatched_row_step: "rc_status r = ''PENDING'' \<Longrightarrow> row_step r (mark_dispatched now r)"
  by (simp add: row_step_def mark_dispatched_def fixed_columns_def VALID_TRANSITIONS_def
      command_columns_ok_def)

lemma try_dispatch_evolves:
  "table_evolves t (snd (try_dispatch cid now t)) \<and> length (snd (try_dispatch cid now t)) = length t"
  by (auto simp: try_dispatch_def Let_def table_simps intro!: table_evolves_update
      mark_dispatched_row_step)

lemma claim_step_commands:
  "claim_step scan rid now pc claimed db = (pc', claimed', db') \<Longrightarrow>
   commands db' = commands db \<or>
   (\<exists>r. pc = CTry r \<and> commands db' = snd (try_dispatch (rc_id r) now (commands db)))"
  by (cases pc) (auto simp: Let_def split: option.splits prod.splits if_splits)

lemma timeout_updates_evolves:
  "timeout_updates dbnow cmds out t = Inr (out', t') \<Longrightarrow> commands_wf t \<Longrightarrow>
   table_evolves t t' \<and> length t' = length t"
proof (induction cmds arbitrary: out t)
  case (Cons cmd cmds)
  let ?p = "\<lambda>r. rc_id r = rc_id cmd \<and> \<not> terminal (rc_status r)"
  from Cons.prems(1) obtain u n where u: "exec_update ?p (timeout_values dbnow cmd) t = Inr (u, n)"
    by (auto split: sum.splits)
  have tu: "table_evolves t u \<and> length u = length t"
  proof (rule exec_update_evolves [OF u])
    fix r assume "r \<in> set t" "?p r"
    then show "valid_transition (rc_status r) (rc_status (timeout_values dbnow cmd r))"
      using Cons.prems(2) by (simp add: commands_wf_def list_all_iff row_ok_def
          known_nonterminal_timeout)
  qed simp
  then have "commands_wf u"
    using Cons.prems(2) commands_wf_evolves_same_length by blast
  then have "table_evolves u t' \<and> length t' = length u"
    using Cons.IH Cons.prems(1) u by (auto split: if_splits)
  with tu show ?case by (auto intro: table_evolves_trans)
qed simp

lemma scan_step_evolves:
  "commands_wf (commands db) \<Longrightarrow>
   table_evolves (commands db) (commands (snd (scan_step scan now dbnow pc db))) \<and>
   length (commands (snd (scan_step scan now dbnow pc db))) = length (commands db)"
  by (cases pc) (auto dest: timeout_updates_evolves split: sum.split list.split)

lemma create_command_commands:
  "commands (snd (create_command scan cid now rid cmd db)) = commands db \<or>
   (\<exists>e t. insert_command (new_command cid now rid cmd e) (commands db) = Inr t \<and>
      commands (snd (create_command scan cid now rid cmd db)) = t)"
  by (auto simp: create_command_def Let_def split: sum.split option.split)

lemma new_command_pending [simp]: "rc_status (new_command cid now rid cmd e) = ''PENDING''"
  by (simp add: new_command_def)

lemma known_pending [simp]: "known_status ''PENDING''"
  by (simp add: known_status_def VALID_TRANSITIONS_def)

lemma insert_command_evolves: "insert_command r t = Inr t' \<Longrightarrow> table_evolves t t'"
  by (auto simp: insert_command_def split: if_splits)

text \<open>
  The contract of a writer of the \<open>robot_commands\<close> table, and what any sequence of writes by
  writers that keep it guarantees.
\<close>

locale status_writer =
  fixes writes :: "robot_command list \<Rightarrow> robot_command list \<Rightarrow> bool"
  assumes writes_evolves: "commands_wf t \<Longrightarrow> writes t t' \<Longrightarrow> table_evolves t t'"
    and writes_wf: "commands_wf t \<Longrightarrow> writes t t' \<Longrightarrow> commands_wf t'"
begin

lemma run_wf: "writes\<^sup>*\<^sup>* t t' \<Longrightarrow> commands_wf t \<Longrightarrow> commands_wf t'"
  by (induction rule: rtranclp_induct) (auto intro: writes_wf)

lemma run_evolves: "writes\<^sup>*\<^sup>* t t' \<Longrightarrow> commands_wf t \<Longrightarrow> table_evolves t t'"
proof (induction rule: rtranclp_induct)
  case (step u v)
  then have "commands_wf u" by (blast intro: run_wf)
  with step have "table_evolves u v" by (blast intro: writes_evolves)
  with step show ?case by (blast intro: table_evolves_trans)
qed simp

lemma run_terminal_frozen:
  assumes "writes\<^sup>*\<^sup>* t t'" "commands_wf t" "i < length t" "terminal (rc_status (t ! i))"
  shows "t' ! i = t ! i"
  using assms run_evolves [OF assms(1,2)] by (auto dest!: table_evolves_nth row_evolves_terminal)

lemma run_fixed:
  assumes "writes\<^sup>*\<^sup>* t t'" "commands_wf t" "i < length t"
  shows "fixed_columns (t' ! i) = fixed_columns (t ! i)"
  using assms run_evolves [OF assms(1,2)] by (auto dest!: table_evolves_nth row_evolves_fixed)

lemma run_rank:
  assumes "writes\<^sup>*\<^sup>* t t'" "commands_wf t" "i < length t"
  shows "t' ! i = t ! i \<or> status_rank (rc_status (t ! i)) < status_rank (rc_status (t' ! i))"
  using assms run_evolves [OF assms(1,2)] by (auto dest!: table_evolves_nth row_evolves_rank)

end

definition create_writes :: "robot_command list \<Rightarrow> robot_command list \<Rightarrow> bool" where
  "create_writes t t' \<longleftrightarrow> (\<exists>scan cid now rid cmd db.
     commands db = t \<and> t' = commands (snd (create_command scan cid now rid cmd db)))"

definition update_writes :: "robot_command list \<Rightarrow> robot_command list \<Rightarrow> bool" where
  "update_writes t t' \<longleftrightarrow> (\<exists>cid upd now pc db.
     update_pc_ok upd pc \<and> commands db = t \<and> t' = commands (snd (update_step cid upd now pc db)))"

definition claim_writes :: "robot_command list \<Rightarrow> robot_command list \<Rightarrow> bool" where
  "claim_writes t t' \<longleftrightarrow> (\<exists>scan rid now pc claimed db.
     commands db = t \<and> t' = commands (snd (snd (claim_step scan rid now pc claimed db))))"

definition scan_writes :: "robot_command list \<Rightarrow> robot_command list \<Rightarrow> bool" where
  "scan_writes t t' \<longleftrightarrow> (\<exists>scan now dbnow pc db.
     commands db = t \<and> t' = commands (snd (scan_step scan now dbnow pc db)))"

lemma create_writes_wf_evolves:
  "commands_wf t \<Longrightarrow> create_writes t t' \<Longrightarrow> table_evolves t t' \<and> commands_wf t'"
proof -
  assume wf: "commands_wf t" and "create_writes t t'"
  then obtain scan cid now rid cmd db where t: "commands db = t"
    and t': "t' = commands (snd (create_command scan cid now rid cmd db))"
    by (auto simp: create_writes_def)
  from create_command_commands [of scan cid now rid cmd db] show ?thesis
  proof
    assume "commands (snd (create_command scan cid now rid cmd db)) = commands db"
    with t t' wf show ?thesis by simp
  next
    assume "\<exists>e u. insert_command (new_command cid now rid cmd e) (commands db) = Inr u \<and>
      commands (snd (create_command scan cid now rid cmd db)) = u"
    then obtain e where "insert_command (new_command cid now rid cmd e) t = Inr t'"
      using t t' by auto
    with wf show ?thesis by (auto intro: insert_command_wf insert_command_evolves)
  qed
qed

lemma claim_writes_evolves:
  "claim_writes t t' \<Longrightarrow> table_evolves t t' \<and> length t' = length t"
proof -
  assume "claim_writes t t'"
  then obtain scan rid now pc claimed db pc' claimed' db' where t: "commands db = t"
    and s: "claim_step scan rid now pc claimed db = (pc', claimed', db')" and "t' = commands db'"
    unfolding claim_writes_def by (metis prod.collapse)
  with claim_step_commands [OF s] show ?thesis
    using try_dispatch_evolves [of t] by auto
qed

interpretation creating: status_writer create_writes
  by unfold_locales (auto dest: create_writes_wf_evolves)

interpretation updating: status_writer update_writes
  by unfold_locales
    (auto simp: update_writes_def dest: update_step_evolves intro: commands_wf_evolves_same_length)

interpretation claiming: status_writer claim_writes
  by unfold_locales (auto dest: claim_writes_evolves intro: commands_wf_evolves_same_length)

interpretation expiring: status_writer scan_writes
  by unfold_locales
    (auto simp: scan_writes_def dest: scan_step_evolves intro: commands_wf_evolves_same_length)

section \<open>The update handler without interference\<close>

definition status_message :: "instant \<Rightarrow> robot_command \<Rightarrow> json_obj" where
  "status_message now r =
     dict_set ''timestamp'' (JStr (iso_z now))
       (dict_set ''type'' (JStr ''COMMAND_UPDATE'') (to_dict r))"

text \<open>The whole of \<open>update_status\<close> as one decision on the stored row.\<close>

definition update_spec ::
  "string \<Rightarrow> command_status_update \<Rightarrow> instant \<Rightarrow> cmd_db \<Rightarrow> json_obj result \<times> cmd_db" where
  "update_spec cid upd now db =
     (case find_command cid (commands db) of
        None \<Rightarrow> (Inl (HTTPException 404 ''Command not found''), db)
      | Some r \<Rightarrow>
          let r' = transition_values (su_status upd) upd now r in
          if rc_status r = su_status upd then (Inr (to_dict r), db)
          else if terminal (rc_status r) then
            (Inl (HTTPException 400 (''Cannot transition from terminal state '' @ rc_status r)), db)
          else if \<not> valid_transition (rc_status r) (su_status upd) then
            (Inl (HTTPException 400
               (''Invalid transition from '' @ rc_status r @ '' to '' @ su_status upd)), db)
          else if \<not> command_columns_ok r' then (Inl DataError, db)
          else (Inr (to_dict r'),
                publish event_stream (status_message now r')
                  (db\<lparr>commands := map (\<lambda>x. if rc_id x = cid then r' else x) (commands db)\<rparr>)))"

lemma find_command_update:
  "(\<And>r. p r \<Longrightarrow> rc_id (f r) = rc_id r) \<Longrightarrow>
   find_command cid (update_where p f t) =
     map_option (\<lambda>r. if p r then f r else r) (find_command cid t)"
  by (induction t) (auto simp: find_command_def update_where_def)

lemma rc_id_fixed: "fixed_columns r = fixed_columns s \<Longrightarrow> rc_id r = rc_id s"
  by (simp add: fixed_columns_def)

lemma rc_id_transition_values [simp]: "rc_id (transition_values s u now r) = rc_id r"
  by (rule rc_id_fixed) simp

text \<open>On a well-formed table the guard \<open>id = r.id AND status = r.status\<close> selects the row \<open>r\<close>.\<close>

lemma cas_selects:
  assumes "commands_wf t" "r \<in> set t"
  shows "x \<in> set t \<Longrightarrow> (rc_id x = rc_id r \<and> rc_status x = rc_status r) \<longleftrightarrow> x = r"
    and "rowcount (\<lambda>x. rc_id x = rc_id r \<and> rc_status x = rc_status r) t = 1"
    and "update_where (\<lambda>x. rc_id x = rc_id r \<and> rc_status x = rc_status r) f t =
         map (\<lambda>x. if rc_id x = rc_id r then f r else x) t"
proof -
  show sel: "(rc_id x = rc_id r \<and> rc_status x = rc_status r) \<longleftrightarrow> x = r" if "x \<in> set t" for x
    using assms that by (auto intro: commands_wf_id_unique)
  then have "filter (\<lambda>x. rc_id x = rc_id r \<and> rc_status x = rc_status r) t = filter ((=) r) t"
    by (intro filter_cong) auto
  moreover have "length (filter ((=) r) t) = 1"
    using assms commands_wf_distinct [OF assms(1)]
    by (simp add: count_list_eq_length_filter [symmetric] distinct_count_atmost_1
        flip: count_mset)
  ultimately show "rowcount (\<lambda>x. rc_id x = rc_id r \<and> rc_status x = rc_status r) t = 1"
    by (simp add: rowcount_def)
  have "x = r" if "x \<in> set t" "rc_id x = rc_id r" for x
    using assms that by (auto intro: commands_wf_id_unique)
  with sel show "update_where (\<lambda>x. rc_id x = rc_id r \<and> rc_status x = rc_status r) f t =
      map (\<lambda>x. if rc_id x = rc_id r then f r else x) t"
    by (auto simp: update_where_def)
qed

lemma cas_exec_update:
  assumes "commands_wf t" "r \<in> set t"
  shows "exec_update (\<lambda>x. rc_id x = rc_id r \<and> rc_status x = rc_status r) f t =
    (if command_columns_ok (f r) then Inr (map (\<lambda>x. if rc_id x = rc_id r then f r else x) t, 1)
     else Inl DataError)"
  using assms cas_selects(1) [OF assms] unfolding exec_update_def cas_selects(2,3) [OF assms]
  by (auto simp: list_ex_iff)

lemma find_command_map_replace:
  "find_command cid t = Some r \<Longrightarrow> rc_id r' = cid \<Longrightarrow>
   find_command cid (map (\<lambda>x. if rc_id x = cid then r' else x) t) = Some r'"
  by (induction t) (auto simp: find_command_def split: if_splits)

lemma update_status_eq_spec:
  assumes wf: "commands_wf (commands db)"
  shows "update_status cid upd now db = update_spec cid upd now db"
proof (cases "find_command cid (commands db)")
  case None
  then show ?thesis by (simp add: update_status_def update_spec_def not_found_def)
next
  case (Some r)
  then have r: "r \<in> set (commands db)" "rc_id r = cid" by (auto dest: find_command_Some)
  let ?f = "transition_values (su_status upd) upd now"
  let ?t = "map (\<lambda>x. if rc_id x = cid then ?f r else x) (commands db)"
  have ex: "exec_update (\<lambda>x. rc_id x = cid \<and> rc_status x = rc_status r) ?f (commands db) =
      (if command_columns_ok (?f r) then Inr (?t, 1) else Inl DataError)"
    using cas_exec_update [OF wf r(1), of ?f] r(2) by simp
  have "find_command cid ?t = Some (?f r)"
    by (rule find_command_map_replace [OF Some]) (simp add: r)
  with Some ex show ?thesis
    by (simp add: update_status_def update_spec_def status_message_def Let_def)
qed

section \<open>Two updates that read the same status\<close>

lemma concurrent_updates:
  assumes wf: "commands_wf (commands db)" and r: "find_command cid (commands db) = Some r"
    and v1: "valid_transition (rc_status r) (su_status u1)"
    and c1: "command_columns_ok (transition_values (su_status u1) u1 now1 r)"
    and s1: "update_step cid u1 now1 (UChecked (rc_status r)) db = (pc1, db1)"
    and s2: "update_step cid u2 now2 (UChecked (rc_status r)) db1 = (pc2, db2)"
  shows "pc1 = UWritten 1 \<and> pc2 = UWritten 0 \<and> db2 = db1 \<and>
    find_command cid (commands db2) = Some (transition_values (su_status u1) u1 now1 r)"
proof -
  let ?f = "transition_values (su_status u1) u1 now1"
  let ?t = "map (\<lambda>x. if rc_id x = cid then ?f r else x) (commands db)"
  have m: "r \<in> set (commands db)" "rc_id r = cid" using r by (auto dest: find_command_Some)
  have "exec_update (\<lambda>x. rc_id x = cid \<and> rc_status x = rc_status r) ?f (commands db) = Inr (?t, 1)"
    using cas_exec_update [OF wf m(1), of ?f] m(2) c1 by simp
  with s1 have 1: "pc1 = UWritten 1" and d1: "db1 = db\<lparr>commands := ?t\<rparr>" by auto
  have none: "\<forall>x \<in> set ?t. \<not> (rc_id x = cid \<and> rc_status x = rc_status r)"
    using valid_transition_new_status [OF v1] m(2) by auto
  have "exec_update (\<lambda>x. rc_id x = cid \<and> rc_status x = rc_status r)
      (transition_values (su_status u2) u2 now2) ?t = Inr (?t, 0)"
    using none by (auto simp: exec_update_def list_ex_iff update_where_none rowcount_0 [THEN iffD2])
  with s2 d1 have "pc2 = UWritten 0" "db2 = db1" by auto
  moreover have "find_command cid ?t = Some (?f r)"
    by (rule find_command_map_replace [OF r]) (simp add: m)
  ultimately show ?thesis using 1 d1 by simp
qed

section \<open>Retried creation\<close>

lemma find_unique:
  assumes "scan_ok scan" "r \<in> set t" "p r" "\<And>s. s \<in> set t \<Longrightarrow> p s \<Longrightarrow> s = r"
  shows "List.find p (scan t) = Some r"
proof -
  have st: "set (scan t) = set t" using assms(1) by (rule scan_ok_set)
  then obtain s where s: "List.find p (scan t) = Some s"
    using assms(2,3) by (cases "List.find p (scan t)") (auto simp: find_None_iff)
  then have "s = r" using assms(4) st find_Some_mem by metis
  with s show ?thesis by simp
qed

text \<open>A key already stored for the robot: the stored row is returned and nothing is written.\<close>

lemma create_command_existing:
  assumes ok: "scan_ok scan" and wf: "commands_wf (commands db)"
    and r: "r \<in> set (commands db)" "rc_robot_id r = rid" "rc_idempotency_key r = Some k"
    and key: "cc_idempotency_key cmd = Some k"
    and ex: "expires_at_of now (cc_timeout_seconds cmd) = Inr e"
    and cols: "command_columns_ok (new_command cid now rid cmd e)"
  shows "create_command scan cid now rid cmd db = (Inr (to_dict r), db)"
proof -
  let ?n = "new_command cid now rid cmd e"
  have "command_conflict ?n r" using r key by (simp add: command_conflict_def new_command_def)
  with r(1) cols have ins: "insert_command ?n (commands db) = Inl IntegrityError"
    by (auto simp: insert_command_def list_ex_iff)
  have "List.find (\<lambda>s. rc_robot_id s = rid \<and> rc_idempotency_key s = cc_idempotency_key cmd)
      (scan (commands db)) = Some r"
    using ok r key by (intro find_unique)
      (auto intro: commands_wf_unique [OF wf] simp: command_conflict_def)
  with ins ex show ?thesis by (simp add: create_command_def Let_def)
qed

lemma create_command_result:
  assumes "create_command scan cid now rid cmd db = (Inr p, db')"
    and "cc_idempotency_key cmd = Some k" and "scan_ok scan"
  shows "\<exists>r \<in> set (commands db'). p = to_dict r \<and> rc_robot_id r = rid \<and> rc_idempotency_key r = Some k"
proof -
  obtain e where e: "expires_at_of now (cc_timeout_seconds cmd) = Inr e"
    using assms(1) by (auto simp: create_command_def split: sum.splits)
  show ?thesis
  proof (cases "insert_command (new_command cid now rid cmd e) (commands db)")
    case (Inr t)
    then have "new_command cid now rid cmd e \<in> set t"
      by (auto simp: insert_command_def split: if_splits)
    with Inr e assms show ?thesis
      by (auto simp: create_command_def Let_def new_command_def)
  next
    case (Inl x)
    with e assms show ?thesis
      by (auto simp: create_command_def Let_def scan_ok_set [OF assms(3)]
          dest!: find_Some_mem split: if_splits option.splits)
  qed
qed

lemma row_evolves_key:
  "row_evolves r r' \<Longrightarrow> rc_id r' = rc_id r \<and> rc_robot_id r' = rc_robot_id r \<and>
     rc_idempotency_key r' = rc_idempotency_key r"
  by (drule row_evolves_fixed) (simp add: fixed_columns_def)

lemma create_command_retry:
  assumes ok: "scan_ok scan"
    and first: "create_command scan cid now rid cmd db = (Inr p, db1)"
    and k: "cc_idempotency_key cmd = Some k" "cc_idempotency_key cmd' = Some k"
    and between: "table_evolves (commands db1) (commands db2)" and wf: "commands_wf (commands db2)"
    and ex: "expires_at_of now' (cc_timeout_seconds cmd') = Inr e"
    and cols: "command_columns_ok (new_command cid' now' rid cmd' e)"
  shows "\<exists>p'. create_command scan cid' now' rid cmd' db2 = (Inr p', db2) \<and>
    map_of p' ''command_id'' = map_of p ''command_id''"
proof -
  obtain r where r: "r \<in> set (commands db1)" "p = to_dict r" "rc_robot_id r = rid"
    "rc_idempotency_key r = Some k"
    using create_command_result [OF first k(1) ok] by blast
  then obtain r' where r': "r' \<in> set (commands db2)" "row_evolves r r'"
    using between table_evolves_mem by blast
  with r have "rc_id r' = rc_id r" "rc_robot_id r' = rid" "rc_idempotency_key r' = Some k"
    using row_evolves_key [OF r'(2)] by auto
  moreover have "create_command scan cid' now' rid cmd' db2 = (Inr (to_dict r'), db2)"
    using calculation r' k ex cols by (intro create_command_existing [OF ok wf]) auto
  ultimately show ?thesis using r by (auto simp: to_dict_def)
qed

section \<open>The claim loop\<close>

lemma oldest_None [simp]: "oldest rs = None \<longleftrightarrow> rs = []"
  by (cases rs) (auto split: option.splits)

lemma created_before_trans_neg:
  "\<not> created_before a b \<Longrightarrow> \<not> created_before b c \<Longrightarrow> \<not> created_before a c"
  by (auto simp: created_before_def split: option.splits)

lemma created_before_asym: "created_before a b \<Longrightarrow> \<not> created_before b a"
  by (auto simp: created_before_def split: option.splits)

lemma oldest_Some:
  "oldest rs = Some r \<Longrightarrow> r \<in> set rs \<and> (\<forall>s \<in> set rs. \<not> created_before s r)"
proof (induction rs arbitrary: r)
  case (Cons x rs)
  show ?case
  proof (cases "oldest rs")
    case None
    with Cons show ?thesis by (auto dest: created_before_asym)
  next
    case (Some s)
    then have s: "s \<in> set rs" "\<forall>y \<in> set rs. \<not> created_before y s" using Cons.IH by auto
    show ?thesis
    proof (cases "created_before s x")
      case True
      with s Some Cons.prems show ?thesis by (auto dest: created_before_asym)
    next
      case False
      then have "\<forall>y \<in> set rs. \<not> created_before y x"
        using s created_before_trans_neg by blast
      moreover have "\<not> created_before x x" using created_before_asym by blast
      ultimately show ?thesis using False Some Cons.prems by simp
    qed
  qed
qed simp

lemma get_next_pending_None:
  "scan_ok scan \<Longrightarrow> get_next_pending scan rid t = None \<longleftrightarrow> filter (pending_for rid) t = []"
  by (simp add: get_next_pending_def filter_empty_conv scan_ok_set)

lemma get_next_pending_Some:
  "scan_ok scan \<Longrightarrow> get_next_pending scan rid t = Some r \<Longrightarrow>
   r \<in> set (filter (pending_for rid) t) \<and>
   (\<forall>s \<in> set (filter (pending_for rid) t). \<not> created_before s r)"
  by (auto simp: get_next_pending_def scan_ok_set dest!: oldest_Some)

lemma try_dispatch_pending:
  assumes "commands_wf t" "r \<in> set t" "rc_status r = ''PENDING''"
  shows "try_dispatch (rc_id r) now t =
    (True, map (\<lambda>x. if rc_id x = rc_id r then mark_dispatched now r else x) t)"
  using cas_selects(2,3) [OF assms(1,2)] assms(3) by (simp add: try_dispatch_def Let_def)

lemma filter_pending_dispatch:
  assumes "commands_wf t" "r \<in> set t" "pending_for rid r"
  shows "mset (filter (pending_for rid) t) =
    add_mset r (mset (filter (pending_for rid)
      (map (\<lambda>x. if rc_id x = rc_id r then mark_dispatched now r else x) t)))"
proof -
  let ?g = "\<lambda>x. if rc_id x = rc_id r then mark_dispatched now r else x"
  have "filter (pending_for rid) (map ?g t) = filter (\<lambda>x. pending_for rid x \<and> x \<noteq> r) t"
    using assms(2)
  proof -
    have eq: "rc_id x = rc_id r \<longleftrightarrow> x = r" if "x \<in> set t" for x
      using commands_wf_id_unique [OF assms(1) that assms(2)] by auto
    have np: "\<not> pending_for rid (mark_dispatched now r)"
      by (simp add: pending_for_def mark_dispatched_def)
    have "filter (pending_for rid) (map ?g u) = filter (\<lambda>x. pending_for rid x \<and> x \<noteq> r) u"
      if "set u \<subseteq> set t" for u
      using that by (induction u) (auto simp: eq np)
    then show ?thesis by simp
  qed
  moreover have "mset (filter (pending_for rid) t) =
      add_mset r (mset (filter (\<lambda>x. pending_for rid x \<and> x \<noteq> r) t))"
  proof -
    have "distinct t" using assms(1) by (rule commands_wf_distinct)
    then have "mset (filter (pending_for rid) t) = mset_set {x \<in> set t. pending_for rid x}"
      "mset (filter (\<lambda>x. pending_for rid x \<and> x \<noteq> r) t) = mset_set {x \<in> set t. pending_for rid x \<and> x \<noteq> r}"
      by (simp_all add: mset_set_set [symmetric] flip: set_filter)
    moreover have "{x \<in> set t. pending_for rid x} = insert r {x \<in> set t. pending_for rid x \<and> x \<noteq> r}"
      using assms(2,3) by auto
    ultimately show ?thesis by simp
  qed
  ultimately show ?thesis by simp
qed

lemma claim_loop_stop:
  "get_next_pending scan rid (commands db) = None \<Longrightarrow>
   claim_loop scan rid clock CSelect cl db = Some (cl, db)"
  by (simp add: claim_loop.simps)

lemma claim_loop_continue:
  "get_next_pending scan rid (commands db) = Some r \<Longrightarrow>
   try_dispatch (rc_id r) (clock (length cl)) (commands db) = (True, t) \<Longrightarrow>
   claim_loop scan rid clock CSelect cl db =
     claim_loop scan rid clock CSelect (cl @ [r])
       (publish telemetry_stream (dispatch_message rid (clock (length cl)) r) (db\<lparr>commands := t\<rparr>))"
  apply (subst claim_loop.simps)
  apply simp
  apply (subst claim_loop.simps)
  apply simp
  done

text \<open>The rows of one robot dispatched, at times of the clock; every other row as it was.\<close>

definition dispatched_all :: "int \<Rightarrow> (nat \<Rightarrow> instant) \<Rightarrow> robot_command list \<Rightarrow> robot_command list \<Rightarrow> bool" where
  "dispatched_all rid clock t t' \<longleftrightarrow>
     list_all2 (\<lambda>r r'. if pending_for rid r then \<exists>k. r' = mark_dispatched (clock k) r else r' = r) t t'"

lemma dispatched_all_one:
  assumes "commands_wf t" "r \<in> set t" "pending_for rid r"
    and "dispatched_all rid clock
      (map (\<lambda>x. if rc_id x = rc_id r then mark_dispatched (clock k) r else x) t) t'"
  shows "dispatched_all rid clock t t'"
proof -
  have eq: "rc_id x = rc_id r \<longleftrightarrow> x = r" if "x \<in> set t" for x
    using commands_wf_id_unique [OF assms(1) that assms(2)] by auto
  have np: "\<not> pending_for rid (mark_dispatched (clock k) r)"
    by (simp add: pending_for_def mark_dispatched_def)
  show ?thesis
    using assms(3,4) eq np
    by (auto simp: dispatched_all_def list_all2_conv_all_nth all_set_conv_all_nth split: if_splits)
qed

lemma claim_loop_claims_all:
  assumes "scan_ok scan" "commands_wf (commands db)"
  shows "\<exists>cs db'. claim_loop scan rid clock CSelect cl db = Some (cl @ cs, db') \<and>
    mset cs = mset (filter (pending_for rid) (commands db)) \<and>
    sorted_wrt (\<lambda>r s. \<not> created_before s r) cs \<and>
    dispatched_all rid clock (commands db) (commands db')"
  using assms
proof (induction "length (filter (pending_for rid) (commands db))" arbitrary: cl db)
  case 0
  then have "get_next_pending scan rid (commands db) = None"
    by (simp add: get_next_pending_None)
  then have "claim_loop scan rid clock CSelect cl db = Some (cl @ [], db)"
    by (simp add: claim_loop_stop)
  moreover have "dispatched_all rid clock (commands db) (commands db)"
    using 0(1) by (auto simp: dispatched_all_def list_all2_conv_all_nth filter_empty_conv)
  ultimately show ?case using 0(1) by fastforce
next
  case (Suc n)
  let ?t = "commands db" and ?now = "clock (length cl)"
  obtain r where g: "get_next_pending scan rid ?t = Some r"
    using Suc(2) get_next_pending_None [OF Suc(3)]
    by (cases "get_next_pending scan rid ?t") auto
  then have r: "r \<in> set ?t" "pending_for rid r"
    and old: "\<forall>s \<in> set (filter (pending_for rid) ?t). \<not> created_before s r"
    using get_next_pending_Some [OF Suc(3)] by auto
  let ?u = "map (\<lambda>x. if rc_id x = rc_id r then mark_dispatched ?now r else x) ?t"
  have td: "try_dispatch (rc_id r) ?now ?t = (True, ?u)"
    using try_dispatch_pending [OF Suc(4) r(1)] r(2) by (simp add: pending_for_def)
  let ?db = "publish telemetry_stream (dispatch_message rid ?now r) (db\<lparr>commands := ?u\<rparr>)"
  have ms: "mset (filter (pending_for rid) ?t) = add_mset r (mset (filter (pending_for rid) ?u))"
    by (rule filter_pending_dispatch [OF Suc(4) r])
  have wf: "commands_wf ?u"
    using try_dispatch_evolves [of ?t "rc_id r" ?now] td Suc(4)
    by (auto intro: commands_wf_evolves_same_length)
  have "length (filter (pending_for rid) ?t) = Suc (length (filter (pending_for rid) ?u))"
    using ms by (rule mset_add_length)
  then have "n = length (filter (pending_for rid) (commands ?db))"
    using Suc(2) by simp
  from Suc(1) [OF this Suc(3)] wf obtain cs db' where
    run: "claim_loop scan rid clock CSelect (cl @ [r]) ?db = Some ((cl @ [r]) @ cs, db')"
    and cs: "mset cs = mset (filter (pending_for rid) ?u)"
    and so: "sorted_wrt (\<lambda>r s. \<not> created_before s r) cs"
    and da: "dispatched_all rid clock ?u (commands db')"
    by fastforce
  have "set cs \<subseteq> set (filter (pending_for rid) ?t)"
    using mset_eq_setD [OF cs] mset_add_set [OF ms] by blast
  then have "sorted_wrt (\<lambda>r s. \<not> created_before s r) (r # cs)"
    using so old by auto
  moreover have "mset (r # cs) = mset (filter (pending_for rid) ?t)"
    using cs ms by simp
  moreover have "claim_loop scan rid clock CSelect cl db = Some (cl @ (r # cs), db')"
    using claim_loop_continue [OF g, of clock cl] td run by simp
  moreover have "dispatched_all rid clock ?t (commands db')"
    by (rule dispatched_all_one [OF Suc(4) r da])
  ultimately show ?case by blast
qed

section \<open>The scanner without interference\<close>

lemma timeout_text_fits: "command_columns_ok r \<Longrightarrow> length (timeout_text r) \<le> 255"
proof (cases "rc_timeout_seconds r")
  case (Some n)
  moreover assume "command_columns_ok r"
  ultimately have "\<bar>n\<bar> < 10 ^ 10" by (auto simp: command_columns_ok_def int4_def)
  then have "length (int_str n) \<le> Suc 10" by (rule length_int_str) simp
  with Some show ?thesis by (simp add: timeout_text_def)
qed (simp add: timeout_text_def)

lemma timeout_values_columns_ok:
  "command_columns_ok r \<Longrightarrow> command_columns_ok (timeout_values dbnow r r)"
  using timeout_text_fits [of r]
  by (simp add: command_columns_ok_def timeout_values_def fits_def)

lemma rc_id_timeout_values [simp]: "rc_id (timeout_values dbnow c r) = rc_id r"
  by (rule rc_id_fixed) simp

lemma timeout_update_one:
  assumes "commands_wf t" "r \<in> set t" "\<not> terminal (rc_status r)"
  shows "exec_update (\<lambda>x. rc_id x = rc_id r \<and> \<not> terminal (rc_status x)) (timeout_values dbnow r) t =
    Inr (map (\<lambda>x. if x = r then timeout_values dbnow x x else x) t, 1)"
proof -
  have eq: "rc_id x = rc_id r \<and> \<not> terminal (rc_status x) \<longleftrightarrow>
      rc_id x = rc_id r \<and> rc_status x = rc_status r" if "x \<in> set t" for x
    using commands_wf_id_unique [OF assms(1) that assms(2)] assms(3) by auto
  then have "exec_update (\<lambda>x. rc_id x = rc_id r \<and> \<not> terminal (rc_status x)) (timeout_values dbnow r) t =
      exec_update (\<lambda>x. rc_id x = rc_id r \<and> rc_status x = rc_status r) (timeout_values dbnow r) t"
    by (auto simp: exec_update_def update_where_def rowcount_def list_ex_iff cong: filter_cong)
  moreover have "command_columns_ok (timeout_values dbnow r r)"
    using assms(1,2) by (intro timeout_values_columns_ok)
      (simp add: commands_wf_def list_all_iff row_ok_def)
  moreover have "map (\<lambda>x. if rc_id x = rc_id r then timeout_values dbnow r r else x) t =
      map (\<lambda>x. if x = r then timeout_values dbnow x x else x) t"
    using commands_wf_id_unique [OF assms(1) _ assms(2)] by (auto intro!: map_cong)
  ultimately show ?thesis by (simp add: cas_exec_update [OF assms(1,2)])
qed

lemma timeout_updates_all:
  "commands_wf t \<Longrightarrow> distinct cmds \<Longrightarrow> set cmds \<subseteq> {r \<in> set t. \<not> terminal (rc_status r)} \<Longrightarrow>
   timeout_updates dbnow cmds out t =
     Inr (out @ cmds, map (\<lambda>x. if x \<in> set cmds then timeout_values dbnow x x else x) t)"
proof (induction cmds arbitrary: out t)
  case (Cons cmd cmds)
  let ?u = "map (\<lambda>x. if x = cmd then timeout_values dbnow x x else x) t"
  have one: "exec_update (\<lambda>x. rc_id x = rc_id cmd \<and> \<not> terminal (rc_status x))
      (timeout_values dbnow cmd) t = Inr (?u, 1)"
    using Cons.prems by (intro timeout_update_one) auto
  then have "timeout_updates dbnow [cmd] [] t = Inr ([cmd], ?u)" by simp
  then have wf: "commands_wf ?u"
    using timeout_updates_evolves Cons.prems(1) commands_wf_evolves_same_length by blast
  have new: "timeout_values dbnow cmd cmd \<notin> set cmds"
    using Cons.prems(3) by (auto simp: terminal_iff)
  have "set cmds \<subseteq> {r \<in> set ?u. \<not> terminal (rc_status r)}"
    using Cons.prems(2,3) by auto
  then have "timeout_updates dbnow cmds (out @ [cmd]) ?u =
      Inr ((out @ [cmd]) @ cmds, map (\<lambda>x. if x \<in> set cmds then timeout_values dbnow x x else x) ?u)"
    using Cons wf by simp
  moreover have "map (\<lambda>x. if x \<in> set cmds then timeout_values dbnow x x else x) ?u =
      map (\<lambda>x. if x \<in> set (cmd # cmds) then timeout_values dbnow x x else x) t"
    using new Cons.prems(2) by auto
  ultimately show ?case using one by simp
qed simp

lemma fold_publish:
  "fold (\<lambda>c. publish s (f c)) cs db = db\<lparr>outbox := outbox db @ map (\<lambda>c. (s, f c)) cs\<rparr>"
  by (induction cs arbitrary: db) (simp_all add: publish_def)

lemma scan_for_timeouts_exact:
  assumes ok: "scan_ok scan" and wf: "commands_wf (commands db)"
  shows "scan_for_timeouts scan now dbnow db =
    (Inr (), \<lparr>commands = map (\<lambda>r. if expired now r then timeout_values dbnow r r else r) (commands db),
       outbox = outbox db @ map (\<lambda>c. (event_stream, timeout_message now c))
                              (filter (expired now) (scan (commands db)))\<rparr>)"
proof -
  let ?t = "commands db" and ?cs = "filter (expired now) (scan (commands db))"
  have "distinct (scan ?t)"
    using ok commands_wf_distinct [OF wf] by (metis mset_eq_imp_distinct_iff scan_ok_def)
  then have "timeout_updates dbnow ?cs [] ?t =
      Inr (?cs, map (\<lambda>x. if x \<in> set ?cs then timeout_values dbnow x x else x) ?t)"
    using timeout_updates_all [OF wf, of ?cs dbnow "[]"] scan_ok_set [OF ok, of ?t]
    by (auto simp: expired_def)
  moreover have "map (\<lambda>x. if x \<in> set ?cs then timeout_values dbnow x x else x) ?t =
      map (\<lambda>r. if expired now r then timeout_values dbnow r r else r) ?t"
    using scan_ok_set [OF ok, of ?t] by auto
  moreover have "map (\<lambda>r. if expired now r then timeout_values dbnow r r else r) ?t = ?t" if "?cs = []"
    using that scan_ok_set [OF ok, of ?t] by (auto simp: filter_empty_conv intro!: map_idI)
  ultimately show ?thesis
    by (cases db) (auto simp: scan_for_timeouts_def fold_publish)
qed

text \<open>Running the scanner's steps one after the other gives the handler.\<close>

fun scan_run ::
  "(robot_command list \<Rightarrow> robot_command list) \<Rightarrow> instant \<Rightarrow> instant \<Rightarrow> nat \<Rightarrow> scan_pc \<times> cmd_db
   \<Rightarrow> scan_pc \<times> cmd_db" where
  "scan_run scan now dbnow 0 s = s"
| "scan_run scan now dbnow (Suc n) s =
     scan_run scan now dbnow n (scan_step scan now dbnow (fst s) (snd s))"

lemma scan_run_done [simp]: "scan_run scan now dbnow n (SDone r, db) = (SDone r, db)"
  by (induction n) simp_all

lemma scan_run_announce:
  "length cs < n \<Longrightarrow> scan_run scan now dbnow n (SAnnounce cs, db) =
   (SDone (Inr ()), fold (\<lambda>c. publish event_stream (timeout_message now c)) cs db)"
proof (induction cs arbitrary: n db)
  case Nil
  then show ?case by (cases n) simp_all
next
  case (Cons c cs)
  then show ?case by (cases n) simp_all
qed

lemma timeout_updates_length:
  "timeout_updates dbnow cmds out t = Inr (out', t') \<Longrightarrow> length out' \<le> length out + length cmds"
  by (induction cmds arbitrary: out t) (force split: sum.splits if_splits)+

lemma scan_run_handler:
  assumes "n \<ge> length (scan (commands db)) + 3"
  shows "scan_run scan now dbnow n (SStart, db) =
    (let (r, db') = scan_for_timeouts scan now dbnow db in (SDone r, db'))"
proof -
  let ?cs = "filter (expired now) (scan (commands db))"
  from assms obtain m where n: "n = Suc (Suc m)" and m: "m > length (scan (commands db))"
    by (cases n; cases "n - 1") auto
  show ?thesis
  proof (cases "timeout_updates dbnow ?cs [] (commands db)")
    case (Inl e)
    with n show ?thesis by (simp add: scan_for_timeouts_def)
  next
    case (Inr p)
    obtain out t where p: "p = (out, t)" by (cases p)
    with Inr have "length out \<le> length ?cs"
      using timeout_updates_length by fastforce
    then have "length out < m" using m length_filter_le [of "expired now" "scan (commands db)"] by linarith
    with Inr p n show ?thesis
      by (auto simp: scan_for_timeouts_def scan_run_announce)
  qed
qed

section \<open>Properties\<close>

text \<open>A row to run the theorems on.\<close>

definition sample_command :: "string \<Rightarrow> robot_command" where
  "sample_command st =
     \<lparr>rc_id = ''c1'', rc_robot_id = 7, rc_command_type = ''RESUME'', rc_payload = None,
      rc_status = st, rc_idempotency_key = Some ''k'', rc_timeout_seconds = Some 30,
      rc_retry_count = 0, rc_max_retries = 0, rc_created_at = Some 0, rc_dispatched_at = None,
      rc_acknowledged_at = None, rc_started_at = None, rc_completed_at = None,
      rc_expires_at = Some 30000000, rc_error_code = None, rc_error_message = None,
      rc_result = None\<rparr>"

definition sample_db :: "string \<Rightarrow> cmd_db" where
  "sample_db st = \<lparr>commands = [sample_command st], outbox = []\<rparr>"

definition sample_update :: "string \<Rightarrow> command_status_update" where
  "sample_update st =
     \<lparr>su_status = st, su_error_code = None, su_error_message = None, su_result = None\<rparr>"

definition sample_create :: command_create where
  "sample_create =
     \<lparr>cc_command_type = ''RESUME'', cc_payload = None, cc_timeout_seconds = Some 30,
      cc_idempotency_key = Some ''k''\<rparr>"

lemmas sample_defs =
  sample_command_def sample_db_def sample_update_def sample_create_def

lemma sample_wf: "known_status st \<Longrightarrow> length st \<le> 32 \<Longrightarrow> commands_wf (commands (sample_db st))"
  by (simp add: sample_defs commands_wf_def row_ok_def command_columns_ok_def fits_def int4_def)

text \<open>
  C6: \<open>update_status\<close>, run without another writer in between, is exactly one decision on the
  stored row: 404 for an unknown command, a no-op for a replayed status, 400 out of a terminal
  state or along an edge that is not in the table, a database error for a value too long for
  its column, and otherwise the new row, the new table and one message on the event stream.
\<close>

theorem update_status_correct:
  assumes "commands_wf (commands db)"
  shows "update_status cid upd now db = update_spec cid upd now db"
  using assms by (rule update_status_eq_spec)

theorem update_status_correct_witness:
  "update_status ''c1'' (sample_update ''ACKNOWLEDGED'') 5 (sample_db ''DISPATCHED'') =
     (let r = (sample_command ''ACKNOWLEDGED'')\<lparr>rc_acknowledged_at := Some 5\<rparr>
      in (Inr (to_dict r), \<lparr>commands = [r], outbox = [(event_stream, status_message 5 r)]\<rparr>))"
proof -
  have "commands_wf (commands (sample_db ''DISPATCHED''))"
    by (rule sample_wf) (simp_all add: known_status_def VALID_TRANSITIONS_def)
  then have "update_status ''c1'' (sample_update ''ACKNOWLEDGED'') 5 (sample_db ''DISPATCHED'') =
      update_spec ''c1'' (sample_update ''ACKNOWLEDGED'') 5 (sample_db ''DISPATCHED'')"
    by (rule update_status_correct)
  also have "\<dots> = (let r = (sample_command ''ACKNOWLEDGED'')\<lparr>rc_acknowledged_at := Some 5\<rparr>
      in (Inr (to_dict r), \<lparr>commands = [r], outbox = [(event_stream, status_message 5 r)]\<rparr>))"
    by (simp add: update_spec_def sample_defs find_command_def transition_values_def terminal_iff
        VALID_TRANSITIONS_def command_columns_ok_def fits_def int4_def publish_def)
  finally show ?thesis .
qed

text \<open>
  two requests that both read the same status and both passed validation race on the
  conditional UPDATE: the first matches one row, the second matches none and changes nothing,
  and the row is the first writer's. If they wanted different states, the second caller gets
  a 409 that names the state the command is really in.
\<close>

theorem update_race_one_winner:
  assumes "commands_wf (commands db)" "find_command cid (commands db) = Some r"
    and "valid_transition (rc_status r) (su_status u1)"
    and "su_status u2 \<noteq> su_status u1"
    and "command_columns_ok (transition_values (su_status u1) u1 now1 r)"
    and "update_step cid u1 now1 (UChecked (rc_status r)) db = (pc1, db1)"
    and "update_step cid u2 now2 (UChecked (rc_status r)) db1 = (pc2, db2)"
  shows "pc1 = UWritten 1 \<and> pc2 = UWritten 0 \<and> db2 = db1 \<and>
    update_step cid u2 now2 pc2 db2 =
      (UDone (Inl (HTTPException 409
         (''Command was concurrently updated to '' @ su_status u1 @ ''; transition to '' @
          su_status u2 @ '' no longer applies''))), db1)"
  using concurrent_updates [OF assms(1,2,3,5,6,7)] assms(4) by auto

theorem update_race_one_winner_witness:
  "\<exists>db1. update_step ''c1'' (sample_update ''EXECUTING'') 5 (UChecked ''ACKNOWLEDGED'')
            (sample_db ''ACKNOWLEDGED'') = (UWritten 1, db1) \<and>
         update_step ''c1'' (sample_update ''FAILED'') 6 (UChecked ''ACKNOWLEDGED'') db1 = (UWritten 0, db1)"
proof -
  let ?db = "sample_db ''ACKNOWLEDGED''"
  obtain pc1 db1 where s1: "update_step ''c1'' (sample_update ''EXECUTING'') 5
      (UChecked ''ACKNOWLEDGED'') ?db = (pc1, db1)" by fastforce
  obtain pc2 db2 where s2: "update_step ''c1'' (sample_update ''FAILED'') 6
      (UChecked ''ACKNOWLEDGED'') db1 = (pc2, db2)" by fastforce
  have "commands_wf (commands ?db)"
    by (rule sample_wf) (simp_all add: known_status_def VALID_TRANSITIONS_def)
  moreover have "find_command ''c1'' (commands ?db) = Some (sample_command ''ACKNOWLEDGED'')"
    by (simp add: find_command_def sample_defs)
  ultimately have "pc1 = UWritten 1 \<and> pc2 = UWritten 0 \<and> db2 = db1"
    using update_race_one_winner [of ?db "''c1''" "sample_command ''ACKNOWLEDGED''"
        "sample_update ''EXECUTING''" "sample_update ''FAILED''" 5 pc1 db1 6 pc2 db2] s1 s2
    by (simp add: sample_defs VALID_TRANSITIONS_def transition_values_def command_columns_ok_def
        fits_def int4_def)
  with s1 s2 show ?thesis by auto
qed

text \<open>
  C17: creating a command is idempotent in its key. After a creation with a key for a robot,
  whatever other writers did to the rows in between, a second creation with the same key for
  the same robot succeeds, writes and publishes nothing, and answers with the same command.
\<close>

theorem create_command_idempotent:
  assumes "scan_ok scan"
    and "create_command scan cid now rid cmd db = (Inr p, db1)"
    and "cc_idempotency_key cmd = Some k" "cc_idempotency_key cmd' = Some k"
    and "table_evolves (commands db1) (commands db2)" "commands_wf (commands db2)"
    and "expires_at_of now' (cc_timeout_seconds cmd') = Inr e"
    and "command_columns_ok (new_command cid' now' rid cmd' e)"
  shows "\<exists>p'. create_command scan cid' now' rid cmd' db2 = (Inr p', db2) \<and>
    map_of p' ''command_id'' = map_of p ''command_id''"
  using assms by (rule create_command_retry)

theorem create_command_idempotent_witness:
  "\<exists>p'. create_command (\<lambda>t. t) ''c2'' 9 7 sample_create (sample_db ''PENDING'') =
      (Inr p', sample_db ''PENDING'') \<and> map_of p' ''command_id'' = Some (JStr ''c1'')"
proof -
  let ?d = "\<lparr>commands = [], outbox = []\<rparr>"
  have e: "expires_at_of t (Some 30) = Inr (Some (t + 30000000))" if "t = 0 \<or> t = 9" for t
    using that by (auto simp: expires_at_of_def add_seconds_def seconds_def)
  have to: "cc_timeout_seconds sample_create = Some 30" by (simp add: sample_create_def)
  have new: "new_command ''c1'' 0 7 sample_create (Some 30000000) = sample_command ''PENDING''"
    by (simp add: new_command_def sample_defs)
  have ok: "command_columns_ok (sample_command ''PENDING'')"
    by (simp add: sample_defs command_columns_ok_def fits_def int4_def)
  have first: "\<exists>db1. create_command (\<lambda>t. t) ''c1'' 0 7 sample_create ?d =
      (Inr (to_dict (sample_command ''PENDING'')), db1) \<and> commands db1 = [sample_command ''PENDING'']"
    using e [of 0] new ok to
    by (simp add: create_command_def insert_command_def Let_def publish_def)
  then obtain db1 where f: "create_command (\<lambda>t. t) ''c1'' 0 7 sample_create ?d =
      (Inr (to_dict (sample_command ''PENDING'')), db1)"
    and c: "commands db1 = commands (sample_db ''PENDING'')"
    by (auto simp: sample_db_def)
  have wf: "commands_wf (commands (sample_db ''PENDING''))" by (rule sample_wf) simp_all
  have cols: "command_columns_ok (new_command ''c2'' 9 7 sample_create (Some (9 + 30000000)))"
    by (simp add: new_command_def sample_defs command_columns_ok_def fits_def int4_def)
  from create_command_idempotent [OF scan_ok_id f, of "''k''" sample_create "sample_db ''PENDING''" 9
      "Some (9 + 30000000)" "''c2''"] e [of 9] wf cols c
  show ?thesis by (simp add: sample_create_def to_dict_def sample_command_def)
qed

text \<open>
  C16: the claim loop always returns. It hands out every command that was pending for the
  robot, each once, oldest first, and nothing else; afterwards exactly these rows are
  DISPATCHED and every other row of the table is as it was.
\<close>

theorem claim_pending_commands_correct:
  assumes "scan_ok scan" "commands_wf (commands db)"
  shows "\<exists>cs db'. claim_pending_commands scan rid clock db = Some (map claimed_entry cs, db') \<and>
    mset cs = mset (filter (pending_for rid) (commands db)) \<and>
    sorted_wrt (\<lambda>r s. \<not> created_before s r) cs \<and>
    dispatched_all rid clock (commands db) (commands db')"
  using claim_loop_claims_all [OF assms, of rid clock "[]"]
  by (auto simp: claim_pending_commands_def)

theorem claim_pending_commands_correct_witness:
  "\<exists>db'. claim_pending_commands (\<lambda>t. t) 7 (\<lambda>_. 5) (sample_db ''PENDING'') =
     Some ([claimed_entry (sample_command ''PENDING'')], db')"
proof -
  have wf: "commands_wf (commands (sample_db ''PENDING''))" by (rule sample_wf) simp_all
  obtain cs db' where "claim_pending_commands (\<lambda>t. t) 7 (\<lambda>_. 5) (sample_db ''PENDING'') =
      Some (map claimed_entry cs, db')"
    and "mset cs = mset (filter (pending_for 7) (commands (sample_db ''PENDING'')))"
    using claim_pending_commands_correct [OF scan_ok_id wf, of 7 "\<lambda>_. 5"] by blast
  moreover from this(2) have "cs = [sample_command ''PENDING'']"
    by (simp add: sample_defs pending_for_def)
  ultimately show ?thesis by simp
qed

text \<open>
  A timeout scan without interference succeeds, moves exactly the commands that are past
  their deadline and not in a terminal state to TIMEOUT, leaves every other row alone, and
  publishes one message per expired command, on the event stream.
\<close>

theorem scan_for_timeouts_correct:
  assumes "scan_ok scan" "commands_wf (commands db)"
  shows "scan_for_timeouts scan now dbnow db =
    (Inr (), \<lparr>commands = map (\<lambda>r. if expired now r then timeout_values dbnow r r else r) (commands db),
       outbox = outbox db @ map (\<lambda>c. (event_stream, timeout_message now c))
                              (filter (expired now) (scan (commands db)))\<rparr>)"
  using assms by (rule scan_for_timeouts_exact)

theorem scan_for_timeouts_correct_witness:
  "rc_status (hd (commands (snd (scan_for_timeouts (\<lambda>t. t) 40000000 41000000
     (sample_db ''EXECUTING''))))) = ''TIMEOUT''"
proof -
  have "commands_wf (commands (sample_db ''EXECUTING''))"
    by (rule sample_wf) (simp_all add: known_status_def VALID_TRANSITIONS_def)
  from scan_for_timeouts_correct [OF scan_ok_id this, of 40000000 41000000]
  show ?thesis by (simp add: sample_defs expired_def terminal_iff timeout_values_def)
qed

text \<open>
  a command cannot cycle: no chain of legal transitions is longer than four, and a chain
  of four starts in PENDING and ends in a terminal state.
\<close>

theorem lifecycle_bounded:
  assumes "(valid_transition ^^ n) s s'"
  shows "n \<le> 4 \<and> (n = 4 \<longrightarrow> s = ''PENDING'' \<and> terminal s')"
proof -
  have rank: "status_rank s + n \<le> status_rank s'" using assms
    by (induction n arbitrary: s') (force dest: valid_transition_rank)+
  have last: "known_status s'" if "0 < n"
    using assms that by (cases n) (auto intro: valid_transition_known)
  from rank have le: "n \<le> 4" and eq: "n = 4 \<longrightarrow> status_rank s = 0 \<and> status_rank s' = 4"
    by (auto simp: status_rank_def split: if_splits)
  have "terminal s'" if "status_rank s' = 4" "known_status s'"
    using that by (auto simp: status_rank_def known_status_def VALID_TRANSITIONS_def split: if_splits)
  with le eq last show ?thesis by (auto simp: status_rank_def split: if_splits)
qed

theorem lifecycle_bounded_witness:
  "(valid_transition ^^ 2) ''ACKNOWLEDGED'' ''COMPLETED'' \<and> (2::nat) \<le> 4"
proof -
  have "(valid_transition ^^ 2) ''ACKNOWLEDGED'' ''COMPLETED''"
    by (auto simp: numeral_2_eq_2 relcompp.simps VALID_TRANSITIONS_def intro!: exI [of _ "''EXECUTING''"])
  then show ?thesis using lifecycle_bounded by blast
qed

end
