(* ===== verification/FleetAuth.thy ===== *)
theory FleetAuth
  imports FleetTickets FleetCommands
begin

text \<open>
  Identity and access: roles, passwords and access tokens (\<open>backend/app/security.py\<close>), the
  FastAPI dependencies that guard routes (\<open>backend/app/auth.py\<close>), the account table
  (\<open>models.User\<close>, \<open>repositories/user_repo.py\<close>), the sign-in, ticket and bootstrap handlers
  (\<open>routes/auth.py\<close>) and the guarded command routes (\<open>routes/commands.py\<close>).

  bcrypt, PyJWT and SHA-256 are fields of a record of parameters; \<open>bcrypt_ok\<close> and \<open>jwt_ok\<close>
  state what their documentation promises. A dependency is a computation that raises or
  returns; FastAPI runs the dependencies of a route in the order of its parameters.
\<close>

section \<open>The libraries the code calls\<close>

record crypto =
  c_mac :: "string \<Rightarrow> string \<Rightarrow> string"
  c_sha256_hex :: "string \<Rightarrow> string"
  c_jwt_encode :: "json_obj \<Rightarrow> string \<Rightarrow> string"
  c_jwt_decode :: "string \<Rightarrow> string \<Rightarrow> instant \<Rightarrow> json_obj option"
  c_hashpw :: "string \<Rightarrow> string \<Rightarrow> string"
  c_checkpw :: "string \<Rightarrow> string \<Rightarrow> bool result"

text \<open>\<open>str.encode("utf-8")\<close>, for code points below 256.\<close>

definition utf8 :: "string \<Rightarrow> string" where
  "utf8 s = concat (map (\<lambda>ch. let n = of_char ch :: nat in
     if n < 128 then [ch] else [char_of (192 + n div 64), char_of (128 + n mod 64)]) s)"

section \<open>security.py\<close>

definition ROLES :: "string list" where
  "ROLES = [''viewer'', ''operator'', ''admin'']"

definition rank :: "string \<Rightarrow> nat option" where
  "rank role = (if role = ''viewer'' then Some 0 else if role = ''operator'' then Some 1
     else if role = ''admin'' then Some 2 else None)"

definition role_satisfies :: "string \<Rightarrow> string \<Rightarrow> bool" where
  "role_satisfies actual required =
     (case (rank actual, rank required) of (Some a, Some r) \<Rightarrow> r \<le> a | _ \<Rightarrow> False)"

definition hash_password :: "crypto \<Rightarrow> string \<Rightarrow> string \<Rightarrow> string result" where
  "hash_password lib salt plaintext =
     (let encoded = utf8 plaintext
      in if 72 < length encoded then Inl ValueError else Inr (c_hashpw lib encoded salt))"

definition verify_password :: "crypto \<Rightarrow> string \<Rightarrow> string \<Rightarrow> bool result" where
  "verify_password lib plaintext password_hash =
     (case c_checkpw lib (take 72 (utf8 plaintext)) (utf8 password_hash) of
        Inl e \<Rightarrow> if e = ValueError \<or> e = TypeError then Inr False else Inl e
      | Inr b \<Rightarrow> Inr b)"

definition signing_key :: "crypto \<Rightarrow> settings \<Rightarrow> string" where
  "signing_key lib cfg =
     (if truthy_str (jwt_secret cfg) then the (jwt_secret cfg)
      else c_sha256_hex lib (utf8 (telemetry_api_key cfg) @ ''jwt''))"

definition token_claims :: "string \<Rightarrow> string \<Rightarrow> int \<Rightarrow> int \<Rightarrow> json_obj" where
  "token_claims username role iat ex =
     [(''sub'', JStr username), (''role'', JStr role), (''iat'', JNum (of_int iat)), (''exp'', JNum (of_int ex))]"

definition issue_access_token ::
  "crypto \<Rightarrow> settings \<Rightarrow> string \<Rightarrow> string \<Rightarrow> int option \<Rightarrow> instant \<Rightarrow> (string \<times> int) result"
where
  "issue_access_token lib cfg username role ttl_seconds now =
     (let ttl = (case ttl_seconds of Some t \<Rightarrow> t | None \<Rightarrow> jwt_ttl_seconds cfg)
      in bindR (add_seconds now ttl)
           (\<lambda>expires_at.
              let payload = token_claims username role (unix_seconds now) (unix_seconds expires_at)
              in Inr (c_jwt_encode lib payload (signing_key lib cfg), unix_seconds expires_at)))"

text \<open>\<open>not v\<close> for a value found, or not found, in a dictionary.\<close>

fun json_truthy :: "json \<Rightarrow> bool" where
  "json_truthy JNull = False"
| "json_truthy (JBool b) = b"
| "json_truthy (JNum q) = (q \<noteq> 0)"
| "json_truthy (JStr s) = (s \<noteq> [])"
| "json_truthy (JArr xs) = (xs \<noteq> [])"
| "json_truthy (JObj kvs) = (kvs \<noteq> [])"

definition get_truthy :: "json_obj \<Rightarrow> string \<Rightarrow> bool" where
  "get_truthy d k = (case dict_get d k of None \<Rightarrow> False | Some v \<Rightarrow> json_truthy v)"

text \<open>\<open>claims.get("role") in _RANK\<close>: an unhashable value raises \<open>TypeError\<close>.\<close>

definition in_rank :: "json option \<Rightarrow> bool result" where
  "in_rank v = (case v of
      Some (JStr s) \<Rightarrow> Inr (rank s \<noteq> None)
    | Some (JArr _) \<Rightarrow> Inl TypeError
    | Some (JObj _) \<Rightarrow> Inl TypeError
    | _ \<Rightarrow> Inr False)"

definition decode_access_token :: "crypto \<Rightarrow> settings \<Rightarrow> string \<Rightarrow> instant \<Rightarrow> json_obj option result" where
  "decode_access_token lib cfg token now =
     (case c_jwt_decode lib token (signing_key lib cfg) now of
        None \<Rightarrow> Inr None
      | Some claims \<Rightarrow>
          if \<not> get_truthy claims ''sub'' then Inr None
          else bindR (in_rank (dict_get claims ''role'')) (\<lambda>ok. Inr (if ok then Some claims else None)))"

section \<open>auth.py\<close>

definition is_valid_api_key :: "settings \<Rightarrow> string option \<Rightarrow> bool result" where
  "is_valid_api_key cfg candidate =
     (if \<not> truthy_str candidate then Inr False
      else compare_digest (the candidate) (telemetry_api_key cfg))"

definition verify_api_key :: "settings \<Rightarrow> string option \<Rightarrow> unit result" where
  "verify_api_key cfg x_api_key =
     bindR (is_valid_api_key cfg x_api_key)
       (\<lambda>ok. if ok then Inr () else Inl (HTTPException 401 ''Invalid API Key''))"

definition verify_console_access ::
  "crypto \<Rightarrow> settings \<Rightarrow> instant \<Rightarrow> string option \<Rightarrow> string option \<Rightarrow> unit result"
where
  "verify_console_access lib cfg now x_api_key x_console_ticket =
     bindR (is_valid_api_key cfg x_api_key)
       (\<lambda>key_ok. if key_ok then Inr ()
         else bindR (verify_ticket (c_mac lib) cfg x_console_ticket SCOPE_CONSOLE now)
           (\<lambda>ticket_ok. if ticket_ok then Inr ()
             else Inl (HTTPException 401 ''Invalid API key or console ticket'')))"

definition verify_read_access :: "settings \<Rightarrow> string option \<Rightarrow> unit result" where
  "verify_read_access cfg x_api_key =
     (if \<not> require_auth_for_reads cfg then Inr ()
      else bindR (is_valid_api_key cfg x_api_key)
        (\<lambda>ok. if ok then Inr () else Inl (HTTPException 401 ''Invalid API Key'')))"

text \<open>A principal; \<open>claims["sub"]\<close> is whatever JSON value the token carries.\<close>

record principal =
  p_username :: json
  p_role :: string
  p_authenticated :: bool

definition anonymous :: principal where
  "anonymous = \<lparr>p_username = JStr ''anonymous'', p_role = ''operator'', p_authenticated = False\<rparr>"

definition bearer_token :: "string option \<Rightarrow> string option" where
  "bearer_token authorization =
     (if \<not> truthy_str authorization then None
      else let a = the authorization;
               scheme = takeWhile (\<lambda>ch. ch \<noteq> CHR '' '') a;
               token = drop (Suc (length scheme)) a
           in if py_lower scheme \<noteq> ''bearer'' \<or> py_strip token = [] then None
              else Some (py_strip token))"

definition claim_role :: "json_obj \<Rightarrow> string" where
  "claim_role claims = (case dict_get claims ''role'' of Some (JStr r) \<Rightarrow> r | _ \<Rightarrow> [])"

definition claim_sub :: "json_obj \<Rightarrow> json" where
  "claim_sub claims = (case dict_get claims ''sub'' of Some v \<Rightarrow> v | None \<Rightarrow> JNull)"

definition current_principal :: "crypto \<Rightarrow> settings \<Rightarrow> instant \<Rightarrow> string option \<Rightarrow> principal result" where
  "current_principal lib cfg now authorization =
     (case bearer_token authorization of
        None \<Rightarrow> if auth_required cfg then Inl (HTTPException 401 ''Not authenticated'') else Inr anonymous
      | Some token \<Rightarrow>
          bindR (decode_access_token lib cfg token now)
            (\<lambda>claims. case claims of
               None \<Rightarrow> Inl (HTTPException 401 ''Invalid or expired token'')
             | Some c \<Rightarrow> Inr \<lparr>p_username = claim_sub c, p_role = claim_role c, p_authenticated = True\<rparr>))"

definition require_role :: "string \<Rightarrow> principal \<Rightarrow> principal result" where
  "require_role required who =
     (if role_satisfies (p_role who) required then Inr who
      else Inl (HTTPException 403 (''Requires the '' @ required @ '' role'')))"

section \<open>Accounts\<close>

record user =
  u_id :: int
  u_username :: string
  u_password_hash :: string
  u_role :: string
  u_is_active :: bool
  u_created_at :: instant
  u_last_login_at :: "instant option"

definition get_by_username :: "string \<Rightarrow> user list \<Rightarrow> user option" where
  "get_by_username name t = List.find (\<lambda>u. u_username u = name) t"

text \<open>
  \<open>create\<close>: the serial key the database hands out and its clock are arguments; the row is
  refused when a value is too long for its column or the username is taken.
\<close>

definition create_user :: "int \<Rightarrow> instant \<Rightarrow> string \<Rightarrow> string \<Rightarrow> string \<Rightarrow> user list \<Rightarrow> user list result" where
  "create_user uid now name pwhash role t =
     (if 64 < length name \<or> 128 < length pwhash \<or> 16 < length role then Inl DataError
      else if list_ex (\<lambda>u. u_id u = uid \<or> u_username u = name) t then Inl IntegrityError
      else Inr (t @ [\<lparr>u_id = uid, u_username = name, u_password_hash = pwhash, u_role = role,
                      u_is_active = True, u_created_at = now, u_last_login_at = None\<rparr>]))"

definition touch_last_login :: "int \<Rightarrow> instant \<Rightarrow> user list \<Rightarrow> user list" where
  "touch_last_login uid now t = update_where (\<lambda>u. u_id u = uid) (\<lambda>u. u\<lparr>u_last_login_at := Some now\<rparr>) t"

section \<open>routes/auth.py\<close>

record login_request =
  lr_username :: string
  lr_password :: string

record token_response =
  tr_access_token :: string
  tr_token_type :: string
  tr_expires_at :: int
  tr_username :: string
  tr_role :: string

abbreviation bad_login :: py_exn where
  "bad_login \<equiv> HTTPException 401 ''Invalid username or password''"

text \<open>
  \<open>login\<close>: \<open>dummy_hash\<close> is the module's \<open>_DUMMY_HASH\<close>, and \<open>touch_ok\<close> says whether the
  best-effort statement that records the sign-in succeeds.
\<close>

definition login ::
  "crypto \<Rightarrow> settings \<Rightarrow> string \<Rightarrow> bool \<Rightarrow> instant \<Rightarrow> login_request \<Rightarrow> user list
   \<Rightarrow> token_response result \<times> user list"
where
  "login lib cfg dummy_hash touch_ok now credentials t =
     (if \<not> auth_required cfg then
        (Inl (HTTPException 404 ''This deployment runs with AUTH_MODE=open; there is nothing to sign in to.''), t)
      else case get_by_username (lr_username credentials) t of
        None \<Rightarrow>
          (bindR (verify_password lib (lr_password credentials) dummy_hash) (\<lambda>_. Inl bad_login), t)
      | Some user \<Rightarrow>
          (case verify_password lib (lr_password credentials) (u_password_hash user) of
             Inl e \<Rightarrow> (Inl e, t)
           | Inr ok \<Rightarrow>
               if \<not> ok then (Inl bad_login, t)
               else if \<not> u_is_active user then (Inl (HTTPException 403 ''Account is disabled''), t)
               else case issue_access_token lib cfg (u_username user) (u_role user) None now of
                 Inl e \<Rightarrow> (Inl e, t)
               | Inr (token, expires_at) \<Rightarrow>
                   (Inr \<lparr>tr_access_token = token, tr_token_type = ''bearer'', tr_expires_at = expires_at,
                         tr_username = u_username user, tr_role = u_role user\<rparr>,
                    if touch_ok then touch_last_login (u_id user) now t else t)))"

definition auth_config :: "settings \<Rightarrow> string \<times> bool" where
  "auth_config cfg = (resolved_auth_mode cfg, auth_required cfg)"

definition create_console_ticket ::
  "crypto \<Rightarrow> settings \<Rightarrow> instant \<Rightarrow> string \<Rightarrow> string option \<Rightarrow> string option \<Rightarrow> (string \<times> int \<times> string) result"
where
  "create_console_ticket lib cfg now nonce authorization x_api_key =
     bindR (current_principal lib cfg now authorization)
       (\<lambda>_. bindR (verify_read_access cfg x_api_key)
         (\<lambda>_. let (ticket, expires_at) = issue_ticket (c_mac lib) cfg SCOPE_CONSOLE None now nonce
               in Inr (ticket, expires_at, SCOPE_CONSOLE)))"

text \<open>
  \<open>bootstrap_admin_user\<close> as the two statements it runs, with other processes between them:
  \<open>BCount\<close> before the count, \<open>BCreate\<close> after a count of zero. Every exception is logged and
  swallowed, so a failed attempt leaves the table as it was.
\<close>

datatype bootstrap_pc = BCount | BCreate | BDone

fun bootstrap_step ::
  "crypto \<Rightarrow> settings \<Rightarrow> string \<Rightarrow> int \<Rightarrow> instant \<Rightarrow> bootstrap_pc \<Rightarrow> user list \<Rightarrow> bootstrap_pc \<times> user list"
where
  "bootstrap_step lib cfg salt uid now BCount t =
     (if \<not> auth_required cfg then (BDone, t)
      else if \<not> (truthy_str (bootstrap_admin_username cfg) \<and> truthy_str (bootstrap_admin_password cfg))
      then (BDone, t)
      else if t \<noteq> [] then (BDone, t) else (BCreate, t))"
| "bootstrap_step lib cfg salt uid now BCreate t =
     (case hash_password lib salt (the (bootstrap_admin_password cfg)) of
        Inl e \<Rightarrow> (BDone, t)
      | Inr h \<Rightarrow>
          (case create_user uid now (the (bootstrap_admin_username cfg)) h ''admin'' t of
             Inl e \<Rightarrow> (BDone, t)
           | Inr t' \<Rightarrow> (BDone, t')))"
| "bootstrap_step lib cfg salt uid now BDone t = (BDone, t)"

section \<open>The guarded command routes\<close>

definition send_command ::
  "crypto \<Rightarrow> settings \<Rightarrow> (robot_command list \<Rightarrow> robot_command list) \<Rightarrow> string \<Rightarrow> instant
   \<Rightarrow> string option \<Rightarrow> string option \<Rightarrow> string option \<Rightarrow> int \<Rightarrow> command_create \<Rightarrow> cmd_db
   \<Rightarrow> json_obj result \<times> cmd_db"
where
  "send_command lib cfg scan cmd_id now x_api_key x_console_ticket authorization robot_id command db =
     (case verify_console_access lib cfg now x_api_key x_console_ticket of
        Inl e \<Rightarrow> (Inl e, db)
      | Inr _ \<Rightarrow>
          (case bindR (current_principal lib cfg now authorization) (require_role ''operator'') of
             Inl e \<Rightarrow> (Inl e, db)
           | Inr _ \<Rightarrow>
               (case create_command scan cmd_id now robot_id command db of
                  (Inl e, db') \<Rightarrow> (Inl e, db')
                | (Inr payload, db') \<Rightarrow>
                    (Inr [(''message'', JStr ''Command sent''), (''payload'', JObj payload)], db'))))"

definition claim_commands ::
  "settings \<Rightarrow> (robot_command list \<Rightarrow> robot_command list) \<Rightarrow> (nat \<Rightarrow> instant) \<Rightarrow> string option \<Rightarrow> int
   \<Rightarrow> cmd_db \<Rightarrow> (json_obj list result \<times> cmd_db) option"
where
  "claim_commands cfg scan clock x_api_key robot_id db =
     (case verify_api_key cfg x_api_key of
        Inl e \<Rightarrow> Some (Inl e, db)
      | Inr _ \<Rightarrow> map_option (\<lambda>(claimed, db'). (Inr claimed, db')) (claim_pending_commands scan robot_id clock db))"

definition update_command_status ::
  "settings \<Rightarrow> instant \<Rightarrow> string option \<Rightarrow> string \<Rightarrow> command_status_update \<Rightarrow> cmd_db \<Rightarrow> json_obj result \<times> cmd_db"
where
  "update_command_status cfg now x_api_key command_id upd db =
     (case verify_api_key cfg x_api_key of
        Inl e \<Rightarrow> (Inl e, db)
      | Inr _ \<Rightarrow>
          (case update_status command_id upd now db of
             (Inl e, db') \<Rightarrow> (Inl e, db')
           | (Inr payload, db') \<Rightarrow>
               (Inr [(''message'', JStr ''Command status updated''), (''payload'', JObj payload)], db')))"


section \<open>What the libraries promise\<close>

text \<open>
  PyJWT: decoding under the encoding key gives the claims back while the token is not issued in
  the future and not expired, and fails from the expiry second on; a token has no white space.
  bcrypt: a password matches its own hash.
\<close>

definition jwt_ok :: "crypto \<Rightarrow> bool" where
  "jwt_ok lib \<longleftrightarrow>
     (\<forall>sub role iat ex key now. seconds iat \<le> now \<longrightarrow>
        c_jwt_decode lib (c_jwt_encode lib (token_claims sub role iat ex) key) key now =
          (if now < seconds ex then Some (token_claims sub role iat ex) else None)) \<and>
     (\<forall>c key. c_jwt_encode lib c key \<noteq> [] \<and> list_all (\<lambda>ch. \<not> py_isspace ch) (c_jwt_encode lib c key))"

definition bcrypt_ok :: "crypto \<Rightarrow> bool" where
  "bcrypt_ok lib \<longleftrightarrow> (\<forall>p salt. c_checkpw lib p (utf8 (c_hashpw lib p salt)) = Inr True)"

definition checkpw_raises_value_or_type :: "crypto \<Rightarrow> bool" where
  "checkpw_raises_value_or_type lib \<longleftrightarrow>
     (\<forall>p h e. c_checkpw lib p h = Inl e \<longrightarrow> e = ValueError \<or> e = TypeError)"

text \<open>A concrete instance: claims and keys written in nibbles, passwords hashed in the clear.\<close>

definition nibbles :: "string \<Rightarrow> string" where
  "nibbles s = concat (map (\<lambda>ch. let n = of_char ch :: nat in [char_of (65 + n div 16), char_of (65 + n mod 16)]) s)"

fun unnibble :: "string \<Rightarrow> string" where
  "unnibble (a # b # s) = char_of ((of_char a - 65) * 16 + (of_char b - 65) :: nat) # unnibble s"
| "unnibble _ = []"

definition claim_text :: "json_obj \<Rightarrow> string \<Rightarrow> string" where
  "claim_text c k = (case dict_get c k of Some (JStr s) \<Rightarrow> s | Some (JNum q) \<Rightarrow> int_str (floor q) | _ \<Rightarrow> [])"

definition sample_encode :: "json_obj \<Rightarrow> string \<Rightarrow> string" where
  "sample_encode c key = py_join (CHR ''.'')
     (map nibbles [key, claim_text c ''sub'', claim_text c ''role'', claim_text c ''iat'', claim_text c ''exp''])"

definition sample_decode :: "string \<Rightarrow> string \<Rightarrow> instant \<Rightarrow> json_obj option" where
  "sample_decode tok key now =
     (case map unnibble (py_split (CHR ''.'') tok) of
        [k, sub, role, i, e] \<Rightarrow>
          (case (py_int i, py_int e) of
             (Some iat, Some ex) \<Rightarrow>
               if k = key \<and> seconds iat \<le> now \<and> now < seconds ex then Some (token_claims sub role iat ex) else None
           | _ \<Rightarrow> None)
      | _ \<Rightarrow> None)"

definition sample_crypto :: crypto where
  "sample_crypto =
     \<lparr>c_mac = sample_mac, c_sha256_hex = (\<lambda>s. s), c_jwt_encode = sample_encode, c_jwt_decode = sample_decode,
      c_hashpw = (\<lambda>p salt. nibbles p), c_checkpw = (\<lambda>p h. Inr (unnibble h = p))\<rparr>"

lemma of_char_less: "of_char (ch :: char) < (256 :: nat)"
  using of_char_mod_256 [of ch, where ?'a = nat] by simp

lemma of_char_div_16: "of_char (ch :: char) div 16 < (16 :: nat)"
  using of_char_less [of ch] by (intro less_mult_imp_div_less) simp

lemma of_char_nibbles:
  "of_char (char_of (65 + of_char (ch :: char) div 16 :: nat) :: char) = (65 + of_char ch div 16 :: nat)"
  "of_char (char_of (65 + of_char (ch :: char) mod 16 :: nat) :: char) = (65 + of_char ch mod 16 :: nat)"
proof -
  have "of_char ch div 16 < (16 :: nat)" by (rule of_char_div_16)
  then show "of_char (char_of (65 + of_char ch div 16 :: nat) :: char) = (65 + of_char ch div 16 :: nat)"
    by simp
  have "of_char ch mod 16 < (16 :: nat)" by simp
  then have "(65 + of_char ch mod 16) mod 256 = (65 + of_char ch mod 16 :: nat)"
    by (intro mod_less) linarith
  then show "of_char (char_of (65 + of_char ch mod 16 :: nat) :: char) = (65 + of_char ch mod 16 :: nat)"
    by simp
qed

lemma nibble_chars: "list_all (\<lambda>ch. 65 \<le> (of_char ch :: nat) \<and> (of_char ch :: nat) \<le> 80) (nibbles s)"
proof (induction s)
  case (Cons c s)
  have "of_char c div 16 < (16 :: nat)" by (rule of_char_div_16)
  moreover have "of_char c mod 16 < (16 :: nat)" by simp
  ultimately show ?case
    using Cons by (simp add: nibbles_def Let_def of_char_nibbles del: of_char_of)
qed (simp add: nibbles_def)

lemma unnibble_nibbles [simp]: "unnibble (nibbles s) = s"
proof (induction s)
  case (Cons c s)
  have "(of_char c div 16) * 16 + of_char c mod 16 = (of_char c :: nat)" by simp
  with Cons show ?case
    by (simp add: nibbles_def Let_def of_char_nibbles del: of_char_of)
qed (simp add: nibbles_def)

lemma nibbles_no_dot: "CHR ''.'' \<notin> set (nibbles s)"
  using nibble_chars [of s] by (auto simp: list_all_iff)

lemma nibbles_no_space: "list_all (\<lambda>ch. \<not> py_isspace ch) (nibbles s)"
  using nibble_chars [of s] by (auto simp: list_all_iff py_isspace_def Let_def)

lemma nibbles_ascii: "utf8 (nibbles s) = nibbles s"
proof -
  have "list_all (\<lambda>ch. (of_char ch :: nat) < 128) t \<Longrightarrow> utf8 t = t" for t
    by (induction t) (simp_all add: utf8_def Let_def)
  moreover have "list_all (\<lambda>ch. (of_char ch :: nat) < 128) (nibbles s)"
    using nibble_chars [of s] by (auto simp: list_all_iff)
  ultimately show ?thesis by blast
qed

lemma sample_bcrypt_ok: "bcrypt_ok sample_crypto" "checkpw_raises_value_or_type sample_crypto"
  by (simp_all add: bcrypt_ok_def checkpw_raises_value_or_type_def sample_crypto_def nibbles_ascii)

lemma sample_jwt_ok: "jwt_ok sample_crypto"
proof -
  have nd: "\<forall>w \<in> set (map nibbles ws). CHR ''.'' \<notin> set w" for ws
    using nibbles_no_dot by auto
  have "sample_decode (sample_encode (token_claims sub role iat ex) key) key now =
      (if now < seconds ex then Some (token_claims sub role iat ex) else None)"
    if "seconds iat \<le> now" for sub role iat ex key now
    using that py_split_join [OF _ nd [of "[key, sub, role, int_str iat, int_str ex]"]]
    by (simp add: sample_decode_def sample_encode_def claim_text_def token_claims_def)
  moreover have "sample_encode c key \<noteq> []" "list_all (\<lambda>ch. \<not> py_isspace ch) (sample_encode c key)" for c key
    using nibbles_no_space by (simp_all add: sample_encode_def py_isspace_def)
  ultimately show ?thesis by (simp add: jwt_ok_def sample_crypto_def)
qed


section \<open>Guards in front of handlers\<close>

text \<open>
  The contract of a route behind dependencies: a refusal is answered without running the
  handler, and a route that let the request through is its handler.
\<close>

locale guarded_route =
  fixes guard :: "'q \<Rightarrow> unit result"
    and handler :: "'q \<Rightarrow> 'db \<Rightarrow> 'out"
    and refuse :: "py_exn \<Rightarrow> 'db \<Rightarrow> 'out"
    and route :: "'q \<Rightarrow> 'db \<Rightarrow> 'out"
  assumes route_refused: "guard q = Inl e \<Longrightarrow> route q db = refuse e db"
    and route_admitted: "guard q = Inr () \<Longrightarrow> route q db = handler q db"
begin

lemma route_cases:
  "(\<exists>e. guard q = Inl e \<and> route q db = refuse e db) \<or> (guard q = Inr () \<and> route q db = handler q db)"
  by (cases "guard q") (auto simp: route_refused route_admitted)

lemma effect_needs_guard: "(\<And>e. route q db \<noteq> refuse e db) \<Longrightarrow> guard q = Inr ()"
  using route_cases [of q db] by auto

end

type_synonym command_request =
  "(instant \<times> string option \<times> string option \<times> string option) \<times> string \<times> int \<times> command_create"

fun send_guard :: "crypto \<Rightarrow> settings \<Rightarrow> command_request \<Rightarrow> unit result" where
  "send_guard lib cfg ((now, key, ticket, authz), cid, rid, cmd) =
     bindR (verify_console_access lib cfg now key ticket)
       (\<lambda>_. bindR (bindR (current_principal lib cfg now authz) (require_role ''operator'')) (\<lambda>_. Inr ()))"

fun send_handler ::
  "(robot_command list \<Rightarrow> robot_command list) \<Rightarrow> command_request \<Rightarrow> cmd_db \<Rightarrow> json_obj result \<times> cmd_db"
where
  "send_handler scan ((now, key, ticket, authz), cid, rid, cmd) db =
     (case create_command scan cid now rid cmd db of
        (Inl e, db') \<Rightarrow> (Inl e, db')
      | (Inr payload, db') \<Rightarrow> (Inr [(''message'', JStr ''Command sent''), (''payload'', JObj payload)], db'))"

fun send_route ::
  "crypto \<Rightarrow> settings \<Rightarrow> (robot_command list \<Rightarrow> robot_command list) \<Rightarrow> command_request \<Rightarrow> cmd_db
   \<Rightarrow> json_obj result \<times> cmd_db"
where
  "send_route lib cfg scan ((now, key, ticket, authz), cid, rid, cmd) db =
     send_command lib cfg scan cid now key ticket authz rid cmd db"

interpretation sending: guarded_route "send_guard lib cfg" "send_handler scan" "\<lambda>e db. (Inl e, db)" "send_route lib cfg scan"
proof
  fix q :: command_request and e db
  obtain now key ticket authz cid rid cmd where q: "q = ((now, key, ticket, authz), cid, rid, cmd)"
    by (metis surj_pair)
  show "send_guard lib cfg q = Inl e \<Longrightarrow> send_route lib cfg scan q db = (Inl e, db)"
    by (auto simp: q send_command_def bindR_eq_Inl split: sum.splits)
  show "send_guard lib cfg q = Inr () \<Longrightarrow> send_route lib cfg scan q db = send_handler scan q db"
    by (auto simp: q send_command_def bindR_eq_Inr)
qed

interpretation claiming_route: guarded_route
  "\<lambda>(key, rid, clock). verify_api_key cfg key"
  "\<lambda>(key, rid, clock) db. map_option (\<lambda>(claimed, db'). (Inr claimed :: json_obj list result, db')) (claim_pending_commands scan rid clock db)"
  "\<lambda>e db. Some (Inl e, db)"
  "\<lambda>(key, rid, clock) db. claim_commands cfg scan clock key rid db"
  by unfold_locales (auto simp: claim_commands_def)

interpretation patching: guarded_route
  "\<lambda>(key, cid, upd, now). verify_api_key cfg key"
  "\<lambda>(key, cid, upd, now) db. (case update_status cid upd now db of
       (Inl e, db') \<Rightarrow> (Inl e, db')
     | (Inr payload, db') \<Rightarrow> (Inr [(''message'', JStr ''Command status updated''), (''payload'', JObj payload)], db'))"
  "\<lambda>e db. (Inl e, db)"
  "\<lambda>(key, cid, upd, now) db. update_command_status cfg now key cid upd db"
  by unfold_locales (auto simp: update_command_status_def)

section \<open>Lemmas\<close>

lemma role_satisfies_operator: "role_satisfies r ''operator'' \<longleftrightarrow> r = ''operator'' \<or> r = ''admin''"
  by (simp add: role_satisfies_def rank_def)

lemma is_valid_api_key_True: "is_valid_api_key cfg k = Inr True \<longleftrightarrow>
    k = Some (telemetry_api_key cfg) \<and> telemetry_api_key cfg \<noteq> [] \<and> is_ascii (telemetry_api_key cfg)"
  by (cases k) (auto simp: is_valid_api_key_def compare_digest_def)

lemma verify_api_key_Inr: "verify_api_key cfg k = Inr () \<longleftrightarrow> is_valid_api_key cfg k = Inr True"
  by (auto simp: verify_api_key_def bindR_eq_Inr split: if_splits)

lemma verify_console_access_Inr: "verify_console_access lib cfg now k t = Inr () \<longleftrightarrow>
    is_valid_api_key cfg k = Inr True \<or>
    (is_valid_api_key cfg k = Inr False \<and> verify_ticket (c_mac lib) cfg t SCOPE_CONSOLE now = Inr True)"
  by (auto simp: verify_console_access_def bindR_eq_Inr split: if_splits)

lemma in_rank_True: "in_rank v = Inr True \<longleftrightarrow> (\<exists>r. v = Some (JStr r) \<and> rank r \<noteq> None)"
proof (cases v)
  case (Some j)
  then show ?thesis by (cases j) (simp_all add: in_rank_def)
qed (simp add: in_rank_def)

lemma decode_access_token_Some:
  "decode_access_token lib cfg token now = Inr (Some claims) \<longleftrightarrow>
     c_jwt_decode lib token (signing_key lib cfg) now = Some claims \<and> get_truthy claims ''sub''
     \<and> (\<exists>r. dict_get claims ''role'' = Some (JStr r) \<and> rank r \<noteq> None)"
proof (cases "c_jwt_decode lib token (signing_key lib cfg) now")
  case (Some c)
  have "bindR x (\<lambda>ok. Inr (if ok then Some c else None)) = Inr (Some claims) \<longleftrightarrow> x = Inr True \<and> c = claims" for x
    by (cases x) auto
  with Some show ?thesis
    by (auto simp: decode_access_token_def in_rank_True)
qed (simp add: decode_access_token_def)

lemma current_principal_Inr:
  "current_principal lib cfg now authz = Inr p \<longleftrightarrow>
     (bearer_token authz = None \<and> \<not> auth_required cfg \<and> p = anonymous) \<or>
     (\<exists>token claims. bearer_token authz = Some token
        \<and> decode_access_token lib cfg token now = Inr (Some claims)
        \<and> p = \<lparr>p_username = claim_sub claims, p_role = claim_role claims, p_authenticated = True\<rparr>)"
  by (auto simp: current_principal_def bindR_eq_Inr split: option.splits if_splits)

lemma bearer_token_scheme:
  assumes "py_lower scheme = ''bearer''" "token \<noteq> []" "list_all (\<lambda>ch. \<not> py_isspace ch) token"
  shows "bearer_token (Some (scheme @ CHR '' '' # token)) = Some token"
proof -
  have "py_lower_char (CHR '' '') = CHR '' ''" by (simp add: py_lower_char_def)
  then have "CHR '' '' \<in> set scheme \<Longrightarrow> CHR '' '' \<in> set (py_lower scheme)"
    by (force simp: py_lower_def)
  then have "CHR '' '' \<notin> set scheme"
    using assms(1) by auto
  then have "\<forall>ch \<in> set scheme. ch \<noteq> CHR '' ''" by blast
  then have "takeWhile (\<lambda>ch. ch \<noteq> CHR '' '') (scheme @ CHR '' '' # token) = scheme"
    by (simp add: takeWhile_append)
  then show ?thesis
    using assms by (simp add: bearer_token_def Let_def py_strip_none)
qed

lemma unix_seconds_le: "0 \<le> t \<Longrightarrow> seconds (unix_seconds t) \<le> t"
  by (simp add: unix_seconds_def seconds_def)


lemma issue_access_token_Inr:
  "issue_access_token lib cfg name role ttl now = Inr (token, ex) \<Longrightarrow>
   token = c_jwt_encode lib (token_claims name role (unix_seconds now) ex) (signing_key lib cfg)"
  by (auto simp: issue_access_token_def Let_def bindR_eq_Inr)

lemma token_resolves:
  assumes jwt: "jwt_ok lib" and t0: "0 \<le> t0" "t0 \<le> now" and sub: "name \<noteq> []" and role: "rank role \<noteq> None"
    and iss: "issue_access_token lib cfg name role ttl t0 = Inr (token, ex)"
    and scheme: "py_lower scheme = ''bearer''"
  shows "current_principal lib cfg now (Some (scheme @ CHR '' '' # token)) =
    (if now < seconds ex
     then Inr \<lparr>p_username = JStr name, p_role = role, p_authenticated = True\<rparr>
     else Inl (HTTPException 401 ''Invalid or expired token''))"
proof -
  let ?c = "token_claims name role (unix_seconds t0) ex"
  have tok: "token = c_jwt_encode lib ?c (signing_key lib cfg)"
    using iss by (rule issue_access_token_Inr)
  have "seconds (unix_seconds t0) \<le> now" using unix_seconds_le t0 by force
  then have dec: "c_jwt_decode lib token (signing_key lib cfg) now = (if now < seconds ex then Some ?c else None)"
    using jwt by (simp add: jwt_ok_def tok)
  have "bearer_token (Some (scheme @ CHR '' '' # token)) = Some token"
    using jwt by (intro bearer_token_scheme scheme) (simp_all add: tok jwt_ok_def)
  moreover have "get_truthy ?c ''sub''" "dict_get ?c ''role'' = Some (JStr role)"
    using sub by (simp_all add: token_claims_def get_truthy_def)
  ultimately show ?thesis
    using role dec
    by (simp add: current_principal_def decode_access_token_def in_rank_def claim_sub_def claim_role_def)
       (simp add: token_claims_def)
qed

lemma get_by_username_Some: "get_by_username n t = Some u \<Longrightarrow> u \<in> set t \<and> u_username u = n"
  unfolding get_by_username_def by (drule find_Some_mem) simp

lemma verify_password_total:
  "checkpw_raises_value_or_type lib \<Longrightarrow> \<exists>b. verify_password lib p h = Inr b"
  by (auto simp: verify_password_def checkpw_raises_value_or_type_def split: sum.splits)

section \<open>Properties\<close>

definition sample_user :: user where
  "sample_user = \<lparr>u_id = 1, u_username = ''ada'', u_password_hash = nibbles ''pw'', u_role = ''viewer'',
     u_is_active = True, u_created_at = 0, u_last_login_at = None\<rparr>"

definition required_settings :: settings where
  "required_settings = demo_settings\<lparr>auth_mode := None\<rparr>"

lemma sample_pw: "verify_password sample_crypto ''pw'' (u_password_hash sample_user) = Inr True"
  "verify_password sample_crypto ''no'' (u_password_hash sample_user) = Inr False"
proof -
  have "utf8 ''pw'' = ''pw''" "utf8 ''no'' = ''no''" by (simp_all add: utf8_def)
  then show "verify_password sample_crypto ''pw'' (u_password_hash sample_user) = Inr True"
    "verify_password sample_crypto ''no'' (u_password_hash sample_user) = Inr False"
    by (simp_all add: verify_password_def sample_crypto_def sample_user_def nibbles_ascii)
qed

lemma required_settings_auth [simp]: "auth_required required_settings"
  by code_simp

text \<open>
  C18: A command can be queued only by a client that holds the master key or an accepted
  console ticket, and on behalf of a person who is an operator or an admin; with accounts
  required that person is named by an access token that decodes under the server's key, so
  even the master key alone queues nothing. Any other request is answered with an error and
  leaves the command table and the outgoing messages untouched.
\<close>

theorem send_command_authorised:
  assumes run: "send_command lib cfg scan cid now key ticket authz rid cmd db = (r, db')"
    and effect: "(\<exists>p. r = Inr p) \<or> db' \<noteq> db"
  shows "(key = Some (telemetry_api_key cfg) \<or> verify_ticket (c_mac lib) cfg ticket SCOPE_CONSOLE now = Inr True)
    \<and> (\<exists>who. current_principal lib cfg now authz = Inr who \<and> p_role who \<in> {''operator'', ''admin''})
    \<and> (auth_required cfg \<longrightarrow> (\<exists>token claims. bearer_token authz = Some token
         \<and> c_jwt_decode lib token (signing_key lib cfg) now = Some claims
         \<and> claim_role claims \<in> {''operator'', ''admin''}))"
proof -
  have "\<And>e. send_route lib cfg scan ((now, key, ticket, authz), cid, rid, cmd) db \<noteq> (Inl e, db)"
    using run effect by auto
  from sending.effect_needs_guard [OF this]
  have "send_guard lib cfg ((now, key, ticket, authz), cid, rid, cmd) = Inr ()" .
  then obtain who where access: "verify_console_access lib cfg now key ticket = Inr ()"
    and who: "current_principal lib cfg now authz = Inr who" "role_satisfies (p_role who) ''operator''"
    by (auto simp: bindR_eq_Inr require_role_def split: if_splits)
  from access have "key = Some (telemetry_api_key cfg) \<or> verify_ticket (c_mac lib) cfg ticket SCOPE_CONSOLE now = Inr True"
    by (auto simp: verify_console_access_Inr is_valid_api_key_True)
  moreover from who have "p_role who \<in> {''operator'', ''admin''}" by (simp add: role_satisfies_operator)
  moreover from this who(1) have "\<exists>token claims. bearer_token authz = Some token
         \<and> c_jwt_decode lib token (signing_key lib cfg) now = Some claims
         \<and> claim_role claims \<in> {''operator'', ''admin''}" if "auth_required cfg"
    using that by (fastforce simp: current_principal_Inr decode_access_token_Some)
  ultimately show ?thesis using who(1) by blast
qed

definition operator_token :: string where
  "operator_token = c_jwt_encode sample_crypto (token_claims ''ada'' ''operator'' 0 3600)
     (signing_key sample_crypto required_settings)"

definition empty_db :: cmd_db where
  "empty_db = \<lparr>commands = [], outbox = []\<rparr>"

lemma operator_issued: "issue_access_token sample_crypto required_settings ''ada'' ''operator'' None 0 = Inr (operator_token, 3600)"
proof -
  have "jwt_ttl_seconds required_settings = 3600"
    by (simp add: required_settings_def demo_settings_def default_settings_def)
  then show ?thesis
    by (simp add: issue_access_token_def operator_token_def add_seconds_def seconds_def unix_seconds_def)
qed

lemma operator_principal:
  "current_principal sample_crypto required_settings 1000000 (Some (''Bearer '' @ operator_token)) =
     Inr \<lparr>p_username = JStr ''ada'', p_role = ''operator'', p_authenticated = True\<rparr>"
proof -
  have "py_lower ''Bearer'' = ''bearer''" by code_simp
  from token_resolves [OF sample_jwt_ok _ _ _ _ operator_issued this, of 1000000]
  show ?thesis by (simp add: rank_def seconds_def)
qed

theorem send_command_authorised_witness:
  "\<exists>token claims. bearer_token (Some (''Bearer '' @ operator_token)) = Some token
     \<and> c_jwt_decode sample_crypto token (signing_key sample_crypto required_settings) 1000000 = Some claims
     \<and> claim_role claims \<in> {''operator'', ''admin''}"
proof -
  let ?run = "send_command sample_crypto required_settings (\<lambda>t. t) ''c9'' 1000000 (Some ''0123456789abcdef'') None
      (Some (''Bearer '' @ operator_token)) 7 sample_create empty_db"
  have "is_valid_api_key required_settings (Some ''0123456789abcdef'') = Inr True"
    by code_simp
  then have "verify_console_access sample_crypto required_settings 1000000 (Some ''0123456789abcdef'') None = Inr ()"
    by (simp add: verify_console_access_Inr)
  then have "\<exists>p. fst ?run = Inr p"
    by (simp add: send_command_def operator_principal [simplified] require_role_def role_satisfies_operator create_command_def
        expires_at_of_def sample_create_def add_seconds_def seconds_def empty_db_def insert_command_def
        command_columns_ok_def new_command_def fits_def int4_def Let_def)
  with send_command_authorised [of sample_crypto required_settings "\<lambda>t. t" "''c9''" 1000000
      "Some ''0123456789abcdef''" None "Some (''Bearer '' @ operator_token)" 7 sample_create empty_db "fst ?run" "snd ?run"]
  show ?thesis by (simp only: prod.collapse required_settings_auth simp_thms)
qed

text \<open>
  C29: Signing in and then acting: the token \<open>login\<close> returns, presented as a bearer token,
  resolves to that account's name and role at every time from sign-in until the returned
  expiry, and from the expiry on it is refused with 401.
\<close>

theorem login_token_roundtrip:
  assumes "jwt_ok lib" and "0 \<le> t0" and "t0 \<le> now"
    and "lr_username cred \<noteq> []"
    and "login lib cfg dummy touch t0 cred users = (Inr r, users')"
    and "rank (tr_role r) \<noteq> None"
  shows "tr_username r = lr_username cred \<and>
    current_principal lib cfg now (Some (''Bearer '' @ tr_access_token r)) =
      (if now < seconds (tr_expires_at r)
       then Inr \<lparr>p_username = JStr (lr_username cred), p_role = tr_role r, p_authenticated = True\<rparr>
       else Inl (HTTPException 401 ''Invalid or expired token''))"
proof -
  from assms(5) obtain user where u: "get_by_username (lr_username cred) users = Some user"
    and iss: "issue_access_token lib cfg (u_username user) (u_role user) None t0 = Inr (tr_access_token r, tr_expires_at r)"
    and r: "tr_username r = u_username user" "tr_role r = u_role user"
    by (auto simp: login_def bindR_eq_Inr split: if_splits option.splits sum.splits)
  have nm: "u_username user = lr_username cred" using get_by_username_Some [OF u] by simp
  have b: "py_lower ''Bearer'' = ''bearer''" by code_simp
  have "current_principal lib cfg now (Some (''Bearer'' @ CHR '' '' # tr_access_token r)) =
      (if now < seconds (tr_expires_at r)
       then Inr \<lparr>p_username = JStr (u_username user), p_role = u_role user, p_authenticated = True\<rparr>
       else Inl (HTTPException 401 ''Invalid or expired token''))"
    using assms nm r by (intro token_resolves [OF _ _ _ _ _ iss b]) auto
  with nm r show ?thesis by simp
qed

lemma sample_login:
  "login sample_crypto required_settings [] True 0 \<lparr>lr_username = ''ada'', lr_password = ''pw''\<rparr> [sample_user] =
     (Inr \<lparr>tr_access_token = c_jwt_encode sample_crypto (token_claims ''ada'' ''viewer'' 0 3600)
             (signing_key sample_crypto required_settings),
           tr_token_type = ''bearer'', tr_expires_at = 3600, tr_username = ''ada'', tr_role = ''viewer''\<rparr>,
      [sample_user\<lparr>u_last_login_at := Some 0\<rparr>])"
proof -
  have "jwt_ttl_seconds required_settings = 3600"
    by (simp add: required_settings_def demo_settings_def default_settings_def)
  moreover have "get_by_username ''ada'' [sample_user] = Some sample_user"
    by (simp add: get_by_username_def sample_user_def)
  moreover have "u_username sample_user = ''ada''" "u_role sample_user = ''viewer''" "u_is_active sample_user"
    by (simp_all add: sample_user_def)
  ultimately show ?thesis
    by (simp add: login_def sample_pw issue_access_token_def add_seconds_def seconds_def unix_seconds_def
        touch_last_login_def update_where_def)
qed

theorem login_token_roundtrip_witness:
  "current_principal sample_crypto required_settings 3599999999
     (Some (''Bearer '' @ c_jwt_encode sample_crypto (token_claims ''ada'' ''viewer'' 0 3600)
        (signing_key sample_crypto required_settings))) =
     Inr \<lparr>p_username = JStr ''ada'', p_role = ''viewer'', p_authenticated = True\<rparr>"
  using login_token_roundtrip [OF sample_jwt_ok _ _ _ sample_login, of 3599999999]
  by (simp add: rank_def seconds_def)

definition without_login_time :: "user \<Rightarrow> user" where
  "without_login_time u = u\<lparr>u_last_login_at := None\<rparr>"

text \<open>
  What a sign-in establishes. A token is handed out only to an active account of the
  given name whose stored hash matches the password, with that account's role, and the only
  thing written is the time of the sign-in. An unknown name and a wrong password are answered
  by the very same response and write nothing.
\<close>

theorem login_correct:
  assumes chk: "checkpw_raises_value_or_type lib" and req: "auth_required cfg"
  shows "(\<forall>r users'. login lib cfg dummy touch now cred users = (Inr r, users') \<longrightarrow>
            (\<exists>u \<in> set users. u_username u = lr_username cred
               \<and> verify_password lib (lr_password cred) (u_password_hash u) = Inr True
               \<and> u_is_active u \<and> tr_role r = u_role u)
            \<and> map without_login_time users' = map without_login_time users)
    \<and> ((\<forall>u \<in> set users. u_username u = lr_username cred \<longrightarrow>
            verify_password lib (lr_password cred) (u_password_hash u) = Inr False) \<longrightarrow>
         login lib cfg dummy touch now cred users = (Inl bad_login, users))"
proof (intro conjI allI impI)
  fix r users'
  assume run: "login lib cfg dummy touch now cred users = (Inr r, users')"
  then obtain u where u: "get_by_username (lr_username cred) users = Some u"
    and pw: "verify_password lib (lr_password cred) (u_password_hash u) = Inr True" "u_is_active u" "tr_role r = u_role u"
    and t: "users' = (if touch then touch_last_login (u_id u) now users else users)"
    by (auto simp: login_def bindR_eq_Inr split: if_splits option.splits sum.splits)
  show "\<exists>u \<in> set users. u_username u = lr_username cred
               \<and> verify_password lib (lr_password cred) (u_password_hash u) = Inr True
               \<and> u_is_active u \<and> tr_role r = u_role u"
    using get_by_username_Some [OF u] pw by blast
  show "map without_login_time users' = map without_login_time users"
    by (simp add: t touch_last_login_def map_update_where without_login_time_def)
next
  assume bad: "\<forall>u \<in> set users. u_username u = lr_username cred \<longrightarrow>
      verify_password lib (lr_password cred) (u_password_hash u) = Inr False"
  show "login lib cfg dummy touch now cred users = (Inl bad_login, users)"
  proof (cases "get_by_username (lr_username cred) users")
    case None
    obtain b where "verify_password lib (lr_password cred) dummy = Inr b"
      using verify_password_total [OF chk] by blast
    with None req show ?thesis by (simp add: login_def)
  next
    case (Some u)
    with bad get_by_username_Some [OF Some] req show ?thesis by (simp add: login_def)
  qed
qed

theorem login_correct_witness:
  "login sample_crypto required_settings [] True 0 \<lparr>lr_username = ''bob'', lr_password = ''pw''\<rparr> [sample_user]
     = (Inl bad_login, [sample_user])
   \<and> login sample_crypto required_settings [] True 0 \<lparr>lr_username = ''ada'', lr_password = ''no''\<rparr> [sample_user]
     = (Inl bad_login, [sample_user])"
proof
  have ada: "u_username sample_user = ''ada''" by (simp add: sample_user_def)
  show "login sample_crypto required_settings [] True 0 \<lparr>lr_username = ''bob'', lr_password = ''pw''\<rparr> [sample_user]
     = (Inl bad_login, [sample_user])"
    using login_correct [OF sample_bcrypt_ok(2) required_settings_auth, of "[]" True 0
      "\<lparr>lr_username = ''bob'', lr_password = ''pw''\<rparr>" "[sample_user]"] ada by simp
  show "login sample_crypto required_settings [] True 0 \<lparr>lr_username = ''ada'', lr_password = ''no''\<rparr> [sample_user]
     = (Inl bad_login, [sample_user])"
    using login_correct [OF sample_bcrypt_ok(2) required_settings_auth, of "[]" True 0
      "\<lparr>lr_username = ''ada'', lr_password = ''no''\<rparr>" "[sample_user]"] sample_pw by simp
qed

text \<open>
  Any number of API processes booting at once: a schedule names the process that runs its next
  statement, with the salt, the serial key and the clock it gets.
\<close>

fun bootstrap_run ::
  "crypto \<Rightarrow> settings \<Rightarrow> (nat \<times> string \<times> int \<times> instant) list \<Rightarrow> (nat \<Rightarrow> bootstrap_pc) \<times> user list
   \<Rightarrow> (nat \<Rightarrow> bootstrap_pc) \<times> user list"
where
  "bootstrap_run lib cfg [] st = st"
| "bootstrap_run lib cfg ((w, salt, uid, now) # sched) (pcs, t) =
     (let (pc', t') = bootstrap_step lib cfg salt uid now (pcs w) t
      in bootstrap_run lib cfg sched (pcs(w := pc'), t'))"

definition bootstrap_fits :: "crypto \<Rightarrow> settings \<Rightarrow> bool" where
  "bootstrap_fits lib cfg \<longleftrightarrow>
     auth_required cfg \<and> truthy_str (bootstrap_admin_username cfg) \<and> truthy_str (bootstrap_admin_password cfg)
     \<and> length (the (bootstrap_admin_username cfg)) \<le> 64
     \<and> length (utf8 (the (bootstrap_admin_password cfg))) \<le> 72
     \<and> (\<forall>salt. length (c_hashpw lib (utf8 (the (bootstrap_admin_password cfg))) salt) \<le> 128)"

definition bootstrap_admin :: "crypto \<Rightarrow> settings \<Rightarrow> user \<Rightarrow> bool" where
  "bootstrap_admin lib cfg u \<longleftrightarrow>
     u_username u = the (bootstrap_admin_username cfg) \<and> u_role u = ''admin'' \<and> u_is_active u
     \<and> verify_password lib (the (bootstrap_admin_password cfg)) (u_password_hash u) = Inr True"

definition bootstrap_inv :: "crypto \<Rightarrow> settings \<Rightarrow> (nat \<Rightarrow> bootstrap_pc) \<Rightarrow> user list \<Rightarrow> bool" where
  "bootstrap_inv lib cfg pcs t \<longleftrightarrow>
     (t = [] \<and> (bootstrap_fits lib cfg \<longrightarrow> (\<forall>w. pcs w \<noteq> BDone))) \<or> (\<exists>u. t = [u] \<and> bootstrap_admin lib cfg u)"

lemma hashed_verifies:
  "bcrypt_ok lib \<Longrightarrow> hash_password lib salt p = Inr h \<Longrightarrow> verify_password lib p h = Inr True"
  by (auto simp: hash_password_def verify_password_def bcrypt_ok_def Let_def split: if_splits)

lemma bootstrap_create_empty:
  assumes "bcrypt_ok lib" "bootstrap_step lib cfg salt uid now BCreate [] = (pc', t')"
  shows "(t' = [] \<and> \<not> bootstrap_fits lib cfg) \<or> (\<exists>u. t' = [u] \<and> bootstrap_admin lib cfg u)"
proof (cases "hash_password lib salt (the (bootstrap_admin_password cfg))")
  case (Inl e)
  then show ?thesis
    using assms(2) by (auto simp: hash_password_def Let_def bootstrap_fits_def split: if_splits)
next
  case (Inr h)
  then have "h = c_hashpw lib (utf8 (the (bootstrap_admin_password cfg))) salt"
    by (auto simp: hash_password_def Let_def split: if_splits)
  then have "bootstrap_fits lib cfg \<Longrightarrow> length h \<le> 128 \<and> length (the (bootstrap_admin_username cfg)) \<le> 64"
    by (simp add: bootstrap_fits_def)
  with Inr hashed_verifies [OF assms(1) Inr] assms(2) show ?thesis
    by (auto simp: create_user_def bootstrap_admin_def split: if_splits)
qed

lemma bootstrap_create_taken:
  assumes "bootstrap_admin lib cfg u" "bootstrap_step lib cfg salt uid now BCreate [u] = (pc', t')"
  shows "t' = [u]"
  using assms by (auto simp: bootstrap_admin_def create_user_def split: sum.splits if_splits)

lemma bootstrap_step_inv:
  assumes bc: "bcrypt_ok lib" and inv: "bootstrap_inv lib cfg pcs t"
    and step: "bootstrap_step lib cfg salt uid now (pcs w) t = (pc', t')"
  shows "bootstrap_inv lib cfg (pcs(w := pc')) t'"
proof (cases "pcs w")
  case BCount
  with inv step show ?thesis
    by (auto simp: bootstrap_inv_def bootstrap_fits_def split: if_splits)
next
  case BCreate
  with inv step bootstrap_create_empty [OF bc] bootstrap_create_taken show ?thesis
    unfolding bootstrap_inv_def by metis
next
  case BDone
  with inv step show ?thesis by (auto simp: bootstrap_inv_def)
qed

lemma bootstrap_run_inv:
  assumes "bcrypt_ok lib" "bootstrap_inv lib cfg pcs t" "bootstrap_run lib cfg sched (pcs, t) = (pcs', t')"
  shows "bootstrap_inv lib cfg pcs' t'"
  using assms
proof (induction sched arbitrary: pcs t)
  case (Cons a sched)
  obtain w salt uid now where a: "a = (w, salt, uid, now)" by (cases a)
  obtain pc1 t1 where s: "bootstrap_step lib cfg salt uid now (pcs w) t = (pc1, t1)" by fastforce
  from bootstrap_step_inv [OF Cons.prems(1,2) s] Cons.IH [OF Cons.prems(1)] Cons.prems(3) a s
  show ?case by simp
qed simp

lemma bootstrap_run_occupied:
  assumes "t \<noteq> []" "\<forall>w. pcs w \<noteq> BCreate" "bootstrap_run lib cfg sched (pcs, t) = (pcs', t')"
  shows "t' = t"
  using assms
proof (induction sched arbitrary: pcs)
  case (Cons a sched)
  obtain w salt uid now where a: "a = (w, salt, uid, now)" by (cases a)
  have "bootstrap_step lib cfg salt uid now (pcs w) t = (BDone, t)"
    using Cons.prems(1,2) by (cases "pcs w") auto
  with Cons.prems(3) a have "bootstrap_run lib cfg sched (pcs(w := BDone), t) = (pcs', t')" by simp
  moreover have "\<forall>v. (pcs(w := BDone)) v \<noteq> BCreate" using Cons.prems(2) by simp
  ultimately show ?case using Cons.IH Cons.prems(1) by blast
qed simp


definition boot_settings :: settings where
  "boot_settings = required_settings\<lparr>bootstrap_admin_username := Some ''root'', bootstrap_admin_password := Some ''pw''\<rparr>"


lemma is_ascii_append [simp]: "is_ascii (s @ t) \<longleftrightarrow> is_ascii s \<and> is_ascii t"
  by (simp add: is_ascii_def)

lemma issued_ticket_ascii:
  assumes "mac_hex mac" "urlsafe nonce" "is_ascii scope"
  shows "is_ascii (fst (issue_ticket mac cfg scope ttl now nonce))"
proof -
  have i: "is_ascii (int_str i)" for i
    using nat_str_digits by (auto simp: int_str_def is_ascii_def list_all_iff dest!: is_digit_ascii)
  have n: "is_ascii nonce"
    using assms(2) by (auto simp: urlsafe_def is_ascii_def list_all_iff dest: is_digit_ascii)
  have d: "is_ascii (field_sep # s) \<longleftrightarrow> is_ascii s" for s by (simp add: is_ascii_def)
  have v: "is_ascii ticket_version" by (simp add: is_ascii_def ticket_version_def)
  show ?thesis
    using assms i n v by (simp add: issue_ticket_def Let_def sign_def mac_hex_ascii d)
qed

text \<open>
  From the ticket endpoint to the console: with accounts required a ticket is issued only
  to a caller whose token decodes; the ticket opens the console exactly until its expiry; and
  it never passes the check that guards telemetry ingest, claims and status reports.
\<close>

theorem console_ticket_opens_console_only:
  assumes hex: "mac_hex (c_mac lib)" and nonce: "urlsafe nonce"
    and key: "is_ascii (telemetry_api_key cfg)" "telemetry_api_key cfg \<noteq> ticket"
    and made: "create_console_ticket lib cfg t0 nonce authz x_api_key = Inr (ticket, expires_at, scope)"
  shows "verify_console_access lib cfg now None (Some ticket) =
           (if now < seconds expires_at then Inr () else Inl (HTTPException 401 ''Invalid API key or console ticket''))
    \<and> verify_api_key cfg (Some ticket) = Inl (HTTPException 401 ''Invalid API Key'')
    \<and> expires_at = unix_seconds t0 + ticket_ttl_seconds cfg
    \<and> (auth_required cfg \<longrightarrow> (\<exists>token claims. bearer_token authz = Some token
         \<and> c_jwt_decode lib token (signing_key lib cfg) t0 = Some claims))"
proof -
  from made obtain who where who: "current_principal lib cfg t0 authz = Inr who"
    and iss: "issue_ticket (c_mac lib) cfg SCOPE_CONSOLE None t0 nonce = (ticket, expires_at)"
    by (auto simp: create_console_ticket_def bindR_eq_Inr Let_def split: prod.splits)
  have sc: "CHR ''.'' \<notin> set SCOPE_CONSOLE" "is_ascii SCOPE_CONSOLE"
    by (simp_all add: SCOPE_CONSOLE_def is_ascii_def)
  have sp: "py_split field_sep ticket = [ticket_version, SCOPE_CONSOLE, int_str expires_at, nonce,
      sign (c_mac lib) cfg (py_join field_sep [ticket_version, SCOPE_CONSOLE, int_str expires_at, nonce])]"
    using issued_split [OF hex nonce sc(1), of cfg None t0] iss by (simp add: Let_def)
  have "verify_ticket (c_mac lib) cfg (Some ticket) SCOPE_CONSOLE now = Inr (now < seconds expires_at)"
    unfolding verify_ticket_split [OF sp] using sc hex by (simp add: compare_digest_def sign_def mac_hex_ascii)
  then have "verify_console_access lib cfg now None (Some ticket) =
      (if now < seconds expires_at then Inr () else Inl (HTTPException 401 ''Invalid API key or console ticket''))"
    by (simp add: verify_console_access_def is_valid_api_key_def)
  moreover have "ticket \<noteq> []" "is_ascii ticket"
    using sp issued_ticket_ascii [OF hex nonce sc(2), of cfg None t0] iss by auto
  then have "verify_api_key cfg (Some ticket) = Inl (HTTPException 401 ''Invalid API Key'')"
    using key by (simp add: verify_api_key_def is_valid_api_key_def compare_digest_def not_sym)
  moreover have "expires_at = unix_seconds t0 + ticket_ttl_seconds cfg"
    using iss by (auto simp: issue_ticket_def Let_def)
  moreover have "auth_required cfg \<Longrightarrow> \<exists>token claims. bearer_token authz = Some token
      \<and> c_jwt_decode lib token (signing_key lib cfg) t0 = Some claims"
    using who by (auto simp: current_principal_Inr decode_access_token_Some)
  ultimately show ?thesis by blast
qed

theorem console_ticket_opens_console_only_witness:
  "\<exists>ticket. create_console_ticket sample_crypto required_settings 1000000 ''n1'' (Some (''Bearer '' @ operator_token)) None
       = Inr (ticket, 301, ''console'')
     \<and> verify_console_access sample_crypto required_settings 300999999 None (Some ticket) = Inr ()"
proof -
  define ticket where "ticket = fst (issue_ticket sample_mac required_settings ''console'' None 1000000 ''n1'')"
  have k: "telemetry_api_key required_settings = ''0123456789abcdef''" "ticket_ttl_seconds required_settings = 300"
    "\<not> require_auth_for_reads required_settings"
    by (simp_all add: required_settings_def demo_settings_def default_settings_def)
  have m: "c_mac sample_crypto = sample_mac" by (simp add: sample_crypto_def)
  have made: "create_console_ticket sample_crypto required_settings 1000000 ''n1'' (Some (''Bearer '' @ operator_token)) None
       = Inr (ticket, 301, ''console'')"
    unfolding create_console_ticket_def operator_principal
    by (simp add: verify_read_access_def k m ticket_def SCOPE_CONSOLE_def issue_ticket_def Let_def unix_seconds_def)
  have ne: "telemetry_api_key required_settings \<noteq> ticket"
    by (simp add: ticket_def k issue_ticket_def Let_def ticket_version_def)
  have "mac_hex (c_mac sample_crypto)" "urlsafe ''n1''" "is_ascii (telemetry_api_key required_settings)"
    by (simp_all add: m sample_mac_hex urlsafe_def is_digit_def is_ascii_def k)
  from console_ticket_opens_console_only [OF this(1,2,3) ne made, of 300999999] made
  show ?thesis by (auto simp: seconds_def)
qed

text \<open>
  A stored password of exactly 72 bytes is also matched by every longer password that
  begins with it: \<open>hash_password\<close> rejects more than 72 bytes but \<open>verify_password\<close> truncates
  to 72, so the extra characters a client sends are ignored.
\<close>

theorem verify_password_truncates:
  assumes "bcrypt_ok lib" and "hash_password lib salt p = Inr h" and "length (utf8 p) = 72"
  shows "verify_password lib (p @ extra) h = Inr True"
proof -
  have "utf8 (p @ extra) = utf8 p @ utf8 extra" by (simp add: utf8_def)
  then show ?thesis
    using assms hashed_verifies [OF assms(1,2)] by (simp add: verify_password_def)
qed

theorem verify_password_truncates_witness:
  "verify_password sample_crypto (replicate 36 (char_of (233 :: nat)) @ ''anything'')
     (nibbles (utf8 (replicate 36 (char_of (233 :: nat))))) = Inr True"
proof -
  have l: "length (utf8 (replicate n (char_of (233 :: nat)))) = 2 * n" for n
    by (induction n) (simp_all add: utf8_def)
  show ?thesis
    by (rule verify_password_truncates [OF sample_bcrypt_ok(1), where salt = "[]"])
       (simp_all add: hash_password_def l sample_crypto_def Let_def)
qed

end
