(* ===== verification/FleetWebsocket.thy ===== *)
theory FleetWebsocket
  imports FleetAuth
begin

text \<open>
  Realtime fan-out (\<open>backend/app/websocket_manager.py\<close>) and the WebSocket endpoint that feeds it
  (\<open>main.websocket_endpoint\<close>). Sockets are numbered. A sender task is its program counter:
  waiting on its queue, or inside \<open>send_json\<close> with one frame. Cancelling a task ends it at
  once. Redis and orjson are parameters: what XADD and XREAD answer, and \<open>loads\<close>.
\<close>

section \<open>Queues\<close>

definition CLIENT_QUEUE_MAXSIZE :: nat where
  "CLIENT_QUEUE_MAXSIZE = 256"

text \<open>\<open>asyncio.Queue.put_nowait\<close> and \<open>get_nowait\<close>: \<open>None\<close> is \<open>QueueFull\<close> or \<open>QueueEmpty\<close>.\<close>

definition put_nowait :: "'a list \<Rightarrow> 'a \<Rightarrow> 'a list option" where
  "put_nowait q x = (if length q < CLIENT_QUEUE_MAXSIZE then Some (q @ [x]) else None)"

definition get_nowait :: "'a list \<Rightarrow> ('a \<times> 'a list) option" where
  "get_nowait q = (case q of [] \<Rightarrow> None | x # q' \<Rightarrow> Some (x, q'))"

text \<open>One client's turn in \<open>_enqueue_to_all_clients\<close>: its queue and how many frames it dropped.\<close>

definition enqueue :: "'a list \<Rightarrow> 'a \<Rightarrow> 'a list \<times> nat" where
  "enqueue q x =
     (case put_nowait q x of
        Some q' \<Rightarrow> (q', 0)
      | None \<Rightarrow>
          (let (q1, d) = (case get_nowait q of Some (_, q') \<Rightarrow> (q', 1) | None \<Rightarrow> (q, 0))
           in case put_nowait q1 x of Some q' \<Rightarrow> (q', d) | None \<Rightarrow> (q1, d + 1)))"

section \<open>The connection manager\<close>

datatype sender_pc = SGet | SSend json

record conn_mgr =
  active_connections :: "nat list"
  queues :: "nat \<Rightarrow> json list option"
  senders :: "nat \<Rightarrow> sender_pc option"
  pending_sends :: "(nat \<times> json) list"
  connections_active :: int
  frames_dropped :: nat

definition new_manager :: conn_mgr where
  "new_manager = \<lparr>active_connections = [], queues = Map.empty, senders = Map.empty, pending_sends = [],
     connections_active = 0, frames_dropped = 0\<rparr>"

definition connection_count :: "conn_mgr \<Rightarrow> nat" where
  "connection_count m = length (active_connections m)"

definition connect :: "settings \<Rightarrow> nat \<Rightarrow> conn_mgr \<Rightarrow> conn_mgr" where
  "connect cfg ws m =
     (let m1 = m\<lparr>active_connections := active_connections m @ [ws]\<rparr>;
          m2 = (if opt_bounded_fanout cfg
                then m1\<lparr>queues := (queues m)(ws \<mapsto> []), senders := (senders m)(ws \<mapsto> SGet)\<rparr> else m1)
      in m2\<lparr>connections_active := connections_active m + 1\<rparr>)"

definition disconnect :: "nat \<Rightarrow> conn_mgr \<Rightarrow> conn_mgr" where
  "disconnect ws m =
     (let m1 = (if ws \<in> set (active_connections m)
                then m\<lparr>active_connections := remove1 ws (active_connections m),
                       connections_active := connections_active m - 1\<rparr> else m)
      in m1\<lparr>queues := (queues m)(ws := None), senders := (senders m)(ws := None)\<rparr>)"

text \<open>
  The two moves of \<open>_sender_loop\<close>: taking the next frame when there is one, and the end of a
  \<open>send_json\<close>, \<open>ok\<close> when it returned; every exception disconnects and ends the loop.
\<close>

definition sender_get :: "nat \<Rightarrow> conn_mgr \<Rightarrow> conn_mgr" where
  "sender_get ws m =
     (case (senders m ws, queues m ws) of
        (Some SGet, Some (x # q)) \<Rightarrow> m\<lparr>queues := (queues m)(ws \<mapsto> q), senders := (senders m)(ws \<mapsto> SSend x)\<rparr>
      | _ \<Rightarrow> m)"

definition sender_sent :: "nat \<Rightarrow> bool \<Rightarrow> conn_mgr \<Rightarrow> conn_mgr" where
  "sender_sent ws ok m =
     (case senders m ws of
        Some (SSend x) \<Rightarrow> if ok then m\<lparr>senders := (senders m)(ws \<mapsto> SGet)\<rparr> else disconnect ws m
      | _ \<Rightarrow> m)"

definition enqueue_client :: "json \<Rightarrow> nat \<Rightarrow> conn_mgr \<Rightarrow> conn_mgr" where
  "enqueue_client data ws m =
     (case queues m ws of
        None \<Rightarrow> m
      | Some q \<Rightarrow> (case enqueue q data of
          (q', d) \<Rightarrow> m\<lparr>queues := (queues m)(ws \<mapsto> q'), frames_dropped := frames_dropped m + d\<rparr>))"

definition enqueue_to_all_clients :: "json \<Rightarrow> conn_mgr \<Rightarrow> conn_mgr" where
  "enqueue_to_all_clients data m = fold (enqueue_client data) (active_connections m) m"

definition spawn_send_tasks :: "json \<Rightarrow> conn_mgr \<Rightarrow> conn_mgr" where
  "spawn_send_tasks data m = m\<lparr>pending_sends := pending_sends m @ map (\<lambda>ws. (ws, data)) (active_connections m)\<rparr>"

text \<open>A baseline send task ends: it leaves the pending set, and a failure disconnects its socket.\<close>

definition send_task_done :: "nat \<times> json \<Rightarrow> bool \<Rightarrow> conn_mgr \<Rightarrow> conn_mgr" where
  "send_task_done t ok m =
     (let m1 = (if ok then m else disconnect (fst t) m) in m1\<lparr>pending_sends := remove1 t (pending_sends m1)\<rparr>)"

definition fan_out :: "settings \<Rightarrow> json \<Rightarrow> conn_mgr \<Rightarrow> conn_mgr" where
  "fan_out cfg data m = (if opt_bounded_fanout cfg then enqueue_to_all_clients data m else spawn_send_tasks data m)"

text \<open>
  Publishing: in process, or an XADD of the serialised message. \<open>xadd_ok\<close> says whether Redis
  took it; a failure is logged and swallowed. The result is the manager and what was added.
\<close>

definition broadcast ::
  "settings \<Rightarrow> (json \<Rightarrow> 'w) \<Rightarrow> bool \<Rightarrow> json \<Rightarrow> string option \<Rightarrow> conn_mgr \<Rightarrow> conn_mgr \<times> (string \<times> 'w) list"
where
  "broadcast cfg dumps xadd_ok data stream m =
     (if websocket_backend cfg = ''direct'' then (fan_out cfg data m, [])
      else (m, if xadd_ok then [(if truthy_str stream then the stream else telemetry_stream, dumps data)] else []))"

definition broadcast_batch ::
  "settings \<Rightarrow> (json \<Rightarrow> 'w) \<Rightarrow> bool \<Rightarrow> json list \<Rightarrow> string option \<Rightarrow> conn_mgr \<Rightarrow> conn_mgr \<times> (string \<times> 'w) list"
where
  "broadcast_batch cfg dumps exec_ok data_list stream m =
     (if data_list = [] then (m, [])
      else if websocket_backend cfg = ''direct'' then (fold (fan_out cfg) data_list m, [])
      else (m, if exec_ok
               then map (\<lambda>d. (if truthy_str stream then the stream else telemetry_stream, dumps d)) data_list
               else []))"

text \<open>
  One round of \<open>listen_to_redis\<close>: the cursors, the retry delay in seconds and the manager. XREAD
  answers \<open>None\<close> when it raises, otherwise the streams with their entries, an identifier and
  the optional \<open>payload\<close> field each; \<open>loads\<close> answers \<open>None\<close> for \<open>JSONDecodeError\<close>.
\<close>

record listener =
  last_ids :: "string \<Rightarrow> string option"
  retry_delay :: rat

definition new_listener :: listener where
  "new_listener = \<lparr>last_ids = [telemetry_stream \<mapsto> ''$'', event_stream \<mapsto> ''$''], retry_delay = 2\<rparr>"

type_synonym 'w entries = "(string \<times> 'w option) list"

definition listen_message ::
  "settings \<Rightarrow> ('w \<Rightarrow> json option) \<Rightarrow> string \<Rightarrow> string \<times> 'w option
   \<Rightarrow> (string \<Rightarrow> string option) \<times> conn_mgr \<Rightarrow> (string \<Rightarrow> string option) \<times> conn_mgr"
where
  "listen_message cfg loads stream_name entry st =
     (case (entry, st) of ((message_id, payload), (ids, m)) \<Rightarrow>
       (ids(stream_name \<mapsto> message_id),
        case payload of
          None \<Rightarrow> m
        | Some w \<Rightarrow> (case loads w of None \<Rightarrow> m | Some data \<Rightarrow> fan_out cfg data m)))"

definition listen_stream ::
  "settings \<Rightarrow> ('w \<Rightarrow> json option) \<Rightarrow> string \<times> 'w entries
   \<Rightarrow> (string \<Rightarrow> string option) \<times> conn_mgr \<Rightarrow> (string \<Rightarrow> string option) \<times> conn_mgr"
where
  "listen_stream cfg loads = (\<lambda>(stream_name, messages) st. fold (listen_message cfg loads stream_name) messages st)"

definition listen_step ::
  "settings \<Rightarrow> ('w \<Rightarrow> json option) \<Rightarrow> (string \<times> 'w entries) list option \<Rightarrow> listener \<times> conn_mgr \<Rightarrow> listener \<times> conn_mgr"
where
  "listen_step cfg loads xread st =
     (case (xread, st) of
        (None, (l, m)) \<Rightarrow> (l\<lparr>retry_delay := min 30 (retry_delay l * 2)\<rparr>, m)
      | (Some streams, (l, m)) \<Rightarrow>
          (case fold (listen_stream cfg loads) streams (last_ids l, m) of
             (ids, m') \<Rightarrow> (\<lparr>last_ids = ids, retry_delay = 2\<rparr>, m')))"

section \<open>The endpoint\<close>

definition websocket_gate ::
  "crypto \<Rightarrow> settings \<Rightarrow> instant \<Rightarrow> string option \<Rightarrow> string option \<Rightarrow> bool result"
where
  "websocket_gate lib cfg now api_key ticket =
     bindR (verify_ticket (c_mac lib) cfg ticket SCOPE_CONSOLE now)
       (\<lambda>ok. if ok then Inr True else is_valid_api_key cfg api_key)"

text \<open>The handshake: refused with close code 4001, or registered (\<open>None\<close>).\<close>

definition websocket_open ::
  "crypto \<Rightarrow> settings \<Rightarrow> instant \<Rightarrow> string option \<Rightarrow> string option \<Rightarrow> nat \<Rightarrow> conn_mgr
   \<Rightarrow> int option result \<times> conn_mgr"
where
  "websocket_open lib cfg now api_key ticket ws m =
     (case websocket_gate lib cfg now api_key ticket of
        Inl e \<Rightarrow> (Inl e, m)
      | Inr ok \<Rightarrow> if ok then (Inr None, connect cfg ws m) else (Inr (Some 4001), m))"

text \<open>
  One turn of the receive loop: text arrives, nothing arrives for 30 seconds and a ping is sent,
  or an exception (a disconnect or any other) ends the connection.
\<close>

datatype ws_event = Received string | Silence | Gone

definition websocket_turn :: "nat \<Rightarrow> ws_event \<Rightarrow> conn_mgr \<Rightarrow> bool \<times> string option \<times> conn_mgr" where
  "websocket_turn ws ev m =
     (case ev of
        Received _ \<Rightarrow> (True, None, m)
      | Silence \<Rightarrow> (True, Some ''ping'', m)
      | Gone \<Rightarrow> (False, None, disconnect ws m))"

section \<open>The contract of a shedding buffer\<close>

text \<open>
  What the fan-out promises about a buffer of capacity \<open>cap\<close>: pushing keeps the newest \<open>cap\<close>
  items in order and counts the item it sheds.
\<close>

definition newest :: "nat \<Rightarrow> 'a list \<Rightarrow> 'a list" where
  "newest n xs = drop (length xs - n) xs"

lemma newest_length: "length (newest n xs) = min n (length xs)"
  by (simp add: newest_def)

lemma newest_id [simp]: "length xs \<le> n \<Longrightarrow> newest n xs = xs"
  by (simp add: newest_def)

lemma newest_suffix: "suffix (newest n xs) xs"
  by (simp add: newest_def suffix_drop)

lemma newest_append: "newest n (newest n xs @ ys) = newest n (xs @ ys)"
proof (cases "length xs \<le> n")
  case False
  have "newest n xs @ ys = drop (length xs - n) (xs @ ys)" using False by (simp add: newest_def)
  moreover have "length (newest n xs @ ys) = n + length ys" using False by (simp add: newest_length)
  ultimately show ?thesis using False by (simp add: newest_def add.commute)
qed simp

locale shedding_buffer =
  fixes cap :: nat and push :: "'b \<Rightarrow> 'a \<Rightarrow> 'b \<times> nat" and contents :: "'b \<Rightarrow> 'a list"
  assumes push_contents: "length (contents b) \<le> cap \<Longrightarrow> contents (fst (push b x)) = newest cap (contents b @ [x])"
    and push_dropped: "length (contents b) \<le> cap \<Longrightarrow> snd (push b x) = (if length (contents b) = cap then 1 else 0)"
begin

lemma push_bounded: "length (contents b) \<le> cap \<Longrightarrow> length (contents (fst (push b x))) \<le> cap"
  by (simp add: push_contents newest_length)

lemma pushes_contents:
  assumes "length (contents b) \<le> cap"
  shows "contents (fold (\<lambda>x b. fst (push b x)) xs b) = newest cap (contents b @ xs)"
  using assms
proof (induction xs arbitrary: b)
  case (Cons x xs)
  then show ?case
    using Cons.IH [OF push_bounded [OF Cons.prems, of x]] newest_append [of cap "contents b @ [x]" xs]
    by (simp add: push_contents)
qed simp

lemma push_split:
  assumes "length (contents b) \<le> cap" "0 < cap"
  shows "\<exists>pre. contents b @ [x] = pre @ contents (fst (push b x)) \<and> length pre = snd (push b x)"
  using assms
  by (intro exI [of _ "take (length (contents b @ [x]) - cap) (contents b @ [x])"])
     (auto simp: push_contents push_dropped newest_def simp del: length_append take_append drop_append, auto)

end

lemma cap_pos [simp]: "0 < CLIENT_QUEUE_MAXSIZE"
  by (simp add: CLIENT_QUEUE_MAXSIZE_def)

interpretation client_queue: shedding_buffer CLIENT_QUEUE_MAXSIZE enqueue "\<lambda>q. q"
proof
  fix b :: "'a list" and x
  assume le: "length b \<le> CLIENT_QUEUE_MAXSIZE"
  show "fst (enqueue b x) = newest CLIENT_QUEUE_MAXSIZE (b @ [x])"
    using le by (cases b) (auto simp: enqueue_def put_nowait_def get_nowait_def newest_def CLIENT_QUEUE_MAXSIZE_def)
  show "snd (enqueue b x) = (if length b = CLIENT_QUEUE_MAXSIZE then 1 else 0)"
    using le by (cases b) (auto simp: enqueue_def put_nowait_def get_nowait_def CLIENT_QUEUE_MAXSIZE_def)
qed

section \<open>Fan-out to all clients\<close>

lemma enqueue_client_fields [simp]:
  "active_connections (enqueue_client d ws m) = active_connections m"
  "senders (enqueue_client d ws m) = senders m"
  "connections_active (enqueue_client d ws m) = connections_active m"
  "pending_sends (enqueue_client d ws m) = pending_sends m"
  by (simp_all add: enqueue_client_def split: option.splits prod.splits)

lemma enqueue_client_queues:
  "queues (enqueue_client d ws m) w = (if w = ws then map_option (\<lambda>q. fst (enqueue q d)) (queues m w) else queues m w)"
  by (auto simp: enqueue_client_def split: option.splits prod.splits)

definition sheds :: "json \<Rightarrow> conn_mgr \<Rightarrow> nat \<Rightarrow> nat" where
  "sheds d m ws = (case queues m ws of None \<Rightarrow> 0 | Some q \<Rightarrow> snd (enqueue q d))"

lemma enqueue_client_dropped: "frames_dropped (enqueue_client d ws m) = frames_dropped m + sheds d m ws"
  by (auto simp: enqueue_client_def sheds_def split: option.splits prod.splits)

lemma fold_enqueue_fields [simp]:
  "active_connections (fold (enqueue_client d) xs m) = active_connections m"
  "senders (fold (enqueue_client d) xs m) = senders m"
  "connections_active (fold (enqueue_client d) xs m) = connections_active m"
  by (induction xs arbitrary: m) simp_all

lemma fold_enqueue_queues:
  "distinct xs \<Longrightarrow> queues (fold (enqueue_client d) xs m) w =
     (if w \<in> set xs then map_option (\<lambda>q. fst (enqueue q d)) (queues m w) else queues m w)"
  by (induction xs arbitrary: m) (auto simp: enqueue_client_queues)

lemma sheds_other: "w \<noteq> ws \<Longrightarrow> sheds d (enqueue_client d ws m) w = sheds d m w"
  by (simp add: sheds_def enqueue_client_queues)

lemma fold_enqueue_dropped:
  "distinct xs \<Longrightarrow> frames_dropped (fold (enqueue_client d) xs m) = frames_dropped m + (\<Sum>w \<leftarrow> xs. sheds d m w)"
proof (induction xs arbitrary: m)
  case (Cons a xs)
  have "(\<Sum>w \<leftarrow> xs. sheds d (enqueue_client d a m) w) = (\<Sum>w \<leftarrow> xs. sheds d m w)"
    using Cons.prems by (intro arg_cong [where f = sum_list] map_cong) (auto intro!: sheds_other)
  with Cons show ?case by (simp add: enqueue_client_dropped)
qed simp

section \<open>The manager as a transition system\<close>

text \<open>
  The world around the manager keeps two histories per socket: what was fanned out while it was
  connected, and what its sender completed. Every interleaving of handshakes, disconnects,
  fan-outs and sender moves is a run.
\<close>

record world =
  wm :: conn_mgr
  published :: "nat \<Rightarrow> json list"
  delivered :: "nat \<Rightarrow> json list"

inductive ws_step :: "settings \<Rightarrow> world \<Rightarrow> world \<Rightarrow> bool" for cfg where
  opened: "ws \<notin> set (active_connections (wm W)) \<Longrightarrow>
     ws_step cfg W (W\<lparr>wm := connect cfg ws (wm W), published := (published W)(ws := []), delivered := (delivered W)(ws := [])\<rparr>)"
| closed: "ws_step cfg W (W\<lparr>wm := disconnect ws (wm W)\<rparr>)"
| fanned: "ws_step cfg W (W\<lparr>wm := fan_out cfg d (wm W),
     published := (\<lambda>ws. if ws \<in> set (active_connections (wm W)) then published W ws @ [d] else published W ws)\<rparr>)"
| taken: "ws_step cfg W (W\<lparr>wm := sender_get ws (wm W)\<rparr>)"
| sent: "senders (wm W) ws = Some (SSend x) \<Longrightarrow>
     ws_step cfg W (W\<lparr>wm := sender_sent ws True (wm W), delivered := (delivered W)(ws := delivered W ws @ [x])\<rparr>)"
| failed: "ws_step cfg W (W\<lparr>wm := sender_sent ws False (wm W)\<rparr>)"

inductive_cases ws_stepE: "ws_step cfg W W'"

definition start_world :: world where
  "start_world = \<lparr>wm = new_manager, published = (\<lambda>ws. []), delivered = (\<lambda>ws. [])\<rparr>"

fun in_flight :: "sender_pc \<Rightarrow> json list" where
  "in_flight SGet = []"
| "in_flight (SSend x) = [x]"

definition client_ok :: "json list \<Rightarrow> json list \<Rightarrow> nat \<Rightarrow> json list \<Rightarrow> sender_pc \<Rightarrow> bool" where
  "client_ok pub del dropped q pc \<longleftrightarrow> length q \<le> CLIENT_QUEUE_MAXSIZE \<and>
     (\<exists>pre. pub = pre @ q \<and> subseq (del @ in_flight pc) pre \<and> (dropped = 0 \<longrightarrow> del @ in_flight pc = pre))"

definition ws_inv :: "world \<Rightarrow> bool" where
  "ws_inv W \<longleftrightarrow>
     distinct (active_connections (wm W))
     \<and> connections_active (wm W) = int (connection_count (wm W))
     \<and> (\<forall>ws. ws \<notin> set (active_connections (wm W)) \<longrightarrow> queues (wm W) ws = None \<and> senders (wm W) ws = None)
     \<and> (\<forall>ws \<in> set (active_connections (wm W)). \<exists>q pc. queues (wm W) ws = Some q \<and> senders (wm W) ws = Some pc
          \<and> client_ok (published W ws) (delivered W ws) (frames_dropped (wm W)) q pc)"

lemma client_ok_enqueue:
  assumes "client_ok pub del n q pc" "n + snd (enqueue q d) \<le> n'"
  shows "client_ok (pub @ [d]) del n' (fst (enqueue q d)) pc"
proof -
  obtain pre where pre: "pub = pre @ q" "subseq (del @ in_flight pc) pre" "n = 0 \<longrightarrow> del @ in_flight pc = pre"
    and len: "length q \<le> CLIENT_QUEUE_MAXSIZE"
    using assms(1) by (auto simp: client_ok_def)
  obtain shed where shed: "q @ [d] = shed @ fst (enqueue q d)" "length shed = snd (enqueue q d)"
    using client_queue.push_split [OF len cap_pos, of d] by blast
  have "pub @ [d] = (pre @ shed) @ fst (enqueue q d)" using pre shed by simp
  moreover have "subseq (del @ in_flight pc) (pre @ shed)" using pre(2) by (rule list_emb_prefix)
  moreover have "n' = 0 \<longrightarrow> del @ in_flight pc = pre @ shed" using pre shed assms(2) by auto
  ultimately show ?thesis
    using client_queue.push_bounded [OF len, of d] by (auto simp: client_ok_def)
qed

lemma client_ok_take:
  "client_ok pub del n (x # q) SGet \<Longrightarrow> client_ok pub del n q (SSend x)"
  by (auto simp: client_ok_def intro: exI [of _ "_ @ [x]"])

lemma client_ok_sent: "client_ok pub del n q (SSend x) \<Longrightarrow> client_ok pub (del @ [x]) n q SGet"
  by (auto simp: client_ok_def)

lemma ws_inv_start: "ws_inv start_world"
  by (simp add: ws_inv_def start_world_def new_manager_def connection_count_def)

lemma disconnect_fields [simp]:
  "active_connections (disconnect ws m) = remove1 ws (active_connections m)"
  "queues (disconnect ws m) = (queues m)(ws := None)"
  "senders (disconnect ws m) = (senders m)(ws := None)"
  "frames_dropped (disconnect ws m) = frames_dropped m"
  "connections_active (disconnect ws m) = connections_active m - (if ws \<in> set (active_connections m) then 1 else 0)"
  by (auto simp: disconnect_def Let_def remove1_idem)

lemma ws_inv_disconnect: "ws_inv W \<Longrightarrow> ws_inv (W\<lparr>wm := disconnect ws (wm W)\<rparr>)"
  by (auto simp: ws_inv_def connection_count_def set_remove1_eq length_remove1)
     (metis One_nat_def Suc_pred int_ops(2) length_pos_if_in_set of_nat_Suc of_nat_diff Suc_leI)+

lemma ws_inv_connect:
  "opt_bounded_fanout cfg \<Longrightarrow> ws_inv W \<Longrightarrow> ws \<notin> set (active_connections (wm W)) \<Longrightarrow>
   ws_inv (W\<lparr>wm := connect cfg ws (wm W), published := (published W)(ws := []), delivered := (delivered W)(ws := [])\<rparr>)"
  by (auto simp: ws_inv_def connect_def Let_def connection_count_def client_ok_def)

lemma member_le_sum_list: "x \<in> set xs \<Longrightarrow> (f x :: nat) \<le> (\<Sum>y \<leftarrow> xs. f y)"
  by (induction xs) auto

lemma ws_inv_fan_out:
  assumes "opt_bounded_fanout cfg" "ws_inv W"
  shows "ws_inv (W\<lparr>wm := fan_out cfg d (wm W),
     published := (\<lambda>ws. if ws \<in> set (active_connections (wm W)) then published W ws @ [d] else published W ws)\<rparr>)"
proof -
  let ?m = "wm W"
  let ?m' = "fold (enqueue_client d) (active_connections ?m) ?m"
  have dist: "distinct (active_connections ?m)" using assms(2) by (simp add: ws_inv_def)
  have dropped: "frames_dropped ?m' = frames_dropped ?m + (\<Sum>w \<leftarrow> active_connections ?m. sheds d ?m w)"
    using dist by (rule fold_enqueue_dropped)
  have "\<exists>q pc. queues ?m' ws = Some q \<and> senders ?m' ws = Some pc
      \<and> client_ok (published W ws @ [d]) (delivered W ws) (frames_dropped ?m') q pc"
    if ws: "ws \<in> set (active_connections ?m)" for ws
  proof -
    obtain q pc where q: "queues ?m ws = Some q" "senders ?m ws = Some pc"
      and ok: "client_ok (published W ws) (delivered W ws) (frames_dropped ?m) q pc"
      using assms(2) ws by (auto simp: ws_inv_def)
    have "snd (enqueue q d) \<le> (\<Sum>w \<leftarrow> active_connections ?m. sheds d ?m w)"
      using member_le_sum_list [OF ws, of "sheds d ?m"] q by (simp add: sheds_def)
    then have "client_ok (published W ws @ [d]) (delivered W ws) (frames_dropped ?m') (fst (enqueue q d)) pc"
      using client_ok_enqueue [OF ok] dropped by simp
    with q ws show ?thesis by (simp add: fold_enqueue_queues [OF dist])
  qed
  then show ?thesis
    using assms dist
    by (simp add: ws_inv_def fan_out_def enqueue_to_all_clients_def connection_count_def fold_enqueue_queues)
qed

lemma ws_inv_client_update:
  assumes "ws_inv W" "ws \<in> set (active_connections (wm W))"
    and "client_ok (published W ws) del (frames_dropped (wm W)) q pc"
  shows "ws_inv (W\<lparr>wm := wm W\<lparr>queues := (queues (wm W))(ws \<mapsto> q), senders := (senders (wm W))(ws \<mapsto> pc)\<rparr>,
     delivered := (delivered W)(ws := del)\<rparr>)"
  using assms by (auto simp: ws_inv_def connection_count_def)

lemma ws_inv_client:
  assumes "ws_inv W" "senders (wm W) ws = Some pc"
  shows "\<exists>q. ws \<in> set (active_connections (wm W)) \<and> queues (wm W) ws = Some q
    \<and> client_ok (published W ws) (delivered W ws) (frames_dropped (wm W)) q pc"
  using assms by (cases "ws \<in> set (active_connections (wm W))") (fastforce simp: ws_inv_def)+

lemma ws_inv_take:
  assumes "ws_inv W"
  shows "ws_inv (W\<lparr>wm := sender_get ws (wm W)\<rparr>)"
proof (cases "\<exists>x q. senders (wm W) ws = Some SGet \<and> queues (wm W) ws = Some (x # q)")
  case True
  then obtain x q where xq: "senders (wm W) ws = Some SGet" "queues (wm W) ws = Some (x # q)" by blast
  from ws_inv_client [OF assms xq(1)] xq(2)
  have "ws \<in> set (active_connections (wm W))"
    "client_ok (published W ws) (delivered W ws) (frames_dropped (wm W)) q (SSend x)"
    by (auto intro: client_ok_take)
  from ws_inv_client_update [OF assms this] xq show ?thesis by (simp add: sender_get_def)
next
  case False
  then have "sender_get ws (wm W) = wm W"
    by (auto simp: sender_get_def split: option.splits sender_pc.splits list.splits)
  with assms show ?thesis by simp
qed

lemma ws_inv_sent:
  assumes "ws_inv W" "senders (wm W) ws = Some (SSend x)"
  shows "ws_inv (W\<lparr>wm := sender_sent ws True (wm W), delivered := (delivered W)(ws := delivered W ws @ [x])\<rparr>)"
proof -
  obtain q where q: "ws \<in> set (active_connections (wm W))" "queues (wm W) ws = Some q"
    "client_ok (published W ws) (delivered W ws @ [x]) (frames_dropped (wm W)) q SGet"
    using ws_inv_client [OF assms] client_ok_sent by blast
  have "(queues (wm W))(ws \<mapsto> q) = queues (wm W)" using q(2) by (simp add: fun_upd_idem)
  with ws_inv_client_update [OF assms(1) q(1,3)] assms(2) show ?thesis by (simp add: sender_sent_def)
qed

lemma ws_inv_failed: "ws_inv W \<Longrightarrow> ws_inv (W\<lparr>wm := sender_sent ws False (wm W)\<rparr>)"
  using ws_inv_disconnect [of W ws] by (auto simp: sender_sent_def split: option.splits sender_pc.splits)

lemma ws_step_inv: "ws_step cfg W W' \<Longrightarrow> opt_bounded_fanout cfg \<Longrightarrow> ws_inv W \<Longrightarrow> ws_inv W'"
  by (induction rule: ws_step.induct)
     (auto intro: ws_inv_connect ws_inv_disconnect ws_inv_fan_out ws_inv_take ws_inv_sent ws_inv_failed)

interpretation fan: step_invariant "ws_step cfg" "\<lambda>W. opt_bounded_fanout cfg \<longrightarrow> ws_inv W"
  by unfold_locales (auto intro: ws_step_inv)

lemma ws_run_inv: "(ws_step cfg)\<^sup>*\<^sup>* start_world W \<Longrightarrow> opt_bounded_fanout cfg \<Longrightarrow> ws_inv W"
  using fan.run_keeps ws_inv_start by blast

section \<open>Properties\<close>

lemma fan_out_queue:
  assumes "opt_bounded_fanout cfg" "distinct (active_connections m)" "ws \<in> set (active_connections m)" "queues m ws = Some q"
  shows "queues (fan_out cfg d m) ws = Some (fst (enqueue q d)) \<and> active_connections (fan_out cfg d m) = active_connections m"
  using assms by (simp add: fan_out_def enqueue_to_all_clients_def fold_enqueue_queues)

text \<open>
  A burst of messages leaves every client, however slow, with exactly its newest 256
  frames in order: what was queued followed by the burst, cut from the old end. One client's
  backlog has no influence on another's.
\<close>

theorem fan_out_keeps_newest:
  assumes "opt_bounded_fanout cfg" and "distinct (active_connections m)" and "ws \<in> set (active_connections m)"
    and "queues m ws = Some q" and "length q \<le> CLIENT_QUEUE_MAXSIZE"
  shows "queues (fold (fan_out cfg) ds m) ws = Some (newest 256 (q @ ds))"
proof -
  have "queues (fold (fan_out cfg) ds m) ws = Some (fold (\<lambda>d q. fst (enqueue q d)) ds q)"
    using assms(1-4)
  proof (induction ds arbitrary: m q)
    case (Cons d ds)
    then show ?case using fan_out_queue [OF Cons.prems, of d] by simp
  qed simp
  then show ?thesis
    using client_queue.pushes_contents [OF assms(5), of ds] by (simp add: CLIENT_QUEUE_MAXSIZE_def)
qed

definition one_client :: conn_mgr where
  "one_client = connect (default_settings ''db'' ''k'') 3 new_manager"

theorem fan_out_keeps_newest_witness:
  "queues (fold (fan_out (default_settings ''db'' ''k'')) [JNum 1, JNum 2] one_client) 3 = Some (newest 256 ([] @ [JNum 1, JNum 2]))"
  by (rule fan_out_keeps_newest)
     (simp_all add: one_client_def connect_def new_manager_def default_settings_def Let_def)

text \<open>
  C10: In every run of the manager, whatever the order of handshakes, disconnects, fan-outs and
  sender moves: the connection gauge counts the connected sockets; a socket that is gone has
  neither queue nor sender; and for every connected socket the queue holds at most 256 frames,
  namely the most recent messages without a gap, while what it has been sent is an in-order
  selection of the earlier ones, without duplicates, and all of them as long as nothing was
  ever dropped.
\<close>

theorem delivery_invariant:
  assumes "(ws_step cfg)\<^sup>*\<^sup>* start_world W" and "opt_bounded_fanout cfg"
  shows "connections_active (wm W) = int (connection_count (wm W))
    \<and> (ws \<notin> set (active_connections (wm W)) \<longrightarrow> queues (wm W) ws = None \<and> senders (wm W) ws = None)
    \<and> (ws \<in> set (active_connections (wm W)) \<longrightarrow>
        (\<exists>q pc earlier. queues (wm W) ws = Some q \<and> senders (wm W) ws = Some pc \<and> length q \<le> 256
           \<and> published W ws = earlier @ q
           \<and> subseq (delivered W ws @ in_flight pc) earlier
           \<and> (frames_dropped (wm W) = 0 \<longrightarrow> delivered W ws @ in_flight pc = earlier)))"
  using ws_run_inv [OF assms] by (auto simp: ws_inv_def client_ok_def CLIENT_QUEUE_MAXSIZE_def)

definition opened_world :: world where
  "opened_world = \<lparr>wm = one_client, published = (\<lambda>ws. []), delivered = (\<lambda>ws. [])\<rparr>"

theorem delivery_invariant_witness:
  "\<exists>q pc earlier. queues (wm opened_world) 3 = Some q \<and> senders (wm opened_world) 3 = Some pc \<and> length q \<le> 256
     \<and> published opened_world 3 = earlier @ q \<and> subseq (delivered opened_world 3 @ in_flight pc) earlier"
proof -
  let ?cfg = "default_settings ''db'' ''k''"
  have "ws_step ?cfg start_world (start_world\<lparr>wm := connect ?cfg 3 (wm start_world),
      published := (published start_world)(3 := []), delivered := (delivered start_world)(3 := [])\<rparr>)"
    by (rule ws_step.opened) (simp add: start_world_def new_manager_def)
  also have "\<dots> = opened_world"
    by (simp add: opened_world_def start_world_def one_client_def fun_eq_iff)
  finally have run: "(ws_step ?cfg)\<^sup>*\<^sup>* start_world opened_world" by blast
  have "opt_bounded_fanout ?cfg" "3 \<in> set (active_connections (wm opened_world))"
    by (simp_all add: default_settings_def opened_world_def one_client_def connect_def Let_def)
  with delivery_invariant [OF run, of 3] show ?thesis by blast
qed


definition payloads :: "('w \<Rightarrow> json option) \<Rightarrow> 'w entries \<Rightarrow> json list" where
  "payloads loads es = List.map_filter (\<lambda>(i, p). Option.bind p loads) es"

lemma payloads_simps [simp]:
  "payloads loads [] = []"
  "payloads loads ((i, p) # es) = (case Option.bind p loads of None \<Rightarrow> [] | Some d \<Rightarrow> [d]) @ payloads loads es"
  by (simp_all add: payloads_def map_filter_simps split: option.splits)

lemma listen_message_eq:
  "listen_message cfg loads s (i, p) (ids, m) =
     (ids(s \<mapsto> i), fold (fan_out cfg) (case Option.bind p loads of None \<Rightarrow> [] | Some d \<Rightarrow> [d]) m)"
  by (cases p) (simp_all add: listen_message_def split: option.splits)

lemma listen_messages:
  "fold (listen_message cfg loads s) es (ids, m) =
     (if es = [] then ids else ids(s \<mapsto> fst (last es)), fold (fan_out cfg) (payloads loads es) m)"
proof (induction es arbitrary: ids m)
  case (Cons e es)
  obtain i p where e: "e = (i, p)" by (cases e)
  have "fold (listen_message cfg loads s) (e # es) (ids, m) =
      fold (listen_message cfg loads s) es (listen_message cfg loads s (i, p) (ids, m))"
    by (simp add: e)
  also have "\<dots> = (if es = [] then ids(s \<mapsto> i) else (ids(s \<mapsto> i))(s \<mapsto> fst (last es)),
      fold (fan_out cfg) (payloads loads (e # es)) m)"
    unfolding listen_message_eq Cons by (simp add: e)
  finally show ?case by (auto simp: e fun_eq_iff)
qed simp

definition cursors :: "(string \<times> 'w entries) list \<Rightarrow> (string \<Rightarrow> string option) \<Rightarrow> string \<Rightarrow> string option" where
  "cursors streams ids = fold (\<lambda>(s, es) ids. if es = [] then ids else ids(s \<mapsto> fst (last es))) streams ids"

lemma listen_streams:
  "fold (listen_stream cfg loads) streams (ids, m) =
     (cursors streams ids, fold (fan_out cfg) (concat (map (\<lambda>(s, es). payloads loads es) streams)) m)"
  by (induction streams arbitrary: ids m) (auto simp: listen_stream_def listen_messages cursors_def)

lemma cursors_other: "s \<notin> fst ` set streams \<Longrightarrow> cursors streams ids s = ids s"
  by (induction streams arbitrary: ids) (auto simp: cursors_def)

lemma cursors_last:
  "distinct (map fst streams) \<Longrightarrow> (s, es) \<in> set streams \<Longrightarrow> es \<noteq> [] \<Longrightarrow> cursors streams ids s = Some (fst (last es))"
proof (induction streams arbitrary: ids)
  case (Cons a streams)
  show ?case
  proof (cases "a = (s, es)")
    case True
    then have "s \<notin> fst ` set streams" using Cons.prems(1) by simp
    from cursors_other [OF this] True Cons.prems(3) show ?thesis by (simp add: cursors_def)
  next
    case False
    with Cons show ?thesis by (cases a) (auto simp: cursors_def)
  qed
qed simp

text \<open>
  One round of the Redis listener. When XREAD answers, the decodable payloads are fanned
  out once each, in the order of the answer, undecodable or foreign entries are skipped, the
  cursor of every stream that answered moves to its last entry and no other moves, and the
  retry delay is reset. When it fails nothing is fanned out, no cursor moves, and after \<open>k\<close>
  failures in a row the delay has doubled \<open>k\<close> times, up to 30 seconds.
\<close>

theorem listener_rounds:
  assumes "distinct (map fst streams)" and "2 \<le> retry_delay l" and "retry_delay l \<le> 30"
  shows "(\<exists>ids. listen_step cfg loads (Some streams) (l, m) =
            (\<lparr>last_ids = ids, retry_delay = 2\<rparr>,
             fold (fan_out cfg) (concat (map (\<lambda>(s, es). payloads loads es) streams)) m)
          \<and> (\<forall>(s, es) \<in> set streams. es \<noteq> [] \<longrightarrow> ids s = Some (fst (last es)))
          \<and> (\<forall>s. s \<notin> fst ` set streams \<longrightarrow> ids s = last_ids l s))
    \<and> ((listen_step cfg loads None ^^ k) (l, m) = (l\<lparr>retry_delay := min 30 (retry_delay l * 2 ^ k)\<rparr>, m))"
proof
  show "\<exists>ids. listen_step cfg loads (Some streams) (l, m) =
            (\<lparr>last_ids = ids, retry_delay = 2\<rparr>,
             fold (fan_out cfg) (concat (map (\<lambda>(s, es). payloads loads es) streams)) m)
          \<and> (\<forall>(s, es) \<in> set streams. es \<noteq> [] \<longrightarrow> ids s = Some (fst (last es)))
          \<and> (\<forall>s. s \<notin> fst ` set streams \<longrightarrow> ids s = last_ids l s)"
    using cursors_last [OF assms(1)] cursors_other
    by (intro exI [of _ "cursors streams (last_ids l)"]) (auto simp: listen_step_def listen_streams)
  have "min 30 (min 30 x * 2) = min 30 (x * 2)" if "2 \<le> x" for x :: rat
    using that by (auto simp: min_def)
  moreover have "2 \<le> retry_delay l * 2 ^ k" for k
    using assms(2) by (induction k) auto
  ultimately show "(listen_step cfg loads None ^^ k) (l, m) = (l\<lparr>retry_delay := min 30 (retry_delay l * 2 ^ k)\<rparr>, m)"
    using assms(3) by (induction k) (simp_all add: listen_step_def min_absorb2 mult_ac)
qed

theorem listener_rounds_witness:
  "(listen_step (default_settings ''db'' ''k'') Some None ^^ 3) (new_listener, one_client)
     = (new_listener\<lparr>retry_delay := 16\<rparr>, one_client)"
  using listener_rounds [of "[]" new_listener "default_settings ''db'' ''k''" Some one_client 3]
  by (simp add: new_listener_def)

text \<open>
  A socket is registered only behind a valid credential: the handshake of a client that
  holds neither an accepted console ticket nor the master key is closed with 4001 or fails,
  and changes nothing.
\<close>

theorem websocket_open_gated:
  assumes "websocket_open lib cfg now api_key ticket ws m = (r, m')" and "m' \<noteq> m \<or> r = Inr None"
  shows "m' = connect cfg ws m
    \<and> (verify_ticket (c_mac lib) cfg ticket SCOPE_CONSOLE now = Inr True \<or> api_key = Some (telemetry_api_key cfg))"
proof -
  have "websocket_gate lib cfg now api_key ticket = Inr True \<and> m' = connect cfg ws m"
    using assms by (auto simp: websocket_open_def split: sum.splits if_splits)
  then show ?thesis
    by (auto simp: websocket_gate_def bindR_eq_Inr is_valid_api_key_True split: if_splits)
qed

theorem websocket_open_gated_witness:
  "snd (websocket_open sample_crypto demo_settings 0 (Some ''0123456789abcdef'') None 3 new_manager)
     = connect demo_settings 3 new_manager"
proof -
  have "is_valid_api_key demo_settings (Some ''0123456789abcdef'') = Inr True" by code_simp
  then have "websocket_open sample_crypto demo_settings 0 (Some ''0123456789abcdef'') None 3 new_manager
      = (Inr None, connect demo_settings 3 new_manager)"
    by (simp add: websocket_open_def websocket_gate_def verify_ticket_def)
  from websocket_open_gated [OF this] show ?thesis using \<open>_ = (Inr None, connect demo_settings 3 new_manager)\<close> by simp
qed

end
