(* ===== verification/FleetTelemetry.thy ===== *)
theory FleetTelemetry
  imports FleetWebsocket
begin

text \<open>
  Readings and the roster: the \<open>telemetry\<close> and \<open>robots\<close> tables, the writes of
  \<open>telemetry_repo.py\<close> and \<open>robot_repo.py\<close>, the ingest service with its three paths
  (\<open>telemetry_service.py\<close>), the deferred write buffer (\<open>telemetry_buffer.py\<close>) and the guarded
  ingest routes. Clock readings, the number of viewers and pydantic's rendering of a datetime
  (\<open>dump_dt\<close>) are arguments. A naive datetime counts as UTC, the zone the containers run in.
\<close>

section \<open>Data\<close>

record telemetry_create =
  tc_robot_id :: int
  tc_battery :: rat
  tc_temperature :: rat
  tc_speed :: rat
  tc_timestamp :: "pydt option"
  tc_status :: "string option"
  tc_mission_id :: "string option"
  tc_mission_type :: "string option"
  tc_mission_progress :: "rat option"
  tc_mission_start_time :: "pydt option"
  tc_battery_health :: "rat option"
  tc_motor_health :: "rat option"
  tc_sensor_health :: "rat option"
  tc_network_health :: "rat option"
  tc_x :: "rat option"
  tc_y :: "rat option"

record telemetry_row =
  t_id :: int
  t_robot_id :: int
  t_battery :: rat
  t_temperature :: rat
  t_speed :: rat
  t_status :: "string option"
  t_mission_id :: "string option"
  t_mission_type :: "string option"
  t_mission_progress :: "rat option"
  t_mission_start_time :: "instant option"
  t_battery_health :: "rat option"
  t_motor_health :: "rat option"
  t_sensor_health :: "rat option"
  t_network_health :: "rat option"
  t_x :: "rat option"
  t_y :: "rat option"
  t_timestamp :: instant

record robot =
  r_id :: int
  r_name :: "string option"
  r_model :: "string option"
  r_firmware_version :: "string option"
  r_is_active :: bool
  r_registered_at :: instant
  r_last_seen :: "instant option"
  r_decommissioned_at :: "instant option"

record tele_db =
  readings :: "telemetry_row list"
  robots :: "robot list"
  next_id :: int

section \<open>The roster\<close>

fun insert_by_id :: "robot \<Rightarrow> robot list \<Rightarrow> robot list" where
  "insert_by_id r [] = [r]"
| "insert_by_id r (s # rs) = (if r_id r < r_id s then r # s # rs else s # insert_by_id r rs)"

definition list_active :: "robot list \<Rightarrow> robot list" where
  "list_active t = fold insert_by_id (filter r_is_active t) []"

text \<open>
  \<open>GREATEST(excluded.last_seen, COALESCE(robots.last_seen, excluded.last_seen))\<close>.
\<close>

definition greatest_seen :: "instant \<Rightarrow> instant option \<Rightarrow> instant" where
  "greatest_seen excluded stored = max excluded (case stored of None \<Rightarrow> excluded | Some t \<Rightarrow> t)"

definition upsert_robot :: "instant \<Rightarrow> int \<times> instant \<Rightarrow> robot list \<Rightarrow> robot list" where
  "upsert_robot dbnow item t =
     (case item of (rid, seen_at) \<Rightarrow>
        if list_ex (\<lambda>r. r_id r = rid) t
        then update_where (\<lambda>r. r_id r = rid) (\<lambda>r. r\<lparr>r_last_seen := Some (greatest_seen seen_at (r_last_seen r))\<rparr>) t
        else t @ [\<lparr>r_id = rid, r_name = None, r_model = None, r_firmware_version = None, r_is_active = True,
                   r_registered_at = dbnow, r_last_seen = Some seen_at, r_decommissioned_at = None\<rparr>])"

definition mark_seen :: "instant \<Rightarrow> (int \<times> instant) list \<Rightarrow> robot list \<Rightarrow> robot list" where
  "mark_seen dbnow last_seen_by_robot t =
     (if last_seen_by_robot = [] then t else fold (upsert_robot dbnow) last_seen_by_robot t)"

text \<open>
  The loop that keeps the newest timestamp of each robot, written three times in the sources
  (\<open>ingest_batch\<close>, \<open>flush\<close>, \<open>_register_robots\<close>).
\<close>

definition note_latest :: "int \<Rightarrow> instant \<Rightarrow> (int \<times> instant) list \<Rightarrow> (int \<times> instant) list" where
  "note_latest rid ts d =
     (case dict_get d rid of
        None \<Rightarrow> dict_set rid ts d
      | Some ts' \<Rightarrow> if ts > ts' then dict_set rid ts d else d)"

definition latest_by_robot :: "telemetry_row list \<Rightarrow> (int \<times> instant) list" where
  "latest_by_robot rows = fold (\<lambda>t. note_latest (t_robot_id t) (t_timestamp t)) rows []"

section \<open>Writing readings\<close>

text \<open>Column limits; the driver and the server refuse what does not fit.\<close>

definition in_datetime_range :: "instant \<Rightarrow> bool" where
  "in_datetime_range t \<longleftrightarrow> - 62135596800000000 \<le> t \<and> t \<le> 253402300799999999"

definition telemetry_row_ok :: "telemetry_row \<Rightarrow> bool" where
  "telemetry_row_ok r \<longleftrightarrow>
     int4 (t_robot_id r) \<and> fits 32 (t_status r) \<and> fits 64 (t_mission_id r) \<and> fits 32 (t_mission_type r)
     \<and> (case t_mission_start_time r of None \<Rightarrow> True | Some t \<Rightarrow> in_datetime_range t)"

definition new_row :: "int \<Rightarrow> telemetry_create \<Rightarrow> instant \<Rightarrow> telemetry_row" where
  "new_row tid data timestamp =
     \<lparr>t_id = tid, t_robot_id = tc_robot_id data, t_battery = tc_battery data, t_temperature = tc_temperature data,
      t_speed = tc_speed data, t_status = tc_status data, t_mission_id = tc_mission_id data,
      t_mission_type = tc_mission_type data, t_mission_progress = tc_mission_progress data,
      t_mission_start_time = map_option dt_instant (tc_mission_start_time data),
      t_battery_health = tc_battery_health data, t_motor_health = tc_motor_health data,
      t_sensor_health = tc_sensor_health data, t_network_health = tc_network_health data,
      t_x = tc_x data, t_y = tc_y data, t_timestamp = timestamp\<rparr>"

definition add_row :: "telemetry_row \<Rightarrow> tele_db \<Rightarrow> tele_db" where
  "add_row r db = db\<lparr>readings := readings db @ [r\<lparr>t_id := next_id db\<rparr>], next_id := next_id db + 1\<rparr>"

definition telemetry_insert :: "telemetry_create \<Rightarrow> instant \<Rightarrow> tele_db \<Rightarrow> (telemetry_row \<times> tele_db) result" where
  "telemetry_insert data timestamp db =
     (let r = new_row (next_id db) data timestamp
      in if telemetry_row_ok r then Inr (r, add_row r db) else Inl DataError)"

fun number_rows :: "int \<Rightarrow> (telemetry_create \<times> instant) list \<Rightarrow> telemetry_row list" where
  "number_rows i [] = []"
| "number_rows i ((d, ts) # rows) = new_row i d ts # number_rows (i + 1) rows"

text \<open>One transaction: every row is written, or none.\<close>

definition insert_many :: "(telemetry_create \<times> instant) list \<Rightarrow> tele_db \<Rightarrow> (telemetry_row list \<times> tele_db) result" where
  "insert_many rows db =
     (let rs = number_rows (next_id db) rows
      in if list_all telemetry_row_ok rs
         then Inr (rs, db\<lparr>readings := readings db @ rs, next_id := next_id db + int (length rs)\<rparr>)
         else Inl DataError)"

section \<open>The ingest service\<close>

text \<open>\<open>astimezone(timezone.utc)\<close> leaves the range of \<open>datetime\<close> with \<open>OverflowError\<close>.\<close>

definition to_utc :: "pydt \<Rightarrow> instant result" where
  "to_utc d = (if in_datetime_range (dt_instant d) then Inr (dt_instant d) else Inl OverflowError)"

definition to_iso :: "instant option \<Rightarrow> json" where
  "to_iso v = opt_json (\<lambda>t. JStr (iso_z t)) v"

definition resolve_timestamp :: "settings \<Rightarrow> pydt option \<Rightarrow> instant \<Rightarrow> instant result" where
  "resolve_timestamp cfg reported received_at =
     (case reported of
        None \<Rightarrow> Inr received_at
      | Some d \<Rightarrow>
          bindR (to_utc d)
            (\<lambda>t. if t - received_at > seconds (max_clock_skew_seconds cfg) then Inr received_at else Inr t))"

definition telemetry_to_broadcast_dict :: "telemetry_row \<Rightarrow> json_obj" where
  "telemetry_to_broadcast_dict t =
     [(''robot_id'', JNum (of_int (t_robot_id t))),
      (''battery'', JNum (t_battery t)),
      (''temperature'', JNum (t_temperature t)),
      (''speed'', JNum (t_speed t)),
      (''status'', opt_json JStr (t_status t)),
      (''mission_id'', opt_json JStr (t_mission_id t)),
      (''mission_type'', opt_json JStr (t_mission_type t)),
      (''mission_progress'', opt_json JNum (t_mission_progress t)),
      (''mission_start_time'', to_iso (t_mission_start_time t)),
      (''battery_health'', opt_json JNum (t_battery_health t)),
      (''motor_health'', opt_json JNum (t_motor_health t)),
      (''sensor_health'', opt_json JNum (t_sensor_health t)),
      (''network_health'', opt_json JNum (t_network_health t)),
      (''x'', opt_json JNum (t_x t)),
      (''y'', opt_json JNum (t_y t)),
      (''timestamp'', to_iso (Some (t_timestamp t)))]"

text \<open>\<open>data.model_dump(mode="json")\<close>: the fields in the order of the schema.\<close>

definition model_dump :: "(pydt \<Rightarrow> string) \<Rightarrow> telemetry_create \<Rightarrow> json_obj" where
  "model_dump dump_dt d =
     [(''robot_id'', JNum (of_int (tc_robot_id d))),
      (''battery'', JNum (tc_battery d)),
      (''temperature'', JNum (tc_temperature d)),
      (''speed'', JNum (tc_speed d)),
      (''timestamp'', opt_json (\<lambda>t. JStr (dump_dt t)) (tc_timestamp d)),
      (''status'', opt_json JStr (tc_status d)),
      (''mission_id'', opt_json JStr (tc_mission_id d)),
      (''mission_type'', opt_json JStr (tc_mission_type d)),
      (''mission_progress'', opt_json JNum (tc_mission_progress d)),
      (''mission_start_time'', opt_json (\<lambda>t. JStr (dump_dt t)) (tc_mission_start_time d)),
      (''battery_health'', opt_json JNum (tc_battery_health d)),
      (''motor_health'', opt_json JNum (tc_motor_health d)),
      (''sensor_health'', opt_json JNum (tc_sensor_health d)),
      (''network_health'', opt_json JNum (tc_network_health d)),
      (''x'', opt_json JNum (tc_x d)),
      (''y'', opt_json JNum (tc_y d))]"

definition queued_payload :: "(pydt \<Rightarrow> string) \<Rightarrow> telemetry_create \<Rightarrow> instant \<Rightarrow> json_obj" where
  "queued_payload dump_dt data ts = dict_set ''timestamp'' (to_iso (Some ts)) (model_dump dump_dt data)"

text \<open>
  The service's state: the tables, the deferred buffer, and the messages handed to
  \<open>manager.broadcast\<close> (immediately or as a background task).
\<close>

record ingest_state =
  tdb :: tele_db
  pending :: "(telemetry_create \<times> instant) list"
  broadcasts :: "json_obj list"

definition buffer_rows :: "(telemetry_create \<times> instant) list \<Rightarrow> ingest_state \<Rightarrow> ingest_state" where
  "buffer_rows rows st = st\<lparr>pending := pending st @ rows\<rparr>"

definition announce :: "json_obj list \<Rightarrow> ingest_state \<Rightarrow> ingest_state" where
  "announce ms st = st\<lparr>broadcasts := broadcasts st @ ms\<rparr>"

definition ingest ::
  "settings \<Rightarrow> (pydt \<Rightarrow> string) \<Rightarrow> nat \<Rightarrow> instant \<Rightarrow> telemetry_create \<Rightarrow> ingest_state \<Rightarrow> json_obj result \<times> ingest_state"
where
  "ingest cfg dump_dt viewers now data st =
     (case resolve_timestamp cfg (tc_timestamp data) now of
        Inl e \<Rightarrow> (Inl e, st)
      | Inr ts \<Rightarrow>
          if opt_redis_buffer cfg then
            (Inr [(''message'', JStr ''Telemetry queued in Redis''), (''id'', JNum 0)],
             announce [queued_payload dump_dt data ts] st)
          else if \<not> defer_writes_without_viewers cfg \<or> viewers > 0 then
            (case telemetry_insert data ts (tdb st) of
               Inl e \<Rightarrow> (Inl e, st)
             | Inr (row, db) \<Rightarrow>
                 (let db' = db\<lparr>robots := mark_seen now [(t_robot_id row, t_timestamp row)] (robots db)\<rparr>
                  in (Inr [(''message'', JStr ''Telemetry received''), (''id'', JNum (of_int (t_id row)))],
                      announce [telemetry_to_broadcast_dict row] (st\<lparr>tdb := db'\<rparr>))))
          else
            (Inr [(''message'', JStr ''Telemetry buffered''), (''id'', JNum 0)],
             announce [queued_payload dump_dt data ts] (buffer_rows [(data, ts)] st)))"

text \<open>The list comprehension over a batch: the first reading that raises ends it.\<close>

fun resolve_all :: "settings \<Rightarrow> instant \<Rightarrow> telemetry_create list \<Rightarrow> (telemetry_create \<times> instant) list result" where
  "resolve_all cfg now [] = Inr []"
| "resolve_all cfg now (d # ds) =
     bindR (resolve_timestamp cfg (tc_timestamp d) now) (\<lambda>ts. bindR (resolve_all cfg now ds) (\<lambda>rs. Inr ((d, ts) # rs)))"

definition count_message :: "nat \<Rightarrow> string \<Rightarrow> json_obj" where
  "count_message n what = [(''message'', JStr (nat_str n @ '' telemetry readings '' @ what))]"

definition ingest_batch ::
  "settings \<Rightarrow> (pydt \<Rightarrow> string) \<Rightarrow> nat \<Rightarrow> instant \<Rightarrow> telemetry_create list \<Rightarrow> ingest_state \<Rightarrow> json_obj result \<times> ingest_state"
where
  "ingest_batch cfg dump_dt viewers now data st =
     (case resolve_all cfg now data of
        Inl e \<Rightarrow> (Inl e, st)
      | Inr rows \<Rightarrow>
          if opt_redis_buffer cfg then
            (Inr (count_message (length data) ''queued in Redis''),
             announce (map (\<lambda>(d, ts). queued_payload dump_dt d ts) rows) st)
          else if \<not> defer_writes_without_viewers cfg \<or> viewers > 0 then
            (case insert_many rows (tdb st) of
               Inl e \<Rightarrow> (Inl e, st)
             | Inr (telemetries, db) \<Rightarrow>
                 (let db' = db\<lparr>robots := mark_seen now (latest_by_robot telemetries) (robots db)\<rparr>
                  in (Inr (count_message (length data) ''received''),
                      announce (map telemetry_to_broadcast_dict telemetries) (st\<lparr>tdb := db'\<rparr>))))
          else
            (Inr (count_message (length data) ''buffered''),
             announce (map (\<lambda>(d, ts). queued_payload dump_dt d ts) rows) (buffer_rows rows st)))"

section \<open>The deferred buffer\<close>

text \<open>
  \<open>flush\<close>: the pending rows are taken, inserted and committed by \<open>insert_many\<close>, and then the
  roster statement runs inside the same \<open>session.begin()\<close> block. \<open>ctx_check\<close> says whether the
  session refuses statements in a block whose transaction was already committed, as
  SQLAlchemy 2 documents it does.
\<close>

definition flush :: "bool \<Rightarrow> instant \<Rightarrow> ingest_state \<Rightarrow> nat result \<times> ingest_state" where
  "flush ctx_check dbnow st =
     (let rows = pending st; st1 = st\<lparr>pending := []\<rparr>
      in if rows = [] then (Inr 0, st1)
         else case insert_many rows (tdb st1) of
           Inl e \<Rightarrow> (Inl e, st1)
         | Inr (telemetries, db) \<Rightarrow>
             if ctx_check \<and> latest_by_robot telemetries \<noteq> [] then (Inl InvalidRequestError, st1\<lparr>tdb := db\<rparr>)
             else (Inr (length rows),
                   st1\<lparr>tdb := db\<lparr>robots := mark_seen dbnow (latest_by_robot telemetries) (robots db)\<rparr>\<rparr>))"

text \<open>A turn of \<open>flush_loop\<close>: exceptions are logged and the loop goes on.\<close>

definition flush_turn :: "bool \<Rightarrow> instant \<Rightarrow> ingest_state \<Rightarrow> ingest_state" where
  "flush_turn ctx_check dbnow st = snd (flush ctx_check dbnow st)"

section \<open>Routes\<close>

definition create_telemetry ::
  "settings \<Rightarrow> (pydt \<Rightarrow> string) \<Rightarrow> nat \<Rightarrow> instant \<Rightarrow> string option \<Rightarrow> telemetry_create \<Rightarrow> ingest_state
   \<Rightarrow> json_obj result \<times> ingest_state"
where
  "create_telemetry cfg dump_dt viewers now x_api_key data st =
     (case verify_api_key cfg x_api_key of Inl e \<Rightarrow> (Inl e, st) | Inr _ \<Rightarrow> ingest cfg dump_dt viewers now data st)"

definition create_telemetry_batch ::
  "settings \<Rightarrow> (pydt \<Rightarrow> string) \<Rightarrow> nat \<Rightarrow> instant \<Rightarrow> string option \<Rightarrow> telemetry_create list \<Rightarrow> ingest_state
   \<Rightarrow> json_obj result \<times> ingest_state"
where
  "create_telemetry_batch cfg dump_dt viewers now x_api_key data st =
     (case verify_api_key cfg x_api_key of Inl e \<Rightarrow> (Inl e, st) | Inr _ \<Rightarrow> ingest_batch cfg dump_dt viewers now data st)"

interpretation ingesting: guarded_route
  "\<lambda>(key, viewers, now, data). verify_api_key cfg key"
  "\<lambda>(key, viewers, now, data) st. ingest cfg dump_dt viewers now data st"
  "\<lambda>e st. (Inl e, st)"
  "\<lambda>(key, viewers, now, data) st. create_telemetry cfg dump_dt viewers now key data st"
  by unfold_locales (auto simp: create_telemetry_def)

interpretation ingesting_batch: guarded_route
  "\<lambda>(key, viewers, now, data). verify_api_key cfg key"
  "\<lambda>(key, viewers, now, data) st. ingest_batch cfg dump_dt viewers now data st"
  "\<lambda>e st. (Inl e, st)"
  "\<lambda>(key, viewers, now, data) st. create_telemetry_batch cfg dump_dt viewers now key data st"
  by unfold_locales (auto simp: create_telemetry_batch_def)

text \<open>\<open>get_recent\<close>: newest identifiers first.\<close>

fun insert_desc :: "telemetry_row \<Rightarrow> telemetry_row list \<Rightarrow> telemetry_row list" where
  "insert_desc r [] = [r]"
| "insert_desc r (s # rs) = (if t_id s < t_id r then r # s # rs else s # insert_desc r rs)"

definition get_recent :: "nat \<Rightarrow> nat \<Rightarrow> telemetry_row list \<Rightarrow> telemetry_row list" where
  "get_recent limit skip t = take limit (drop skip (fold insert_desc t []))"

definition get_telemetry :: "settings \<Rightarrow> string option \<Rightarrow> int \<Rightarrow> int \<Rightarrow> tele_db \<Rightarrow> telemetry_row list result" where
  "get_telemetry cfg x_api_key limit skip db =
     bindR (verify_api_key cfg x_api_key)
       (\<lambda>_. let l = min limit 200
             in if l < 0 \<or> skip < 0 then Inl DataError else Inr (get_recent (nat l) (nat skip) (readings db)))"

section \<open>The contract of a last-seen register\<close>

text \<open>
  A register keeps at most one instant per robot and only moves it forward. Its clients rely on
  two laws: a sighting joins with what is stored, and other robots are left alone.
\<close>

definition join_seen :: "instant option \<Rightarrow> instant option \<Rightarrow> instant option" where
  "join_seen a b = (case (a, b) of (None, b) \<Rightarrow> b | (a, None) \<Rightarrow> a | (Some s, Some t) \<Rightarrow> Some (max s t))"

lemma join_seen_simps [simp]:
  "join_seen None b = b" "join_seen a None = a" "join_seen (Some s) (Some t) = Some (max s t)"
  by (auto simp: join_seen_def split: option.splits)

lemma join_seen_assoc: "join_seen (join_seen a b) c = join_seen a (join_seen b c)"
  by (cases a; cases b; cases c) (auto simp: max.assoc)

lemma join_seen_commute: "join_seen a b = join_seen b a"
  by (cases a; cases b) (auto simp: max.commute)

lemma join_seen_idem: "join_seen (join_seen a b) b = join_seen a b"
  by (cases a; cases b) auto

definition max_of :: "instant list \<Rightarrow> instant option" where
  "max_of ts = fold (\<lambda>t a. join_seen a (Some t)) ts None"

lemma fold_join_seen: "fold (\<lambda>t a. join_seen a (Some t)) ts a = join_seen a (max_of ts)"
proof (induction ts arbitrary: a)
  case (Cons t ts)
  have "max_of (t # ts) = join_seen (Some t) (max_of ts)"
    using Cons [of "Some t"] by (simp add: max_of_def)
  then show ?case using Cons [of "join_seen a (Some t)"] by (simp add: join_seen_assoc)
qed (simp add: max_of_def)

lemma max_of_simps [simp]: "max_of [] = None" "max_of (t # ts) = join_seen (Some t) (max_of ts)"
  using fold_join_seen [of ts "Some t"] by (simp_all add: max_of_def)

lemma max_of_append: "max_of (ts @ us) = join_seen (max_of ts) (max_of us)"
  by (induction ts) (simp_all add: join_seen_assoc)

lemma max_of_Max: "max_of ts = (if ts = [] then None else Some (Max (set ts)))"
proof (induction ts)
  case (Cons t ts)
  then show ?case by (cases "ts = []") auto
qed simp

locale last_seen_register =
  fixes seen :: "'s \<Rightarrow> int \<Rightarrow> instant option" and mark :: "(int \<times> instant) list \<Rightarrow> 's \<Rightarrow> 's"
    and wf :: "'s \<Rightarrow> bool"
  assumes mark_joins: "wf s \<Longrightarrow> distinct (map fst d) \<Longrightarrow> seen (mark d s) r = join_seen (seen s r) (map_of d r)"
    and mark_wf: "wf s \<Longrightarrow> distinct (map fst d) \<Longrightarrow> wf (mark d s)"
begin

lemma never_back:
  "wf s \<Longrightarrow> distinct (map fst d) \<Longrightarrow> seen s r = Some t \<Longrightarrow> \<exists>t' \<ge> t. seen (mark d s) r = Some t'"
  by (cases "map_of d r") (auto simp: mark_joins)

lemma replay:
  "wf s \<Longrightarrow> distinct (map fst d) \<Longrightarrow> seen (mark d (mark d s)) r = seen (mark d s) r"
  by (simp add: mark_joins mark_wf join_seen_idem)

lemma marks:
  "wf s \<Longrightarrow> \<forall>d \<in> set ds. distinct (map fst d) \<Longrightarrow>
   wf (fold mark ds s) \<and> seen (fold mark ds s) r = join_seen (seen s r) (max_of (List.map_filter (\<lambda>d. map_of d r) ds))"
proof (induction ds arbitrary: s)
  case Nil
  then show ?case by (simp add: map_filter_simps)
next
  case (Cons d ds)
  then show ?case
    using Cons.IH [of "mark d s"]
    by (cases "map_of d r") (auto simp: mark_joins mark_wf map_filter_simps join_seen_assoc)
qed

end

definition last_seen_of :: "robot list \<Rightarrow> int \<Rightarrow> instant option" where
  "last_seen_of t rid = (case List.find (\<lambda>r. r_id r = rid) t of None \<Rightarrow> None | Some r \<Rightarrow> r_last_seen r)"

definition roster_wf :: "robot list \<Rightarrow> bool" where
  "roster_wf t \<longleftrightarrow> distinct (map r_id t)"

lemma find_append: "List.find p (t @ u) = (case List.find p t of None \<Rightarrow> List.find p u | Some r \<Rightarrow> Some r)"
  by (induction t) auto

lemma find_update_where_same:
  "(\<And>r. p r \<Longrightarrow> p (f r)) \<Longrightarrow> List.find p (update_where p f t) = map_option f (List.find p t)"
  by (induction t) (auto simp: update_where_def)

lemma find_update_where_other:
  "(\<And>r. p r \<Longrightarrow> \<not> q r \<and> \<not> q (f r)) \<Longrightarrow> List.find q (update_where p f t) = List.find q t"
  by (induction t) (auto simp: update_where_def)

lemma upsert_last_seen:
  "last_seen_of (upsert_robot now (rid, ts) t) r = (if r = rid then join_seen (last_seen_of t r) (Some ts) else last_seen_of t r)"
proof (cases "list_ex (\<lambda>r. r_id r = rid) t")
  case True
  then obtain s where s: "List.find (\<lambda>r. r_id r = rid) t = Some s"
    by (cases "List.find (\<lambda>r. r_id r = rid) t") (auto simp: find_None_iff list_ex_iff)
  let ?f = "\<lambda>r. r\<lparr>r_last_seen := Some (greatest_seen ts (r_last_seen r))\<rparr>"
  have "List.find (\<lambda>x. r_id x = r) (update_where (\<lambda>r. r_id r = rid) ?f t) = List.find (\<lambda>x. r_id x = r) t" if "r \<noteq> rid"
    using that by (intro find_update_where_other) auto
  moreover have "List.find (\<lambda>x. r_id x = rid) (update_where (\<lambda>r. r_id r = rid) ?f t) = Some (?f s)"
    using s by (simp add: find_update_where_same)
  ultimately show ?thesis
    using True s by (cases "r_last_seen s")
       (auto simp: upsert_robot_def last_seen_of_def greatest_seen_def max.commute)
next
  case False
  then have "List.find (\<lambda>r. r_id r = rid) t = None"
    by (auto simp: find_None_iff list_ex_iff)
  with False show ?thesis
    by (auto simp: upsert_robot_def last_seen_of_def find_append split: option.splits)
qed

lemma upsert_wf: "roster_wf t \<Longrightarrow> roster_wf (upsert_robot now item t)"
proof -
  have "map r_id (update_where p (\<lambda>r. r\<lparr>r_last_seen := g r\<rparr>) t) = map r_id t" for p g
    by (rule map_update_where) simp
  then show "roster_wf t \<Longrightarrow> roster_wf (upsert_robot now item t)"
    by (auto simp: roster_wf_def upsert_robot_def list_ex_iff split: prod.splits)
qed

lemma mark_seen_laws:
  "distinct (map fst d) \<Longrightarrow> roster_wf t \<Longrightarrow>
   roster_wf (mark_seen now d t) \<and> last_seen_of (mark_seen now d t) r = join_seen (last_seen_of t r) (map_of d r)"
proof -
  have "distinct (map fst d) \<Longrightarrow> roster_wf t \<Longrightarrow>
    roster_wf (fold (upsert_robot now) d t) \<and>
    last_seen_of (fold (upsert_robot now) d t) r = join_seen (last_seen_of t r) (map_of d r)" for d t
  proof (induction d arbitrary: t)
    case (Cons a d)
    obtain rid ts where a: "a = (rid, ts)" by (cases a)
    have "map_of d rid = None" using Cons.prems(1) a by (simp add: map_of_eq_None_iff)
    with Cons.IH [of "upsert_robot now a t"] Cons.prems a show ?case
      by (auto simp: upsert_last_seen upsert_wf)
  qed simp
  then show "distinct (map fst d) \<Longrightarrow> roster_wf t \<Longrightarrow>
   roster_wf (mark_seen now d t) \<and> last_seen_of (mark_seen now d t) r = join_seen (last_seen_of t r) (map_of d r)"
    by (simp add: mark_seen_def)
qed

interpretation roster: last_seen_register last_seen_of "mark_seen now" roster_wf
  by unfold_locales (simp_all add: mark_seen_laws)

section \<open>Lemmas\<close>

lemma note_latest_get: "map_of (note_latest rid ts d) r = (if r = rid then join_seen (map_of d r) (Some ts) else map_of d r)"
  by (cases "map_of d rid") (auto simp: note_latest_def max_def)

lemma note_latest_distinct: "distinct (map fst d) \<Longrightarrow> distinct (map fst (note_latest rid ts d))"
  by (auto simp: note_latest_def distinct_dict_set split: option.splits)

definition stamps :: "int \<Rightarrow> telemetry_row list \<Rightarrow> instant list" where
  "stamps rid rows = map t_timestamp (filter (\<lambda>t. t_robot_id t = rid) rows)"

lemma stamps_append [simp]: "stamps rid (a @ b) = stamps rid a @ stamps rid b"
  by (simp add: stamps_def)

lemma latest_fold:
  "distinct (map fst d) \<Longrightarrow>
   distinct (map fst (fold (\<lambda>t. note_latest (t_robot_id t) (t_timestamp t)) rows d)) \<and>
   map_of (fold (\<lambda>t. note_latest (t_robot_id t) (t_timestamp t)) rows d) r = join_seen (map_of d r) (max_of (stamps r rows))"
proof (induction rows arbitrary: d)
  case (Cons t rows)
  from Cons.IH [OF note_latest_distinct [OF Cons.prems], of "t_robot_id t" "t_timestamp t"]
  show ?case by (auto simp: note_latest_get stamps_def join_seen_assoc)
qed (simp add: stamps_def)

lemma latest_by_robot_laws:
  "distinct (map fst (latest_by_robot rows))" "map_of (latest_by_robot rows) r = max_of (stamps r rows)"
  using latest_fold [of "[]" rows r] by (simp_all add: latest_by_robot_def)

lemma latest_by_robot_nonempty: "rows \<noteq> [] \<Longrightarrow> latest_by_robot rows \<noteq> []"
  using latest_by_robot_laws(2) [of rows "t_robot_id (hd rows)"]
  by (cases rows) (auto simp: stamps_def max_of_Max)

lemma new_row_id [simp]: "(new_row i data ts)\<lparr>t_id := j\<rparr> = new_row j data ts"
  by (simp add: new_row_def)

lemma number_rows_length [simp]: "length (number_rows i rows) = length rows"
  by (induction i rows rule: number_rows.induct) auto

section \<open>Properties\<close>

text \<open>
  C20: The roster follows the readings whatever the order they are written in. After any
  sequence of batches, with late, repeated and out-of-order ones among them, a robot's
  \<open>last_seen\<close> is the greatest of what was stored before and of all its timestamps in those
  batches. So it never moves back, a replayed batch changes nothing, and two deliveries of
  the same readings in different orders agree.
\<close>

theorem roster_tracks_latest:
  assumes "roster_wf t"
  shows "last_seen_of (fold (\<lambda>(now, rows). mark_seen now (latest_by_robot rows)) batches t) rid =
    (let ts = stamps rid (concat (map snd batches))
     in case (last_seen_of t rid, ts) of
          (None, []) \<Rightarrow> None
        | (None, _) \<Rightarrow> Some (Max (set ts))
        | (Some s, _) \<Rightarrow> Some (Max (insert s (set ts))))"
proof -
  have "roster_wf t \<Longrightarrow> last_seen_of (fold (\<lambda>(now, rows). mark_seen now (latest_by_robot rows)) batches t) rid =
      join_seen (last_seen_of t rid) (max_of (stamps rid (concat (map snd batches))))" for t
  proof (induction batches arbitrary: t)
    case (Cons b batches)
    obtain now rows where b: "b = (now, rows)" by (cases b)
    have "roster_wf (mark_seen now (latest_by_robot rows) t)"
      "last_seen_of (mark_seen now (latest_by_robot rows) t) rid = join_seen (last_seen_of t rid) (max_of (stamps rid rows))"
      using roster.mark_wf [OF Cons.prems] roster.mark_joins [OF Cons.prems] latest_by_robot_laws [of rows] by auto
    with Cons.IH show ?case by (simp add: b max_of_append join_seen_assoc)
  qed (simp add: stamps_def)
  with assms show ?thesis
    by (auto simp: max_of_Max Let_def split: option.splits list.splits)
qed

definition sample_reading :: "instant \<Rightarrow> telemetry_create" where
  "sample_reading t = \<lparr>tc_robot_id = 7, tc_battery = 80, tc_temperature = 30, tc_speed = 1, tc_timestamp = Some (utc_dt t),
     tc_status = Some ''ACTIVE'', tc_mission_id = None, tc_mission_type = None, tc_mission_progress = None,
     tc_mission_start_time = None, tc_battery_health = None, tc_motor_health = None, tc_sensor_health = None,
     tc_network_health = None, tc_x = None, tc_y = None\<rparr>"

theorem roster_tracks_latest_witness:
  "last_seen_of (fold (\<lambda>(now, rows). mark_seen now (latest_by_robot rows))
     [(100, [new_row 1 (sample_reading 90) 90]), (101, [new_row 2 (sample_reading 40) 40])] []) 7 = Some 90"
  using roster_tracks_latest [of "[]" "[(100, [new_row 1 (sample_reading 90) 90]), (101, [new_row 2 (sample_reading 40) 40])]" 7]
  by (simp add: roster_wf_def last_seen_of_def stamps_def new_row_def sample_reading_def)

text \<open>
  A direct ingest, on every branch. A reading whose time cannot be expressed in UTC or
  whose values do not fit their columns is refused and changes nothing. Otherwise exactly one
  row is appended, carrying the reading and the device's time unless that is more than the
  configured skew ahead of the server, in which case it carries the server's time; so no
  stored time is further ahead than the skew. The robot is in the roster afterwards with a
  \<open>last_seen\<close> at least as late, one message describing the stored row is announced, and its
  identifier is returned.
\<close>

theorem ingest_direct_correct:
  assumes direct: "\<not> opt_redis_buffer cfg" "\<not> defer_writes_without_viewers cfg \<or> 0 < viewers"
    and wf: "roster_wf (robots (tdb st))" and skew: "0 \<le> max_clock_skew_seconds cfg"
    and run: "ingest cfg dump_dt viewers now data st = (r, st')"
  shows "(case r of
      Inl e \<Rightarrow> st' = st \<and> (e = OverflowError \<or> e = DataError)
    | Inr ack \<Rightarrow>
        (\<exists>ts row. ts = (case tc_timestamp data of None \<Rightarrow> now
                      | Some d \<Rightarrow> if dt_instant d \<le> now + seconds (max_clock_skew_seconds cfg) then dt_instant d else now)
           \<and> ts \<le> now + seconds (max_clock_skew_seconds cfg)
           \<and> row = new_row (next_id (tdb st)) data ts
           \<and> readings (tdb st') = readings (tdb st) @ [row] \<and> next_id (tdb st') = next_id (tdb st) + 1
           \<and> last_seen_of (robots (tdb st')) (tc_robot_id data) = join_seen (last_seen_of (robots (tdb st)) (tc_robot_id data)) (Some ts)
           \<and> (\<forall>q. q \<noteq> tc_robot_id data \<longrightarrow> last_seen_of (robots (tdb st')) q = last_seen_of (robots (tdb st)) q)
           \<and> pending st' = pending st
           \<and> broadcasts st' = broadcasts st @ [telemetry_to_broadcast_dict row]
           \<and> ack = [(''message'', JStr ''Telemetry received''), (''id'', JNum (of_int (next_id (tdb st))))]))"
proof (cases "resolve_timestamp cfg (tc_timestamp data) now")
  case (Inl e)
  then have "e = OverflowError"
    by (auto simp: resolve_timestamp_def to_utc_def bindR_eq_Inl split: option.splits if_splits)
  with Inl run show ?thesis by (auto simp: ingest_def)
next
  case (Inr ts)
  let ?lim = "now + seconds (max_clock_skew_seconds cfg)"
  have ts: "ts = (case tc_timestamp data of None \<Rightarrow> now | Some d \<Rightarrow> if dt_instant d \<le> ?lim then dt_instant d else now)"
    using Inr by (auto simp: resolve_timestamp_def to_utc_def bindR_eq_Inr not_le split: option.splits if_splits)
  have bound: "ts \<le> ?lim"
    using skew ts by (auto simp: seconds_def split: option.splits if_splits)
  let ?row = "new_row (next_id (tdb st)) data ts"
  show ?thesis
  proof (cases "telemetry_row_ok ?row")
    case False
    with Inr run direct show ?thesis by (auto simp: ingest_def telemetry_insert_def)
  next
    case True
    have ids: "t_id ?row = next_id (tdb st)" "t_robot_id ?row = tc_robot_id data" "t_timestamp ?row = ts"
      "?row\<lparr>t_id := next_id (tdb st)\<rparr> = ?row"
      by (simp_all add: new_row_def)
    have seen: "last_seen_of (mark_seen now [(tc_robot_id data, ts)] (robots (tdb st))) q =
        join_seen (last_seen_of (robots (tdb st)) q) (map_of [(tc_robot_id data, ts)] q)" for q
      using roster.mark_joins [OF wf, of "[(tc_robot_id data, ts)]"] by simp
    have "r = Inr [(''message'', JStr ''Telemetry received''), (''id'', JNum (of_int (next_id (tdb st))))]"
      "readings (tdb st') = readings (tdb st) @ [?row]" "next_id (tdb st') = next_id (tdb st) + 1"
      "robots (tdb st') = mark_seen now [(tc_robot_id data, ts)] (robots (tdb st))"
      "pending st' = pending st" "broadcasts st' = broadcasts st @ [telemetry_to_broadcast_dict ?row]"
      using Inr run direct True ids
      by (auto simp: ingest_def telemetry_insert_def add_row_def announce_def Let_def)
    with ts bound seen show ?thesis by simp
  qed
qed

definition empty_ingest :: ingest_state where
  "empty_ingest = \<lparr>tdb = \<lparr>readings = [], robots = [], next_id = 1\<rparr>, pending = [], broadcasts = []\<rparr>"

definition direct_settings :: settings where
  "direct_settings = (default_settings ''db'' ''k'')\<lparr>opt_redis_buffer := False\<rparr>"

theorem ingest_direct_correct_witness:
  "\<exists>ack st'. ingest direct_settings (\<lambda>d. []) 0 50 (sample_reading 90) empty_ingest = (Inr ack, st')
     \<and> last_seen_of (robots (tdb st')) 7 = Some 90"
proof -
  have s: "\<not> opt_redis_buffer direct_settings" "\<not> defer_writes_without_viewers direct_settings"
    "max_clock_skew_seconds direct_settings = 300"
    by (simp_all add: direct_settings_def default_settings_def)
  obtain r st' where run: "ingest direct_settings (\<lambda>d. []) 0 50 (sample_reading 90) empty_ingest = (r, st')"
    by fastforce
  have "\<exists>ack. r = Inr ack"
    using run s
    by (auto simp: ingest_def resolve_timestamp_def to_utc_def in_datetime_range_def sample_reading_def seconds_def
        telemetry_insert_def telemetry_row_ok_def new_row_def int4_def fits_def Let_def split: prod.splits)
  moreover have "roster_wf (robots (tdb empty_ingest))" by (simp add: empty_ingest_def roster_wf_def)
  ultimately show ?thesis
    using ingest_direct_correct [OF s(1) disjI1 [OF s(2)] _ _ run] run s(3)
    by (auto simp: sample_reading_def seconds_def empty_ingest_def last_seen_of_def)
qed

text \<open>
  Dashboards see the same message on every path: the payload the buffered and the deferred
  path announce and the one the direct path announces for the same reading and resolved time
  are the same dictionary, given that pydantic renders the mission's start time the way
  \<open>_to_iso\<close> does.
\<close>

theorem ingest_paths_same_message:
  assumes "\<And>d. tc_mission_start_time data = Some d \<Longrightarrow> dump_dt d = iso_z (dt_instant d)"
  shows "dict_get (queued_payload dump_dt data ts) = dict_get (telemetry_to_broadcast_dict (new_row i data ts))"
proof -
  have "to_iso (map_option dt_instant (tc_mission_start_time data)) =
      opt_json (\<lambda>t. JStr (dump_dt t)) (tc_mission_start_time data)"
    using assms by (cases "tc_mission_start_time data") (simp_all add: to_iso_def opt_json_def)
  then show ?thesis
    unfolding queued_payload_def map_of_dict_set
    by (simp add: model_dump_def telemetry_to_broadcast_dict_def new_row_def fun_upd_twist)
qed

theorem ingest_paths_same_message_witness:
  "dict_get (queued_payload (\<lambda>d. []) (sample_reading 90) 90) = dict_get (telemetry_to_broadcast_dict (new_row 1 (sample_reading 90) 90))"
  by (rule ingest_paths_same_message) (simp add: sample_reading_def)

text \<open>
  Deferring changes when rows are written, not what is written. A batch that arrives while
  nobody is watching and is flushed later leaves, row for row and in the roster, what the
  direct path would have written at once, where the session accepts the roster statement.
\<close>

theorem deferred_flush_equals_direct:
  assumes "\<not> opt_redis_buffer cfg" and "defer_writes_without_viewers cfg" and "pending st = []"
    and "resolve_all cfg now data = Inr rows" and "list_all telemetry_row_ok (number_rows (next_id (tdb st)) rows)"
  shows "tdb (snd (flush False now (snd (ingest_batch cfg dump_dt 0 now data st)))) =
      tdb (snd (ingest_batch cfg dump_dt 1 now data st))
    \<and> pending (snd (flush False now (snd (ingest_batch cfg dump_dt 0 now data st)))) = []"
proof -
  have "rows = [] \<Longrightarrow> insert_many rows (tdb st) = Inr ([], tdb st)"
    by (simp add: insert_many_def)
  moreover have "mark_seen now (latest_by_robot []) t = t" for t
    by (simp add: mark_seen_def latest_by_robot_def)
  ultimately show ?thesis
    using assms
    by (cases "rows = []")
       (simp_all add: ingest_batch_def flush_def buffer_rows_def announce_def insert_many_def Let_def)
qed

theorem deferred_flush_equals_direct_witness:
  "tdb (snd (flush False 50 (snd (ingest_batch (direct_settings\<lparr>defer_writes_without_viewers := True\<rparr>) (\<lambda>d. []) 0 50 [sample_reading 90] empty_ingest)))) =
   tdb (snd (ingest_batch (direct_settings\<lparr>defer_writes_without_viewers := True\<rparr>) (\<lambda>d. []) 1 50 [sample_reading 90] empty_ingest))"
  using deferred_flush_equals_direct [of "direct_settings\<lparr>defer_writes_without_viewers := True\<rparr>" empty_ingest 50 "[sample_reading 90]" "[(sample_reading 90, 90)]" "\<lambda>d. []"]
  by (simp add: direct_settings_def default_settings_def empty_ingest_def resolve_timestamp_def to_utc_def in_datetime_range_def
      sample_reading_def seconds_def telemetry_row_ok_def new_row_def int4_def fits_def)

text \<open>
  What a flush can end in, with a session that refuses statements after an inner commit.
  The buffer is always emptied. If every row fits its columns the rows are written, in order,
  but the flush still raises and the roster is not advanced; if one does not fit, no row is
  written and every reading that was buffered is gone, although the loop reports that it will
  retry.
\<close>

theorem flush_outcomes:
  assumes "pending st \<noteq> []" and "flush True dbnow st = (r, st')"
  shows "pending st' = [] \<and> broadcasts st' = broadcasts st \<and> robots (tdb st') = robots (tdb st)
    \<and> (if list_all telemetry_row_ok (number_rows (next_id (tdb st)) (pending st))
       then r = Inl InvalidRequestError \<and> readings (tdb st') = readings (tdb st) @ number_rows (next_id (tdb st)) (pending st)
       else r = Inl DataError \<and> readings (tdb st') = readings (tdb st))"
proof -
  let ?rs = "number_rows (next_id (tdb st)) (pending st)"
  have "?rs \<noteq> []" using assms(1) number_rows_length [of "next_id (tdb st)" "pending st"] by fastforce
  then have "latest_by_robot ?rs \<noteq> []" by (rule latest_by_robot_nonempty)
  with assms show ?thesis
    by (auto simp: flush_def insert_many_def Let_def split: if_splits)
qed

theorem flush_outcomes_witness:
  "readings (tdb (snd (flush True 60 (empty_ingest\<lparr>pending := [((sample_reading 90)\<lparr>tc_robot_id := 3000000000\<rparr>, 90), (sample_reading 91, 91)]\<rparr>)))) = []
   \<and> pending (snd (flush True 60 (empty_ingest\<lparr>pending := [((sample_reading 90)\<lparr>tc_robot_id := 3000000000\<rparr>, 90), (sample_reading 91, 91)]\<rparr>))) = []"
  using flush_outcomes [of "empty_ingest\<lparr>pending := [((sample_reading 90)\<lparr>tc_robot_id := 3000000000\<rparr>, 90), (sample_reading 91, 91)]\<rparr>" 60
     "fst (flush True 60 (empty_ingest\<lparr>pending := [((sample_reading 90)\<lparr>tc_robot_id := 3000000000\<rparr>, 90), (sample_reading 91, 91)]\<rparr>))"
     "snd (flush True 60 (empty_ingest\<lparr>pending := [((sample_reading 90)\<lparr>tc_robot_id := 3000000000\<rparr>, 90), (sample_reading 91, 91)]\<rparr>))"]
  by (simp add: empty_ingest_def telemetry_row_ok_def new_row_def int4_def)

end
