(* ===== verification/FleetSimRobot.thy ===== *)
theory FleetSimRobot
  imports FleetTelemetry
begin

text \<open>
  The simulated robot (\<open>simulator/robot_sim.py\<close>): missions, commands, the physics of one tick of
  \<open>robot_loop\<close> and the reading it emits. Positions, charges and temperatures are reals;
  \<open>math.hypot\<close>, \<open>math.cos\<close> and \<open>math.sin\<close> are the real functions. Every call of the random
  generator is a draw \<open>u site\<close> between 0 and 1, named by its call site, so that a statement for
  all draws covers every seed. A tick answers the next state and what it sends, in order.
\<close>

section \<open>State\<close>

record mission_step =
  ms_x :: real
  ms_y :: real
  ms_label :: string
  ms_pause_s :: real

record mission =
  mi_id :: string
  mi_type :: string
  mi_steps :: "mission_step list"
  mi_home_x :: real
  mi_home_y :: real
  progress_weight :: rat
  current_step :: nat

record robot_state =
  rb_id :: int
  rb_battery :: real
  rb_temperature :: real
  rb_speed :: real
  rb_status :: string
  rb_online :: bool
  rb_mission :: "mission option"
  rb_mission_id :: "string option"
  rb_mission_progress :: "rat option"
  rb_mission_start_time :: "instant option"
  rb_battery_health :: real
  rb_motor_health :: real
  rb_sensor_health :: real
  rb_network_health :: real
  rb_x :: real
  rb_y :: real
  rb_last_update_s :: real
  rb_pause_until_s :: real
  rb_completion_count :: nat
  rb_blackout_until :: real
  rb_charging_suspended :: bool
  rb_dead_since :: real
  rb_returning_to_charge :: bool
  rb_processed :: "string list"
  rb_in_fence :: bool
  rb_fence_cooldown_until :: real

type_synonym draws = "string \<Rightarrow> real"

definition draws_ok :: "draws \<Rightarrow> bool" where
  "draws_ok u = (\<forall>site. 0 \<le> u site \<and> u site \<le> 1)"

text \<open>\<open>rng.uniform(a, b)\<close> from one draw.\<close>

definition uniform :: "real \<Rightarrow> real \<Rightarrow> real \<Rightarrow> real" where
  "uniform a b v = a + (b - a) * v"

section \<open>Helpers\<close>

definition clamp :: "real \<Rightarrow> real \<Rightarrow> real \<Rightarrow> real" where
  "clamp v lo hi = max lo (min hi v)"

definition lerp :: "real \<Rightarrow> real \<Rightarrow> real \<Rightarrow> real" where
  "lerp a b t = a + (b - a) * t"

definition hypot :: "real \<Rightarrow> real \<Rightarrow> real" where
  "hypot dx dy = sqrt (dx\<^sup>2 + dy\<^sup>2)"

definition WEAR_ACCELERATION :: real where
  "WEAR_ACCELERATION = 6"

text \<open>Battery, motor, sensor and network health; \<open>betavariate\<close> answers a number between 0 and 1.\<close>

definition component_health :: "real \<Rightarrow> real \<Rightarrow> real \<Rightarrow> real" where
  "component_health age max_wear v = clamp (100 - age * max_wear * uniform (3/4) (5/4) v) 25 100"

definition initial_component_health :: "draws \<Rightarrow> real option \<Rightarrow> real \<times> real \<times> real \<times> real" where
  "initial_component_health u service_age =
     (let age = (case service_age of None \<Rightarrow> u ''betavariate'' | Some a \<Rightarrow> a)
      in (component_health age 55 (u ''battery health''), component_health age 70 (u ''motor health''),
          component_health age 45 (u ''sensor health''), component_health age 40 (u ''network health'')))"

definition random_point :: "real \<Rightarrow> real \<Rightarrow> real \<Rightarrow> real \<times> real" where
  "random_point v w radius =
     (let angle = v * (2 * pi); distance = radius * sqrt w in (cos angle * distance, sin angle * distance))"

section \<open>Missions\<close>

text \<open>
  \<open>build_mission\<close>: \<open>n\<close> is the draw of \<open>randint\<close>, \<open>pt\<close> the pair of draws for the \<open>i\<close>-th point and
  \<open>pause\<close> the draw for its pause.
\<close>

definition at_point :: "real \<times> real \<Rightarrow> real \<Rightarrow> string \<Rightarrow> real \<Rightarrow> mission_step" where
  "at_point p radius lbl pause =
     (let q = random_point (fst p) (snd p) radius
      in \<lparr>ms_x = fst q, ms_y = snd q, ms_label = lbl, ms_pause_s = pause\<rparr>)"

definition base_step :: mission_step where
  "base_step = \<lparr>ms_x = 0, ms_y = 0, ms_label = ''Return to base'', ms_pause_s = 0\<rparr>"

definition mission_of :: "string \<Rightarrow> string \<Rightarrow> mission_step list \<Rightarrow> mission" where
  "mission_of mission_id mission_type steps =
     \<lparr>mi_id = mission_id, mi_type = mission_type, mi_steps = steps, mi_home_x = 0, mi_home_y = 0,
      progress_weight = 100 / of_nat (length steps), current_step = 0\<rparr>"

definition build_mission ::
  "string \<Rightarrow> string \<Rightarrow> nat \<Rightarrow> (nat \<Rightarrow> real \<times> real) \<Rightarrow> (nat \<Rightarrow> real) \<Rightarrow> real \<Rightarrow> mission"
where
  "build_mission mission_id mission_type n pt pause radius =
     mission_of mission_id mission_type
       (if mission_type = ''PATROL''
        then map (\<lambda>i. at_point (pt i) radius (''Checkpoint '' @ nat_str (i + 1)) 0) [0..<n] @ [base_step]
        else if mission_type = ''DELIVERY''
        then [at_point (pt 0) (radius * (8/10)) ''Pickup'' 0, at_point (pt 1) radius ''Delivery'' 0, base_step]
        else map (\<lambda>i. at_point (pt i) (radius * (9/10)) (''Inspection '' @ nat_str (i + 1)) (uniform 2 4 (pause i))) [0..<n])"

definition assign_mission :: "instant \<Rightarrow> mission \<Rightarrow> robot_state \<Rightarrow> robot_state" where
  "assign_mission stamp m r =
     r\<lparr>rb_mission := Some m, rb_mission_id := Some (mi_id m), rb_mission_progress := Some 0,
       rb_mission_start_time := Some stamp, rb_status := ''ACTIVE'', rb_pause_until_s := 0,
       rb_returning_to_charge := False\<rparr>"

definition clear_mission :: "robot_state \<Rightarrow> robot_state" where
  "clear_mission r =
     r\<lparr>rb_mission := None, rb_mission_id := None, rb_mission_progress := None,
       rb_mission_start_time := None, rb_pause_until_s := 0\<rparr>"

definition base_speed :: "string \<Rightarrow> real" where
  "base_speed mission_type =
     (if mission_type = ''PATROL'' then 11/10 else if mission_type = ''DELIVERY'' then 18/10
      else if mission_type = ''INSPECTION'' then 95/100 else if mission_type = ''RETURN'' then 14/10 else 1)"

definition effective_speed :: "draws \<Rightarrow> string \<Rightarrow> robot_state \<Rightarrow> real" where
  "effective_speed u mission_type r =
     (let degraded_cap = base_speed mission_type * clamp (rb_motor_health r / 100) (45/100) 1
      in clamp (degraded_cap + uniform (-8/100) (12/100) (u ''speed'')) (2/10) (22/10))"

section \<open>Readings\<close>

definition apply_sensor_noise :: "draws \<Rightarrow> string \<Rightarrow> robot_state \<Rightarrow> real \<Rightarrow> real" where
  "apply_sensor_noise u kind r v =
     (let noise_scale = (100 - rb_sensor_health r) / 100
      in if noise_scale \<le> 0 then v
         else let w = (if kind = ''temperature'' then uniform (-25/10) (25/10) (u (kind @ '' noise''))
                       else if kind = ''speed'' then uniform (-18/100) (18/100) (u (kind @ '' noise''))
                       else uniform (-18/10) (18/10) (u (kind @ '' noise''))) * noise_scale
              in if u (kind @ '' glitch'') < noise_scale * (5/100)
                 then v + w + uniform (-6) 6 (u (kind @ '' jump'')) else v + w)"

text \<open>\<open>round(x, n)\<close> of a float, as the decimal it prints.\<close>

definition decimal :: "nat \<Rightarrow> real \<Rightarrow> rat" where
  "decimal n x = of_int (round_half_even (x * 10 ^ n)) / 10 ^ n"

datatype sim_output =
    Reading telemetry_create
  | Patch string string "json option"
  | Event int string

definition reading_of :: "draws \<Rightarrow> instant \<Rightarrow> robot_state \<Rightarrow> telemetry_create" where
  "reading_of u stamp r =
     \<lparr>tc_robot_id = rb_id r,
      tc_battery = decimal 2 (clamp (apply_sensor_noise u ''battery'' r (rb_battery r)) 0 100),
      tc_temperature = decimal 2 (clamp (apply_sensor_noise u ''temperature'' r (rb_temperature r)) 0 120),
      tc_speed = decimal 2 (clamp (apply_sensor_noise u ''speed'' r (rb_speed r)) 0 3),
      tc_timestamp = Some (utc_dt stamp),
      tc_status = Some (rb_status r),
      tc_mission_id = rb_mission_id r,
      tc_mission_type = map_option mi_type (rb_mission r),
      tc_mission_progress = rb_mission_progress r,
      tc_mission_start_time = map_option utc_dt (rb_mission_start_time r),
      tc_battery_health = Some (decimal 2 (rb_battery_health r)),
      tc_motor_health = Some (decimal 2 (rb_motor_health r)),
      tc_sensor_health = Some (decimal 2 (rb_sensor_health r)),
      tc_network_health = Some (decimal 2 (rb_network_health r)),
      tc_x = Some (decimal 2 (rb_x r)),
      tc_y = Some (decimal 2 (rb_y r))\<rparr>"

definition emit_telemetry :: "draws \<Rightarrow> instant \<Rightarrow> bool \<Rightarrow> robot_state \<Rightarrow> sim_output list" where
  "emit_telemetry u stamp viewer_active r = (if viewer_active then [Reading (reading_of u stamp r)] else [])"

section \<open>Commands\<close>

text \<open>
  An object of the claim response. A missing \<open>id\<close> raises \<open>KeyError\<close>, which ends the poll with what
  was done so far.
\<close>

record claimed_command =
  ck_id :: "string option"
  ck_command_type :: "string option"
  ck_action :: "string option"

definition command_action :: "claimed_command \<Rightarrow> string option" where
  "command_action c = (if truthy_str (ck_command_type c) then ck_command_type c else ck_action c)"

definition remember_command :: "string \<Rightarrow> robot_state \<Rightarrow> robot_state" where
  "remember_command cmd_id r =
     (let ids = rb_processed r @ [cmd_id] in r\<lparr>rb_processed := (if length ids > 100 then tl ids else ids)\<rparr>)"

definition execute_command :: "string option \<Rightarrow> robot_state \<Rightarrow> robot_state \<times> string" where
  "execute_command action r =
     (if action = Some ''RETURN_TO_BASE''
      then ((clear_mission r)\<lparr>rb_returning_to_charge := True, rb_status := ''ACTIVE'', rb_online := True\<rparr>, ''COMPLETED'')
      else if action = Some ''EMERGENCY_STOP''
      then ((clear_mission (r\<lparr>rb_status := ''STOPPED'', rb_speed := 0\<rparr>))\<lparr>rb_returning_to_charge := False\<rparr>, ''COMPLETED'')
      else if action = Some ''RESUME''
      then (r\<lparr>rb_status := ''ACTIVE'', rb_online := True\<rparr>, ''COMPLETED'')
      else (r, ''FAILED''))"

definition handle_command :: "string \<Rightarrow> string option \<Rightarrow> robot_state \<Rightarrow> robot_state \<times> sim_output list" where
  "handle_command cmd_id action r =
     (if cmd_id \<in> set (rb_processed r)
      then (r, [Patch cmd_id ''COMPLETED'' (Some (JObj [(''message'', JStr ''Already processed'')]))])
      else (case execute_command action (remember_command cmd_id r) of (r', status_to_patch) \<Rightarrow>
        (r', [Patch cmd_id ''ACKNOWLEDGED'' None, Patch cmd_id ''EXECUTING'' None, Patch cmd_id status_to_patch None])))"

fun handle_commands :: "claimed_command list \<Rightarrow> robot_state \<Rightarrow> robot_state \<times> sim_output list" where
  "handle_commands [] r = (r, [])"
| "handle_commands (c # cs) r =
     (case ck_id c of
        None \<Rightarrow> (r, [])
      | Some i \<Rightarrow>
          (case handle_command i (command_action c) r of (r', out) \<Rightarrow>
             (case handle_commands cs r' of (r'', out') \<Rightarrow> (r'', out @ out'))))"

text \<open>The poll: skipped when nobody watches; \<open>None\<close> for a request that raises or is not answered 200.\<close>

definition poll_commands :: "bool \<Rightarrow> claimed_command list option \<Rightarrow> robot_state \<Rightarrow> robot_state \<times> sim_output list" where
  "poll_commands viewer_active response r =
     (if \<not> viewer_active then (r, [])
      else case response of None \<Rightarrow> (r, []) | Some data \<Rightarrow> handle_commands data r)"

section \<open>The phases of a tick\<close>

definition start_tick :: "real \<Rightarrow> robot_state \<Rightarrow> robot_state \<times> real" where
  "start_tick now r = (r\<lparr>rb_last_update_s := now\<rparr>, clamp (now - rb_last_update_s r) (1/10) (25/10))"

definition blackout_phase :: "draws \<Rightarrow> real \<Rightarrow> robot_state \<Rightarrow> robot_state \<times> bool" where
  "blackout_phase u now r =
     (if rb_blackout_until r > now then (r, True)
      else if rb_status r \<notin> {''DEAD'', ''STOPPED''}
              \<and> u ''blackout'' < 15/10000 + ((100 - rb_network_health r) / 100) * (8/1000)
      then (r\<lparr>rb_blackout_until := now + uniform 10 25 (u ''blackout duration'')\<rparr>, True)
      else (r, False))"

definition is_dead :: "robot_state \<Rightarrow> bool" where
  "is_dead r \<longleftrightarrow> rb_battery r \<le> 5 \<or> rb_temperature r \<ge> 95 \<or> rb_battery_health r < 10 \<or> rb_motor_health r < 10"

definition shut_down :: "real \<Rightarrow> robot_state \<Rightarrow> robot_state" where
  "shut_down now r =
     (if rb_status r \<noteq> ''DEAD''
      then (clear_mission (r\<lparr>rb_status := ''DEAD'', rb_online := False, rb_speed := 0, rb_dead_since := now\<rparr>))
             \<lparr>rb_returning_to_charge := False\<rparr>
      else r)"

text \<open>The repair crew, 45 to 90 seconds after the shutdown: a replacement unit.\<close>

definition repair :: "draws \<Rightarrow> real \<Rightarrow> real \<Rightarrow> robot_state \<Rightarrow> robot_state" where
  "repair u ambient_c now r =
     (if now - rb_dead_since r \<ge> uniform 45 90 (u ''repair delay'')
      then case initial_component_health u (Some (uniform (2/100) (15/100) (u ''repair age''))) of (b, m, s, n) \<Rightarrow>
        r\<lparr>rb_battery := 100, rb_temperature := ambient_c, rb_battery_health := b, rb_motor_health := m,
          rb_sensor_health := s, rb_network_health := n, rb_status := ''ACTIVE'', rb_online := True,
          rb_charging_suspended := False\<rparr>
      else r)"

definition power_triggers :: "robot_state \<Rightarrow> robot_state" where
  "power_triggers r =
     (let r1 = (if rb_battery r \<le> 30 \<and> rb_status r \<notin> {''CHARGING'', ''RETURNING_TO_CHARGE''}
                then (let r0 = r\<lparr>rb_status := ''LOW POWER''\<rparr>
                      in if rb_battery r0 \<le> 25 \<and> rb_mission r0 \<noteq> None
                         then (clear_mission r0)\<lparr>rb_returning_to_charge := True\<rparr> else r0)
                else r)
      in if rb_mission r1 = None \<and> rb_battery r1 \<le> 50 \<and> \<not> rb_returning_to_charge r1 \<and> rb_status r1 \<noteq> ''CHARGING''
         then r1\<lparr>rb_returning_to_charge := True\<rparr> else r1)"

definition drain_per_s :: "robot_state \<Rightarrow> real" where
  "drain_per_s r =
     (let motor_penalty = 1 + ((100 - rb_motor_health r) / 100) * (45/100);
          battery_penalty = 1 + ((100 - rb_battery_health r) / 100) * (65/100)
      in (8/1000 + 14/1000 * rb_speed r) * motor_penalty * battery_penalty)"

definition work :: "real \<Rightarrow> real \<Rightarrow> robot_state \<Rightarrow> robot_state" where
  "work ambient_c dt r =
     (let load_heat = 55/1000 + 55/1000 * rb_speed r + ((100 - rb_motor_health r) / 100) * (35/1000);
          cooling = 2/100 * max 0 (rb_temperature r - ambient_c)
      in r\<lparr>rb_battery := rb_battery r - drain_per_s r * dt * 20,
           rb_temperature := rb_temperature r + (load_heat - cooling) * dt\<rparr>)"

definition step_towards :: "real \<Rightarrow> real \<Rightarrow> real \<Rightarrow> robot_state \<Rightarrow> robot_state" where
  "step_towards dx dy dt r =
     (let dist = hypot dx dy; step_distance = rb_speed r * dt
      in r\<lparr>rb_x := rb_x r + (dx / dist) * step_distance, rb_y := rb_y r + (dy / dist) * step_distance\<rparr>)"

text \<open>1. Returning to the charging pad.\<close>

definition return_phase :: "draws \<Rightarrow> real \<Rightarrow> real \<Rightarrow> robot_state \<Rightarrow> robot_state" where
  "return_phase u ambient_c dt r =
     (let r = r\<lparr>rb_status := (if rb_battery r \<le> 20 then ''LOW POWER'' else ''ACTIVE'')\<rparr>;
          dx = 0 - rb_x r; dy = 0 - rb_y r
      in if hypot dx dy < 1/2
         then r\<lparr>rb_returning_to_charge := False, rb_status := ''CHARGING'', rb_x := 0, rb_y := 0, rb_speed := 0\<rparr>
         else work ambient_c dt
                (step_towards dx dy dt (r\<lparr>rb_speed := lerp (rb_speed r) (effective_speed u ''RETURN'' r) (22/100)\<rparr>)))"

text \<open>2. Charging, suspended while too hot.\<close>

definition charge_phase :: "real \<Rightarrow> real \<Rightarrow> robot_state \<Rightarrow> robot_state" where
  "charge_phase ambient_c dt r0 =
     (let r1 = r0\<lparr>rb_speed := 0\<rparr>;
          r = (if rb_temperature r1 \<ge> 80 \<and> \<not> rb_charging_suspended r1 then r1\<lparr>rb_charging_suspended := True\<rparr> else r1)
      in if rb_charging_suspended r
         then (let r' = r\<lparr>rb_status := ''OVERHEATING'',
                          rb_temperature := rb_temperature r - 8/100 * (rb_temperature r - ambient_c) * dt\<rparr>
               in if rb_temperature r' \<le> 60 then r'\<lparr>rb_charging_suspended := False, rb_status := ''CHARGING''\<rparr> else r')
         else (let charge_rate = 35/100 * clamp (rb_battery_health r / 100) (55/100) 1;
                   b = clamp (rb_battery r + charge_rate * dt * 10) 0 100;
                   charging_heat = 12/100 * (1 + (100 - rb_battery_health r) / 100);
                   cooling = 35/1000 * (rb_temperature r - ambient_c);
                   r' = r\<lparr>rb_battery := b, rb_temperature := rb_temperature r + (charging_heat - cooling) * dt\<rparr>
               in if rb_battery r' \<ge> 100 then r'\<lparr>rb_status := ''ACTIVE''\<rparr> else r'))"

definition advance :: "mission \<Rightarrow> robot_state \<Rightarrow> robot_state" where
  "advance m r =
     (let m' = m\<lparr>current_step := current_step m + 1\<rparr>
      in r\<lparr>rb_mission := Some m',
           rb_mission_progress := Some (py_round 1 (min 100 (of_nat (current_step m') * progress_weight m')))\<rparr>)"

definition finish :: "robot_state \<Rightarrow> robot_state" where
  "finish r = r\<lparr>rb_completion_count := rb_completion_count r + 1, rb_mission_progress := Some 100\<rparr>"

text \<open>The reading sent on completion has draws of its own.\<close>

definition completion_draws :: "draws \<Rightarrow> draws" where
  "completion_draws u site = u (''completion '' @ site)"

text \<open>3. Too hot to work at full speed. \<open>steps[current_step]\<close> out of range raises \<open>IndexError\<close>.\<close>

definition hot_phase ::
  "draws \<Rightarrow> instant \<Rightarrow> bool \<Rightarrow> bool \<Rightarrow> real \<Rightarrow> real \<Rightarrow> robot_state \<Rightarrow> (robot_state \<times> sim_output list) result"
where
  "hot_phase u stamp viewer_active blacked_out ambient_c dt r0 =
     (let r = r0\<lparr>rb_status := ''OVERHEATING''\<rparr>
      in case rb_mission r of
           None \<Rightarrow> Inr (r\<lparr>rb_speed := lerp (rb_speed r) 0 (35/100),
                         rb_temperature := rb_temperature r - 6/100 * (rb_temperature r - ambient_c) * dt\<rparr>, [])
         | Some m \<Rightarrow>
             if length (mi_steps m) \<le> current_step m then Inl IndexError
             else (let step = mi_steps m ! current_step m;
                       dx = ms_x step - rb_x r; dy = ms_y step - rb_y r;
                       r1 = r\<lparr>rb_speed := lerp (rb_speed r) (effective_speed u (mi_type m) r / 2) (22/100)\<rparr>;
                       moved = (if hypot dx dy < 45/100
                                then if current_step m + 1 \<ge> length (mi_steps m)
                                     then (let r2 = finish (advance m r1)
                                           in (clear_mission r2, if blacked_out then [] else emit_telemetry (completion_draws u) stamp viewer_active r2))
                                     else (advance m r1, [])
                                else (step_towards dx dy dt r1, []));
                       r3 = fst moved
                   in Inr (r3\<lparr>rb_battery := rb_battery r3 - drain_per_s r3 * dt * 20,
                              rb_temperature := rb_temperature r3
                                + ((2/100 + 2/100 * rb_speed r3) - 45/1000 * (rb_temperature r3 - ambient_c)) * dt\<rparr>,
                           snd moved)))"

text \<open>4. On a mission.\<close>

definition completion_event :: "mission \<Rightarrow> robot_state \<Rightarrow> sim_output" where
  "completion_event m r = Event (rb_id r) (''Completed '' @ mi_type m @ '' mission '' @ mi_id m)"

definition mission_phase ::
  "draws \<Rightarrow> instant \<Rightarrow> bool \<Rightarrow> bool \<Rightarrow> real \<Rightarrow> real \<Rightarrow> real \<Rightarrow> mission \<Rightarrow> robot_state \<Rightarrow> (robot_state \<times> sim_output list) result"
where
  "mission_phase u stamp viewer_active blacked_out ambient_c now dt m r =
     (if length (mi_steps m) \<le> current_step m then Inl IndexError
      else (let step = mi_steps m ! current_step m;
                dx = ms_x step - rb_x r; dy = ms_y step - rb_y r;
                moved =
                  (if rb_pause_until_s r > now then (r\<lparr>rb_speed := lerp (rb_speed r) 0 (4/10)\<rparr>, [])
                   else (let r1 = r\<lparr>rb_speed := lerp (rb_speed r) (effective_speed u (mi_type m) r) (22/100)\<rparr>
                         in if hypot dx dy < 45/100
                            then (let r2 = advance m r1;
                                      r3 = (if ms_pause_s step > 0 then r2\<lparr>rb_pause_until_s := now + ms_pause_s step\<rparr> else r2)
                                  in if current_step m + 1 \<ge> length (mi_steps m)
                                     then (let r4 = finish r3
                                           in ((clear_mission r4)\<lparr>rb_status := ''ACTIVE''\<rparr>,
                                               if blacked_out then []
                                               else emit_telemetry (completion_draws u) stamp viewer_active r4 @ [completion_event m r4]))
                                     else (r3, []))
                            else (step_towards dx dy dt r1, [])))
            in Inr (work ambient_c dt (fst moved), snd moved)))"

text \<open>5. Standing by.\<close>

definition standby_phase :: "real \<Rightarrow> real \<Rightarrow> robot_state \<Rightarrow> robot_state" where
  "standby_phase ambient_c dt r =
     (let standby_drain = 15/10000 * (1 + ((100 - rb_battery_health r) / 100) * (25/100))
      in r\<lparr>rb_speed := lerp (rb_speed r) 0 (35/100),
           rb_battery := rb_battery r - standby_drain * dt * 20,
           rb_temperature := rb_temperature r - 4/100 * (rb_temperature r - ambient_c) * dt\<rparr>)"

definition physics ::
  "draws \<Rightarrow> instant \<Rightarrow> bool \<Rightarrow> bool \<Rightarrow> real \<Rightarrow> real \<Rightarrow> real \<Rightarrow> robot_state \<Rightarrow> (robot_state \<times> sim_output list) result"
where
  "physics u stamp viewer_active blacked_out ambient_c now dt r =
     (if rb_returning_to_charge r then Inr (return_phase u ambient_c dt r, [])
      else if rb_status r = ''CHARGING'' then Inr (charge_phase ambient_c dt r, [])
      else if rb_temperature r \<ge> 80 then hot_phase u stamp viewer_active blacked_out ambient_c dt r
      else case rb_mission r of
             Some m \<Rightarrow> mission_phase u stamp viewer_active blacked_out ambient_c now dt m r
           | None \<Rightarrow> Inr (standby_phase ambient_c dt r, []))"

definition wear_phase :: "draws \<Rightarrow> robot_state \<Rightarrow> robot_state" where
  "wear_phase u r =
     r\<lparr>rb_battery_health := clamp (rb_battery_health r - uniform (6/10000) (12/10000) (u ''battery wear'') * WEAR_ACCELERATION) 10 100,
       rb_motor_health := clamp (rb_motor_health r - uniform (8/10000) (14/10000) (u ''motor wear'')
                                   * (if rb_mission r \<noteq> None then 13/10 else 5/10) * WEAR_ACCELERATION) 10 100,
       rb_sensor_health := clamp (rb_sensor_health r - uniform (5/10000) (10/10000) (u ''sensor wear'') * WEAR_ACCELERATION) 10 100,
       rb_network_health := clamp (rb_network_health r - uniform (6/10000) (11/10000) (u ''network wear'') * WEAR_ACCELERATION) 10 100,
       rb_temperature := (if u ''spike'' < 25/10000 then rb_temperature r + uniform 4 9 (u ''spike size'') else rb_temperature r)\<rparr>"

text \<open>The restricted zone, with hysteresis and a cooldown on its event.\<close>

definition fence_phase :: "real \<Rightarrow> bool \<Rightarrow> robot_state \<Rightarrow> robot_state \<times> sim_output list" where
  "fence_phase now blacked_out r =
     (let dist = hypot (rb_x r - 15) (rb_y r - 10)
      in if dist < 5 \<and> \<not> rb_in_fence r
         then (let r' = r\<lparr>rb_in_fence := True\<rparr>
               in if now \<ge> rb_fence_cooldown_until r' \<and> \<not> blacked_out
                  then (r'\<lparr>rb_fence_cooldown_until := now + 45\<rparr>, [Event (rb_id r') ''Entered Restricted Zone!''])
                  else (r', []))
         else if dist > 7 \<and> rb_in_fence r then (r\<lparr>rb_in_fence := False\<rparr>, [])
         else (r, []))"

definition clamp_phase :: "robot_state \<Rightarrow> robot_state" where
  "clamp_phase r =
     r\<lparr>rb_battery := clamp (rb_battery r) 0 100, rb_temperature := clamp (rb_temperature r) 22 99,
       rb_speed := clamp (rb_speed r) 0 (22/10)\<rparr>"

section \<open>One tick of robot\_loop\<close>

text \<open>
  What a tick reads from outside: the clock, the wall-clock stamp of its readings, the viewers
  flag when it polls and when it reports, the claim's answer and the draws.
\<close>

record tick_input =
  ti_now :: real
  ti_stamp :: instant
  ti_polling :: bool
  ti_reporting :: bool
  ti_commands :: "claimed_command list option"
  ti_draws :: draws

definition emit_unless :: "bool \<Rightarrow> tick_input \<Rightarrow> robot_state \<Rightarrow> sim_output list" where
  "emit_unless blacked_out i r =
     (if blacked_out then [] else emit_telemetry (ti_draws i) (ti_stamp i) (ti_reporting i) r)"

definition dead_tick :: "real \<Rightarrow> tick_input \<Rightarrow> bool \<Rightarrow> robot_state \<Rightarrow> robot_state \<times> sim_output list" where
  "dead_tick ambient_c i blacked_out r =
     (let r' = shut_down (ti_now i) r
      in (repair (ti_draws i) ambient_c (ti_now i) r', emit_unless blacked_out i r'))"

definition working_tick ::
  "real \<Rightarrow> tick_input \<Rightarrow> bool \<Rightarrow> real \<Rightarrow> robot_state \<Rightarrow> (robot_state \<times> sim_output list) result"
where
  "working_tick ambient_c i blacked_out dt r =
     bindR (physics (ti_draws i) (ti_stamp i) (ti_reporting i) blacked_out ambient_c (ti_now i) dt (power_triggers r))
       (\<lambda>(r1, out1). case fence_phase (ti_now i) blacked_out (wear_phase (ti_draws i) r1) of (r2, out2) \<Rightarrow>
          (let r3 = clamp_phase r2 in Inr (r3, out1 @ out2 @ emit_unless blacked_out i r3)))"

text \<open>A tick up to the poll, and from the poll on.\<close>

definition begin_tick :: "tick_input \<Rightarrow> robot_state \<Rightarrow> robot_state \<times> bool \<times> real" where
  "begin_tick i r0 =
     (case start_tick (ti_now i) r0 of (r1, dt) \<Rightarrow>
      case blackout_phase (ti_draws i) (ti_now i) r1 of (r2, blacked_out) \<Rightarrow> (r2, blacked_out, dt))"

definition end_tick ::
  "real \<Rightarrow> tick_input \<Rightarrow> bool \<Rightarrow> real \<Rightarrow> robot_state \<Rightarrow> (robot_state \<times> sim_output list) result"
where
  "end_tick ambient_c i blacked_out dt r =
     (if is_dead r then Inr (dead_tick ambient_c i blacked_out r)
      else if rb_status r = ''STOPPED'' then Inr (r, emit_unless blacked_out i r)
      else working_tick ambient_c i blacked_out dt r)"

definition robot_tick :: "real \<Rightarrow> tick_input \<Rightarrow> robot_state \<Rightarrow> (robot_state \<times> sim_output list) result" where
  "robot_tick ambient_c i r0 =
     (case begin_tick i r0 of (r1, blacked_out, dt) \<Rightarrow>
      case poll_commands (ti_polling i) (ti_commands i) r1 of (r2, out) \<Rightarrow>
        bindR (end_tick ambient_c i blacked_out dt r2) (\<lambda>(r3, out'). Inr (r3, out @ out')))"

section \<open>The invariant of a robot\<close>

definition statuses :: "string list" where
  "statuses = [''ACTIVE'', ''DEAD'', ''STOPPED'', ''LOW POWER'', ''CHARGING'', ''OVERHEATING'']"

definition mission_ok :: "mission \<Rightarrow> bool" where
  "mission_ok m \<longleftrightarrow> current_step m < length (mi_steps m) \<and> 0 \<le> progress_weight m"

definition health_ok :: "real \<Rightarrow> bool" where
  "health_ok h \<longleftrightarrow> 10 \<le> h \<and> h \<le> 100"

definition task_ok :: "robot_state \<Rightarrow> bool" where
  "task_ok r \<longleftrightarrow>
     (rb_mission r = None \<longrightarrow> rb_mission_id r = None \<and> rb_mission_progress r = None)
   \<and> (\<forall>m. rb_mission r = Some m \<longrightarrow> mission_ok m \<and> rb_mission_id r = Some (mi_id m)
          \<and> (\<exists>p. rb_mission_progress r = Some p \<and> 0 \<le> p \<and> p \<le> 100))"

definition parts_ok :: "robot_state \<Rightarrow> bool" where
  "parts_ok r \<longleftrightarrow>
     health_ok (rb_battery_health r) \<and> health_ok (rb_motor_health r) \<and> health_ok (rb_sensor_health r)
   \<and> health_ok (rb_network_health r) \<and> rb_status r \<in> set statuses \<and> length (rb_processed r) \<le> 100 \<and> task_ok r"

definition ranges_ok :: "robot_state \<Rightarrow> bool" where
  "ranges_ok r \<longleftrightarrow>
     0 \<le> rb_battery r \<and> rb_battery r \<le> 100 \<and> 22 \<le> rb_temperature r \<and> rb_temperature r \<le> 99
   \<and> 0 \<le> rb_speed r \<and> rb_speed r \<le> 22/10"

definition idle :: "robot_state \<Rightarrow> bool" where
  "idle r \<longleftrightarrow> rb_mission r = None \<and> \<not> rb_returning_to_charge r \<and> rb_speed r = 0"

definition robot_inv :: "robot_state \<Rightarrow> bool" where
  "robot_inv r \<longleftrightarrow> ranges_ok r \<and> parts_ok r
   \<and> (rb_status r = ''DEAD'' \<longrightarrow> is_dead r \<and> \<not> rb_online r)
   \<and> (rb_status r \<in> {''DEAD'', ''STOPPED''} \<longrightarrow> idle r)"

lemmas inv_defs = robot_inv_def ranges_ok_def parts_ok_def task_ok_def idle_def

section \<open>Lemmas: the invariant phase by phase\<close>

lemma clamp_bounds: "lo \<le> hi \<Longrightarrow> lo \<le> clamp v lo hi \<and> clamp v lo hi \<le> hi"
  by (auto simp: clamp_def)

lemma clamp_id: "lo \<le> v \<Longrightarrow> v \<le> hi \<Longrightarrow> clamp v lo hi = v"
  by (simp add: clamp_def)

lemma uniform_bounds: "a \<le> b \<Longrightarrow> 0 \<le> v \<Longrightarrow> v \<le> 1 \<Longrightarrow> a \<le> uniform a b v \<and> uniform a b v \<le> b"
proof -
  assume a: "a \<le> b" "0 \<le> v" "v \<le> 1"
  have "0 \<le> (b - a) * v" "(b - a) * v \<le> (b - a) * 1"
    using a by (intro mult_nonneg_nonneg mult_left_mono; simp)+
  then show ?thesis by (simp add: uniform_def)
qed

lemma health_ok_clamp: "health_ok (clamp v 10 100)" "health_ok (clamp v 25 100)"
  using clamp_bounds [of 10 100 v] clamp_bounds [of 25 100 v] by (simp_all add: health_ok_def)

lemma initial_component_health_ok:
  "initial_component_health u a = (b, m, s, n) \<Longrightarrow> health_ok b \<and> health_ok m \<and> health_ok s \<and> health_ok n"
  by (auto simp: initial_component_health_def component_health_def Let_def health_ok_clamp)

text \<open>Fields the parts of the invariant do not read.\<close>

lemma parts_ok_frame [simp]:
  "parts_ok (r\<lparr>rb_battery := b\<rparr>) = parts_ok r" "parts_ok (r\<lparr>rb_temperature := b\<rparr>) = parts_ok r"
  "parts_ok (r\<lparr>rb_speed := b\<rparr>) = parts_ok r" "parts_ok (r\<lparr>rb_x := b\<rparr>) = parts_ok r" "parts_ok (r\<lparr>rb_y := b\<rparr>) = parts_ok r"
  "parts_ok (r\<lparr>rb_last_update_s := b\<rparr>) = parts_ok r" "parts_ok (r\<lparr>rb_pause_until_s := b\<rparr>) = parts_ok r"
  "parts_ok (r\<lparr>rb_completion_count := k\<rparr>) = parts_ok r" "parts_ok (r\<lparr>rb_blackout_until := b\<rparr>) = parts_ok r"
  "parts_ok (r\<lparr>rb_charging_suspended := f\<rparr>) = parts_ok r" "parts_ok (r\<lparr>rb_dead_since := b\<rparr>) = parts_ok r"
  "parts_ok (r\<lparr>rb_returning_to_charge := f\<rparr>) = parts_ok r" "parts_ok (r\<lparr>rb_in_fence := f\<rparr>) = parts_ok r"
  "parts_ok (r\<lparr>rb_fence_cooldown_until := b\<rparr>) = parts_ok r" "parts_ok (r\<lparr>rb_online := f\<rparr>) = parts_ok r"
  by (simp_all add: parts_ok_def task_ok_def)

lemma parts_ok_status [simp]: "rb_status r \<in> set statuses \<Longrightarrow> parts_ok (r\<lparr>rb_status := st\<rparr>) = (st \<in> set statuses \<and> parts_ok r)"
  by (auto simp: parts_ok_def task_ok_def)

lemma parts_ok_statusI: "parts_ok r \<Longrightarrow> st \<in> set statuses \<Longrightarrow> parts_ok (r\<lparr>rb_status := st\<rparr>)"
  by (auto simp: parts_ok_def task_ok_def)

lemma clear_mission_fields [simp]:
  "rb_mission (clear_mission r) = None" "rb_status (clear_mission r) = rb_status r" "rb_speed (clear_mission r) = rb_speed r"
  "rb_battery (clear_mission r) = rb_battery r" "rb_temperature (clear_mission r) = rb_temperature r"
  "rb_online (clear_mission r) = rb_online r" "rb_x (clear_mission r) = rb_x r" "rb_y (clear_mission r) = rb_y r"
  "rb_returning_to_charge (clear_mission r) = rb_returning_to_charge r" "rb_processed (clear_mission r) = rb_processed r"
  "rb_battery_health (clear_mission r) = rb_battery_health r" "rb_motor_health (clear_mission r) = rb_motor_health r"
  "rb_sensor_health (clear_mission r) = rb_sensor_health r" "rb_network_health (clear_mission r) = rb_network_health r"
  "rb_charging_suspended (clear_mission r) = rb_charging_suspended r" "rb_dead_since (clear_mission r) = rb_dead_since r"
  "rb_id (clear_mission r) = rb_id r" "rb_blackout_until (clear_mission r) = rb_blackout_until r"
  by (simp_all add: clear_mission_def)

lemma parts_ok_clear: "parts_ok r \<Longrightarrow> parts_ok (clear_mission r)"
  by (auto simp: parts_ok_def task_ok_def clear_mission_def)

lemma progress_bounds: "0 \<le> w \<Longrightarrow> 0 \<le> py_round 1 (min 100 (of_nat k * w :: rat)) \<and> py_round 1 (min 100 (of_nat k * w)) \<le> 100"
  using py_round_bounds [of 0 "min 100 (of_nat k * w)" 100 1] by simp

lemma parts_ok_advance:
  assumes "parts_ok r" "rb_mission r = Some m" "current_step m + 1 < length (mi_steps m)"
  shows "parts_ok (advance m r)"
  using assms progress_bounds [of "progress_weight m" "current_step m + 1"]
  by (auto simp: parts_ok_def task_ok_def mission_ok_def advance_def Let_def)

lemma parts_ok_finish:
  assumes "parts_ok r"
  shows "parts_ok (clear_mission (finish (advance m r)))"
  using assms by (auto simp: parts_ok_def task_ok_def clear_mission_def finish_def advance_def Let_def)

definition running :: "robot_state \<Rightarrow> bool" where
  "running r \<longleftrightarrow> parts_ok r \<and> rb_status r \<notin> {''DEAD'', ''STOPPED''}"

lemma running_status: "running r \<Longrightarrow> rb_status r \<in> set statuses"
  by (simp add: running_def parts_ok_def)

lemma running_setI: "running r \<Longrightarrow> st \<in> {''ACTIVE'', ''LOW POWER'', ''CHARGING'', ''OVERHEATING''} \<Longrightarrow> running (r\<lparr>rb_status := st\<rparr>)"
  by (auto simp: running_def parts_ok_statusI statuses_def)

lemma running_frame [simp]:
  "running (r\<lparr>rb_battery := b\<rparr>) = running r" "running (r\<lparr>rb_temperature := b\<rparr>) = running r"
  "running (r\<lparr>rb_speed := b\<rparr>) = running r" "running (r\<lparr>rb_x := b\<rparr>) = running r" "running (r\<lparr>rb_y := b\<rparr>) = running r"
  "running (r\<lparr>rb_pause_until_s := b\<rparr>) = running r" "running (r\<lparr>rb_charging_suspended := f\<rparr>) = running r"
  "running (r\<lparr>rb_returning_to_charge := f\<rparr>) = running r" "running (r\<lparr>rb_in_fence := f\<rparr>) = running r"
  "running (r\<lparr>rb_fence_cooldown_until := b\<rparr>) = running r"
  by (simp_all add: running_def)

lemma running_clear: "running r \<Longrightarrow> running (clear_mission r)"
  by (simp add: running_def parts_ok_clear)

lemma running_work [simp]: "running (work ambient_c dt r) = running r"
  by (simp add: work_def Let_def)

lemma running_step [simp]: "running (step_towards dx dy dt r) = running r"
  by (simp add: step_towards_def Let_def)

lemma running_power: "running r \<Longrightarrow> running (power_triggers r)"
  by (simp add: power_triggers_def Let_def running_setI running_clear)

lemma running_return: "running r \<Longrightarrow> running (return_phase u ambient_c dt r)"
  by (simp add: return_phase_def Let_def running_setI)

lemma running_charge: "running r \<Longrightarrow> running (charge_phase ambient_c dt r)"
  by (simp add: charge_phase_def Let_def running_setI)

lemma running_standby: "running r \<Longrightarrow> running (standby_phase ambient_c dt r)"
  by (simp add: standby_phase_def Let_def)

lemma running_advance:
  "running r \<Longrightarrow> rb_mission r = Some m \<Longrightarrow> current_step m + 1 < length (mi_steps m) \<Longrightarrow> running (advance m r)"
  using parts_ok_advance [of r m] by (simp add: running_def) (simp add: advance_def Let_def)

lemma running_finish: "running r \<Longrightarrow> running (clear_mission (finish (advance m r)))"
  using parts_ok_finish [of r m] by (simp add: running_def) (simp add: finish_def advance_def Let_def)

lemma running_mission_ok: "running r \<Longrightarrow> rb_mission r = Some m \<Longrightarrow> current_step m < length (mi_steps m)"
  by (simp add: running_def parts_ok_def task_ok_def mission_ok_def)

lemma finish_pause [simp]: "clear_mission (finish (r\<lparr>rb_pause_until_s := b\<rparr>)) = clear_mission (finish r)"
  by (simp add: clear_mission_def finish_def)

lemma running_hot:
  assumes r: "running r"
  shows "\<exists>r' out. hot_phase u stamp v bo ambient_c dt r = Inr (r', out) \<and> running r'"
proof (cases "rb_mission r")
  case None
  then show ?thesis using running_setI [OF r] by (simp add: hot_phase_def Let_def)
next
  case (Some m)
  note ok = running_mission_ok [OF r Some]
  let ?r1 = "(r\<lparr>rb_status := ''OVERHEATING''\<rparr>)\<lparr>rb_speed := lerp (rb_speed r) (effective_speed u (mi_type m) (r\<lparr>rb_status := ''OVERHEATING''\<rparr>) / 2) (22/100)\<rparr>"
  have r1: "running ?r1" "rb_mission ?r1 = Some m" using running_setI [OF r] Some by simp_all
  note adv = running_advance [OF r1]
  note fin = running_finish [OF r1(1), of m]
  from ok Some show ?thesis using adv fin r1(1)
    by (simp add: hot_phase_def Let_def)
qed

lemma running_mission:
  assumes r: "running r" and m: "rb_mission r = Some m"
  shows "\<exists>r' out. mission_phase u stamp v bo ambient_c now dt m r = Inr (r', out) \<and> running r'"
proof -
  note ok = running_mission_ok [OF r m]
  let ?r1 = "r\<lparr>rb_speed := lerp (rb_speed r) (effective_speed u (mi_type m) r) (22/100)\<rparr>"
  have r1: "running ?r1" "rb_mission ?r1 = Some m" using r m by simp_all
  note adv = running_advance [OF r1]
  note fin = running_setI [OF running_finish [OF r1(1), of m], of "''ACTIVE''"]
  from ok show ?thesis using adv fin r1(1) r
    by (simp add: mission_phase_def Let_def)
qed

lemma physics_ok:
  assumes "running r"
  shows "\<exists>r' out. physics u stamp v bo ambient_c now dt r = Inr (r', out) \<and> running r'"
  using running_return [OF assms] running_charge [OF assms] running_hot [OF assms] running_standby [OF assms]
    running_mission [OF assms]
  by (auto simp: physics_def split: option.splits)

lemma running_wear: "running r \<Longrightarrow> running (wear_phase u r)"
  by (simp add: running_def parts_ok_def task_ok_def wear_phase_def health_ok_clamp)

lemma running_fence: "running r \<Longrightarrow> fence_phase now bo r = (r', out) \<Longrightarrow> running r'"
  by (auto simp: fence_phase_def Let_def split: if_splits)

lemma clamp_phase_ranges: "ranges_ok (clamp_phase r)"
  using clamp_bounds [of 0 100 "rb_battery r"] clamp_bounds [of 22 99 "rb_temperature r"] clamp_bounds [of 0 "22/10" "rb_speed r"]
  by (simp add: ranges_ok_def clamp_phase_def)

lemma running_inv: "running r \<Longrightarrow> robot_inv (clamp_phase r)"
proof -
  assume r: "running r"
  then have "running (clamp_phase r)" by (simp add: clamp_phase_def)
  with clamp_phase_ranges [of r] show ?thesis by (auto simp: robot_inv_def running_def)
qed

lemma working_tick_ok:
  assumes "running r"
  shows "\<exists>r' out. working_tick ambient_c i bo dt r = Inr (r', out) \<and> robot_inv r'"
proof -
  obtain r1 out1 where p: "physics (ti_draws i) (ti_stamp i) (ti_reporting i) bo ambient_c (ti_now i) dt (power_triggers r) = Inr (r1, out1)"
    and r1: "running r1" using physics_ok [OF running_power [OF assms]] by blast
  obtain r2 out2 where f: "fence_phase (ti_now i) bo (wear_phase (ti_draws i) r1) = (r2, out2)" by fastforce
  have "running r2" by (rule running_fence [OF running_wear [OF r1] f])
  with p f running_inv show ?thesis by (simp add: working_tick_def Let_def)
qed

lemma is_dead_frame [simp]:
  "is_dead (r\<lparr>rb_last_update_s := b\<rparr>) = is_dead r" "is_dead (r\<lparr>rb_blackout_until := b\<rparr>) = is_dead r"
  "is_dead (r\<lparr>rb_status := st\<rparr>) = is_dead r" "is_dead (r\<lparr>rb_processed := ids\<rparr>) = is_dead r"
  "is_dead (r\<lparr>rb_online := f\<rparr>) = is_dead r" "is_dead (r\<lparr>rb_speed := b\<rparr>) = is_dead r"
  "is_dead (r\<lparr>rb_dead_since := b\<rparr>) = is_dead r" "is_dead (r\<lparr>rb_returning_to_charge := f\<rparr>) = is_dead r"
  "is_dead (clear_mission r) = is_dead r"
  by (simp_all add: is_dead_def)

lemma inv_begin_tick:
  assumes "robot_inv r" "begin_tick i r = (r', bo, dt)"
  shows "robot_inv r'"
proof -
  have "robot_inv (r\<lparr>rb_last_update_s := t\<rparr>)" "robot_inv (r\<lparr>rb_last_update_s := t, rb_blackout_until := b\<rparr>)" for t b
    using assms(1) by (simp_all add: robot_inv_def ranges_ok_def idle_def)
  with assms(2) show ?thesis
    by (auto simp: begin_tick_def start_tick_def blackout_phase_def split: if_splits)
qed

lemma inv_remember: "robot_inv r \<Longrightarrow> robot_inv (remember_command cmd_id r)"
proof -
  assume r: "robot_inv r"
  have "parts_ok (r\<lparr>rb_processed := ids\<rparr>)" if "length ids \<le> 100" for ids
    using r that by (simp add: robot_inv_def parts_ok_def task_ok_def)
  moreover have "length (rb_processed r) \<le> 100" using r by (simp add: robot_inv_def parts_ok_def)
  ultimately show ?thesis using r
    by (simp add: robot_inv_def remember_command_def Let_def ranges_ok_def idle_def)
qed

lemma inv_execute:
  assumes r: "robot_inv r" and e: "execute_command action r = (r', st)"
  shows "robot_inv r'"
proof -
  have p: "parts_ok r" "ranges_ok r" using r by (simp_all add: robot_inv_def)
  have act: "robot_inv (r\<lparr>rb_status := ''ACTIVE'', rb_online := True\<rparr>)"
    using p by (simp add: robot_inv_def parts_ok_statusI ranges_ok_def statuses_def)
  have rtb: "robot_inv ((clear_mission r)\<lparr>rb_returning_to_charge := True, rb_status := ''ACTIVE'', rb_online := True\<rparr>)"
    using p parts_ok_clear [OF p(1)]
    by (simp add: robot_inv_def parts_ok_statusI ranges_ok_def statuses_def)
  have stop: "robot_inv ((clear_mission (r\<lparr>rb_status := ''STOPPED'', rb_speed := 0\<rparr>))\<lparr>rb_returning_to_charge := False\<rparr>)"
    using p by (simp add: robot_inv_def parts_ok_clear parts_ok_statusI ranges_ok_def idle_def statuses_def)
  from e r act rtb stop show ?thesis by (auto simp: execute_command_def split: if_splits)
qed

lemma inv_handle_command: "robot_inv r \<Longrightarrow> handle_command cmd_id action r = (r', out) \<Longrightarrow> robot_inv r'"
  using inv_execute inv_remember by (fastforce simp: handle_command_def split: if_splits prod.splits)

lemma inv_handle_commands: "robot_inv r \<Longrightarrow> handle_commands cs r = (r', out) \<Longrightarrow> robot_inv r'"
proof (induction cs arbitrary: r out)
  case (Cons c cs)
  then show ?case using inv_handle_command by (auto split: option.splits prod.splits) blast
qed simp

lemma inv_poll: "robot_inv r \<Longrightarrow> poll_commands p resp r = (r', out) \<Longrightarrow> robot_inv r'"
  using inv_handle_commands by (auto simp: poll_commands_def split: if_splits option.splits)

lemma inv_shut_down: "robot_inv r \<Longrightarrow> is_dead r \<Longrightarrow> robot_inv (shut_down now r) \<and> rb_status (shut_down now r) = ''DEAD''"
  by (simp add: robot_inv_def shut_down_def parts_ok_clear parts_ok_statusI ranges_ok_def idle_def statuses_def)

lemma inv_repair:
  assumes r: "robot_inv r" and amb: "22 \<le> ambient_c" "ambient_c \<le> 99"
  shows "robot_inv (repair u ambient_c now r)"
proof -
  obtain b m s n where h: "initial_component_health u (Some (uniform (2/100) (15/100) (u ''repair age''))) = (b, m, s, n)"
    by (metis prod_cases4)
  note ok = initial_component_health_ok [OF h]
  from r amb ok show ?thesis unfolding repair_def h
    by (auto simp: robot_inv_def ranges_ok_def parts_ok_def task_ok_def statuses_def)
qed

lemma end_tick_ok:
  assumes r: "robot_inv r" and amb: "22 \<le> ambient_c" "ambient_c \<le> 99"
  shows "\<exists>r' out. end_tick ambient_c i bo dt r = Inr (r', out) \<and> robot_inv r'"
proof -
  consider (dead) "is_dead r" | (stopped) "\<not> is_dead r" "rb_status r = ''STOPPED''" | (work) "\<not> is_dead r" "rb_status r \<noteq> ''STOPPED''"
    by blast
  then show ?thesis
  proof cases
    case dead
    with inv_repair [OF conjunct1 [OF inv_shut_down [OF r dead]] amb] show ?thesis
      by (simp add: end_tick_def dead_tick_def Let_def)
  next
    case stopped
    with r show ?thesis by (simp add: end_tick_def)
  next
    case work
    with r have "running r" by (auto simp: robot_inv_def running_def)
    from working_tick_ok [OF this] work show ?thesis by (simp add: end_tick_def)
  qed
qed

text \<open>A tick never raises and keeps the invariant.\<close>

lemma robot_tick_ok:
  assumes r: "robot_inv r" and amb: "22 \<le> ambient_c" "ambient_c \<le> 99"
  shows "\<exists>r' out. robot_tick ambient_c i r = Inr (r', out) \<and> robot_inv r'"
proof -
  obtain r1 bo dt where b: "begin_tick i r = (r1, bo, dt)" by (metis prod_cases3)
  obtain r2 out where p: "poll_commands (ti_polling i) (ti_commands i) r1 = (r2, out)" by fastforce
  have "robot_inv r2" by (rule inv_poll [OF inv_begin_tick [OF r b] p])
  from end_tick_ok [OF this amb, of i bo dt] b p show ?thesis by (auto simp: robot_tick_def)
qed

section \<open>Dead robots are replaced, charging robots get full\<close>

definition quiet :: "tick_input \<Rightarrow> bool" where
  "quiet i \<longleftrightarrow> (ti_polling i \<longrightarrow> ti_commands i \<in> {None, Some []})"

lemma quiet_poll: "quiet i \<Longrightarrow> poll_commands (ti_polling i) (ti_commands i) r = (r, [])"
  by (auto simp: quiet_def poll_commands_def)

lemma quiet_tick:
  "quiet i \<Longrightarrow> begin_tick i r = (r1, bo, dt) \<Longrightarrow> robot_tick ambient_c i r = end_tick ambient_c i bo dt r1"
proof -
  assume "quiet i" "begin_tick i r = (r1, bo, dt)"
  then show ?thesis by (cases "end_tick ambient_c i bo dt r1") (auto simp: robot_tick_def quiet_poll)
qed

text \<open>
  A dead robot comes back, in time and not before. While nothing is commanded, a tick less
  than 45 seconds after the shutdown leaves it dead; a tick 90 seconds or more after it brings
  it back online with a full battery, at ambient temperature, and no longer in a fatal
  condition where the surroundings are below 95 degrees.
\<close>

theorem dead_robot_replaced:
  assumes "robot_inv r" and "rb_status r = ''DEAD''" and "quiet i" and "draws_ok (ti_draws i)" and "ambient_c < 95"
  shows "\<exists>r' out. robot_tick ambient_c i r = Inr (r', out)
    \<and> (ti_now i - rb_dead_since r < 45 \<longrightarrow> rb_status r' = ''DEAD'' \<and> \<not> rb_online r')
    \<and> (ti_now i - rb_dead_since r \<ge> 90 \<longrightarrow> rb_status r' = ''ACTIVE'' \<and> rb_online r' \<and> rb_battery r' = 100
         \<and> rb_temperature r' = ambient_c \<and> \<not> is_dead r')"
proof -
  obtain r1 bo dt where b: "begin_tick i r = (r1, bo, dt)" by (metis prod_cases3)
  have r1: "rb_status r1 = ''DEAD''" "is_dead r1" "rb_dead_since r1 = rb_dead_since r" "\<not> rb_online r1"
    using assms(1,2) b by (auto simp: begin_tick_def start_tick_def blackout_phase_def robot_inv_def split: if_splits)
  have tick: "robot_tick ambient_c i r = Inr (repair (ti_draws i) ambient_c (ti_now i) r1, emit_unless bo i r1)"
    using quiet_tick [OF assms(3) b] r1 by (simp add: end_tick_def dead_tick_def shut_down_def)
  have delay: "45 \<le> uniform 45 90 (ti_draws i ''repair delay'')" "uniform 45 90 (ti_draws i ''repair delay'') \<le> 90"
    using uniform_bounds [of 45 90 "ti_draws i ''repair delay''"] assms(4) by (simp_all add: draws_ok_def)
  obtain bh m s n where h: "initial_component_health (ti_draws i) (Some (uniform (2/100) (15/100) (ti_draws i ''repair age''))) = (bh, m, s, n)"
    by (metis prod_cases4)
  have "10 \<le> bh" "10 \<le> m" using initial_component_health_ok [OF h] by (simp_all add: health_ok_def)
  with tick delay r1 assms(5) show ?thesis unfolding repair_def h by (auto simp: is_dead_def)
qed

text \<open>A charging robot at the start of a tick.\<close>

definition charging :: "robot_state \<Rightarrow> bool" where
  "charging r \<longleftrightarrow> robot_inv r \<and> rb_status r = ''CHARGING'' \<and> \<not> rb_returning_to_charge r \<and> \<not> rb_charging_suspended r
     \<and> rb_battery r > 5"

lemma charge_gain:
  assumes "1/10 \<le> dt" "10 \<le> h"
  shows "19/100 \<le> 35/100 * clamp (h / 100) (55/100) 1 * dt * 10"
proof -
  have "55/100 \<le> clamp (h / 100) (55/100) 1" using clamp_bounds [of "55/100" 1 "h/100"] by simp
  then have "55/100 * (1/10) \<le> clamp (h / 100) (55/100) 1 * dt" using assms by (intro mult_mono) auto
  moreover have "35/100 * clamp (h / 100) (55/100) 1 * dt * 10 = 35/10 * (clamp (h / 100) (55/100) 1 * dt)" by simp
  ultimately show ?thesis by linarith
qed

lemma charge_phase_step:
  fixes ambient_c :: real
  assumes c: "charging r" and t: "rb_temperature r < 80" and dt: "1/10 \<le> dt"
  defines "r' \<equiv> charge_phase ambient_c dt r"
  shows "rb_battery r' \<le> 100" "rb_battery r' = 100 \<or> rb_battery r + 19/100 \<le> rb_battery r'"
    "rb_status r' = (if rb_battery r' = 100 then ''ACTIVE'' else ''CHARGING'')"
    "\<not> rb_returning_to_charge r'" "\<not> rb_charging_suspended r'" "running r'"
proof -
  let ?g = "35/100 * clamp (rb_battery_health r / 100) (55/100) 1 * dt * 10"
  have h: "10 \<le> rb_battery_health r" using c by (simp add: charging_def robot_inv_def parts_ok_def health_ok_def)
  note gain = charge_gain [OF dt h]
  have b: "rb_battery r' = clamp (rb_battery r + ?g) 0 100"
    using c t by (simp add: r'_def charge_phase_def charging_def Let_def)
  have pos: "0 \<le> rb_battery r" using c by (simp add: charging_def)
  show le: "rb_battery r' \<le> 100" using b clamp_bounds [of 0 100] by simp
  show "rb_battery r' = 100 \<or> rb_battery r + 19/100 \<le> rb_battery r'"
    using b gain pos by (auto simp: clamp_def)
  show "rb_status r' = (if rb_battery r' = 100 then ''ACTIVE'' else ''CHARGING'')"
    using c t le by (auto simp: r'_def charge_phase_def charging_def Let_def)
  show "\<not> rb_returning_to_charge r'" "\<not> rb_charging_suspended r'"
    using c t by (auto simp: r'_def charge_phase_def charging_def Let_def)
  have "running r" using c by (auto simp: charging_def robot_inv_def running_def)
  then show "running r'" unfolding r'_def by (rule running_charge)
qed

lemma fence_fields:
  "fence_phase now bo r = (r', out) \<Longrightarrow> rb_battery r' = rb_battery r \<and> rb_status r' = rb_status r
     \<and> rb_returning_to_charge r' = rb_returning_to_charge r \<and> rb_charging_suspended r' = rb_charging_suspended r"
  by (auto simp: fence_phase_def Let_def split: if_splits)

lemma charging_tick:
  assumes c: "charging r" and t: "rb_temperature r < 80" and q: "quiet i"
    and tick: "robot_tick ambient_c i r = Inr (r', out)"
  shows "rb_battery r' = 100 \<and> rb_status r' = ''ACTIVE'' \<or> charging r' \<and> rb_battery r + 19/100 \<le> rb_battery r'"
proof -
  obtain r1 bo dt where b: "begin_tick i r = (r1, bo, dt)" by (metis prod_cases3)
  have fields: "rb_status r1 = rb_status r" "rb_returning_to_charge r1 = rb_returning_to_charge r" "rb_battery r1 = rb_battery r"
    "rb_charging_suspended r1 = rb_charging_suspended r" "rb_temperature r1 = rb_temperature r" "1/10 \<le> dt"
    using b clamp_bounds [of "1/10" "25/10" "ti_now i - rb_last_update_s r"]
    by (auto simp: begin_tick_def start_tick_def blackout_phase_def split: if_splits)
  have "robot_inv r" using c by (simp add: charging_def)
  note inv1 = inv_begin_tick [OF this b]
  have c1: "charging r1" using c fields inv1 by (simp add: charging_def)
  have alive: "\<not> is_dead r1"
    using c1 t fields(5) by (simp add: charging_def robot_inv_def is_dead_def parts_ok_def health_ok_def)
  have pw: "power_triggers r1 = r1" using c1 by (simp add: charging_def power_triggers_def Let_def)
  let ?r2 = "charge_phase ambient_c dt r1"
  note step = charge_phase_step [OF c1 t [folded fields(5)] fields(6), of ambient_c]
  obtain r3 out3 where f: "fence_phase (ti_now i) bo (wear_phase (ti_draws i) ?r2) = (r3, out3)" by fastforce
  have "robot_tick ambient_c i r = working_tick ambient_c i bo dt r1"
    using quiet_tick [OF q b] alive c1 by (simp add: end_tick_def charging_def)
  moreover have "physics (ti_draws i) (ti_stamp i) (ti_reporting i) bo ambient_c (ti_now i) dt r1 = Inr (?r2, [])"
    using c1 by (simp add: physics_def charging_def)
  ultimately have r': "r' = clamp_phase r3" using tick f pw by (simp add: working_tick_def Let_def)
  have r3: "rb_battery r3 = rb_battery ?r2" "rb_status r3 = rb_status ?r2"
    "rb_returning_to_charge r3 = rb_returning_to_charge ?r2" "rb_charging_suspended r3 = rb_charging_suspended ?r2"
    using fence_fields [OF f] by (simp_all add: wear_phase_def)
  have "0 \<le> rb_battery ?r2" using step(2) c1 by (auto simp: charging_def)
  then have r'f: "rb_battery r' = rb_battery ?r2" "rb_status r' = rb_status ?r2"
    "rb_returning_to_charge r' = rb_returning_to_charge ?r2" "rb_charging_suspended r' = rb_charging_suspended ?r2"
    using step(1) by (simp_all add: r' clamp_phase_def r3 clamp_id)
  have "robot_inv r'" unfolding r' by (rule running_inv [OF running_fence [OF running_wear [OF step(6)] f]])
  then show ?thesis using r'f step c fields(3) by (auto simp: charging_def)
qed

text \<open>
  C15: Charging ends. A robot that starts charging above the fatal charge and is left to it
  (no commands, and never hot enough to be suspended) is back in service with a full battery
  after at most 510 ticks, however short the ticks and worn the battery.
\<close>

theorem charging_completes:
  assumes "charging (st 0)" and "\<And>k. robot_tick ambient_c (i k) (st k) = Inr (st (Suc k), out k)" and "\<And>k. quiet (i k)"
    and "\<And>k. (\<And>j. j \<le> k \<Longrightarrow> rb_status (st j) = ''CHARGING'') \<Longrightarrow> rb_temperature (st k) < 80"
  shows "\<exists>k \<le> 510. rb_battery (st k) = 100 \<and> rb_status (st k) = ''ACTIVE''"
proof (rule ccontr)
  assume no: "\<not> (\<exists>k \<le> 510. rb_battery (st k) = 100 \<and> rb_status (st k) = ''ACTIVE'')"
  have "charging (st k) \<and> 5 + 19/100 * real k \<le> rb_battery (st k)" if "k \<le> 510" for k
    using that
  proof (induction k rule: less_induct)
    case (less n)
    show ?case
    proof (cases n)
      case 0
      with assms(1) show ?thesis by (simp add: charging_def)
    next
      case (Suc k)
      have before: "charging (st j) \<and> 5 + 19/100 * real j \<le> rb_battery (st j)" if "j \<le> k" for j
        using less.IH [of j] less.prems that Suc by simp
      then have "rb_temperature (st k) < 80" by (intro assms(4)) (simp add: charging_def)
      from charging_tick [OF _ this assms(3) assms(2)] before [of k] no less.prems Suc
      have "charging (st (Suc k))" "rb_battery (st k) + 19/100 \<le> rb_battery (st (Suc k))" by blast+
      with before [of k] Suc show ?thesis by (simp add: add_divide_distrib)
    qed
  qed
  from this [of 510] show False by (auto simp: charging_def robot_inv_def ranges_ok_def)
qed

definition idle_input :: "real \<Rightarrow> tick_input" where
  "idle_input t = \<lparr>ti_now = t, ti_stamp = 0, ti_polling = False, ti_reporting = False, ti_commands = None, ti_draws = (\<lambda>_. 1/2)\<rparr>"

definition sample_robot :: "string \<Rightarrow> real \<Rightarrow> robot_state" where
  "sample_robot status battery =
     \<lparr>rb_id = 7, rb_battery = battery, rb_temperature = 40, rb_speed = 0, rb_status = status, rb_online = False,
      rb_mission = None, rb_mission_id = None, rb_mission_progress = None, rb_mission_start_time = None,
      rb_battery_health = 90, rb_motor_health = 90, rb_sensor_health = 90, rb_network_health = 90,
      rb_x = 0, rb_y = 0, rb_last_update_s = 0, rb_pause_until_s = 0, rb_completion_count = 0,
      rb_blackout_until = 0, rb_charging_suspended = False, rb_dead_since = 0, rb_returning_to_charge = False,
      rb_processed = [], rb_in_fence = False, rb_fence_cooldown_until = 0\<rparr>"

theorem dead_robot_replaced_witness:
  "\<exists>r' out. robot_tick 30 (idle_input 100) (sample_robot ''DEAD'' 3) = Inr (r', out) \<and> rb_battery r' = 100"
proof -
  have "robot_inv (sample_robot ''DEAD'' 3)"
    by (simp add: sample_robot_def robot_inv_def ranges_ok_def parts_ok_def task_ok_def health_ok_def idle_def is_dead_def statuses_def)
  from dead_robot_replaced [OF this, of "idle_input 100" 30] show ?thesis
    by (auto simp: sample_robot_def idle_input_def quiet_def draws_ok_def)
qed

primrec idle_run :: "nat \<Rightarrow> robot_state" where
  "idle_run 0 = sample_robot ''CHARGING'' (999/10)"
| "idle_run (Suc k) = fst (projr (robot_tick 30 (idle_input (of_nat k)) (idle_run k)))"

theorem charging_completes_witness:
  "\<exists>k \<le> 510. rb_battery (idle_run k) = 100 \<and> rb_status (idle_run k) = ''ACTIVE''"
proof -
  have inv: "robot_inv (idle_run k)" for k
  proof (induction k)
    case 0
    show ?case by (simp add: sample_robot_def robot_inv_def ranges_ok_def parts_ok_def task_ok_def health_ok_def statuses_def)
  next
    case (Suc k)
    from robot_tick_ok [OF Suc, of 30 "idle_input (of_nat k)"] show ?case by auto
  qed
  have tick: "robot_tick 30 (idle_input (of_nat k)) (idle_run k) =
      Inr (idle_run (Suc k), snd (projr (robot_tick 30 (idle_input (of_nat k)) (idle_run k))))" for k
    using robot_tick_ok [OF inv, of 30 "idle_input (of_nat k)" k] by auto
  have c0: "charging (idle_run 0)" using inv [of 0] by (simp add: charging_def sample_robot_def)
  have quiet: "quiet (idle_input (of_nat k))" for k by (simp add: quiet_def idle_input_def)
  have b0: "rb_temperature (idle_run 0) < 80" "rb_battery (idle_run 0) = 999/10" by (simp_all add: sample_robot_def)
  have full: "rb_status (idle_run (Suc 0)) = ''ACTIVE''"
    using charging_tick [OF c0 b0(1) quiet tick] b0(2) inv [of "Suc 0"]
    by (auto simp: robot_inv_def ranges_ok_def simp del: idle_run.simps)
  have cool: "rb_temperature (idle_run k) < 80" if "\<And>j. j \<le> k \<Longrightarrow> rb_status (idle_run j) = ''CHARGING''" for k
    using that [of "Suc 0"] full b0(1) by (cases k) (simp_all del: idle_run.simps)
  show ?thesis by (rule charging_completes [OF c0 tick quiet cool])
qed

end
