(* ===== verification/FleetSimFleet.thy ===== *)
theory FleetSimFleet
  imports FleetSimRobot
begin

text \<open>
  The simulated fleet (\<open>simulator/robot_sim.py\<close>): the dispatcher, the split of the fleet over worker
  processes, the initial fleet, and the interleaving of robot loops with the dispatcher. A
  robot's loop gives up control while it polls and between the commands it was handed, so a
  tick is a begin step, one step per command and an end step; a turn of the dispatcher has no
  await and is one step. The end step also waits where it posts an event. A turn of the
  dispatcher in that time has the effect of one before the step while the robot still holds the
  mission it completed, and of one after the step at the fence, where what remains only clamps;
  the reading that follows would then already name the new mission.
\<close>

section \<open>The dispatcher\<close>

definition MISSION_TYPES :: "string list" where
  "MISSION_TYPES = [''PATROL'', ''DELIVERY'', ''INSPECTION'']"

definition candidate :: "robot_state \<Rightarrow> bool" where
  "candidate r \<longleftrightarrow>
     rb_online r \<and> rb_status r \<notin> {''DEAD'', ''CHARGING'', ''OVERHEATING'', ''STOPPED''}
   \<and> rb_mission r = None \<and> \<not> rb_returning_to_charge r \<and> rb_battery r > 20"

definition distance_to :: "mission \<Rightarrow> robot_state \<Rightarrow> real" where
  "distance_to m r = hypot (ms_x (mi_steps m ! 0) - rb_x r) (ms_y (mi_steps m ! 0) - rb_y r)"

definition nearest :: "mission \<Rightarrow> robot_state list \<Rightarrow> nat option" where
  "nearest m fleet =
     (case sort_key (\<lambda>k. distance_to m (fleet ! k)) (filter (\<lambda>k. candidate (fleet ! k)) [0..<length fleet]) of
        [] \<Rightarrow> None | k # _ \<Rightarrow> Some k)"

text \<open>The loop over a snapshot of the queue; no candidate ends it.\<close>

fun dispatch_missions ::
  "instant \<Rightarrow> mission list \<Rightarrow> mission list \<Rightarrow> robot_state list \<Rightarrow> mission list \<times> robot_state list"
where
  "dispatch_missions stamp [] queue fleet = (queue, fleet)"
| "dispatch_missions stamp (m # ms) queue fleet =
     (case nearest m fleet of
        None \<Rightarrow> (queue, fleet)
      | Some k \<Rightarrow> dispatch_missions stamp ms (remove1 m queue) (fleet[k := assign_mission stamp m (fleet ! k)]))"

record mission_draw =
  md_type :: nat
  md_count :: nat
  md_points :: "nat \<Rightarrow> real \<times> real"
  md_pauses :: "nat \<Rightarrow> real"

text \<open>\<open>rng.choice\<close> picks an index in range; \<open>randint\<close> answers 3 to 5 for patrols, 2 to 4 for inspections.\<close>

definition mission_draw_ok :: "mission_draw \<Rightarrow> bool" where
  "mission_draw_ok d \<longleftrightarrow>
     md_type d < length MISSION_TYPES
   \<and> (MISSION_TYPES ! md_type d = ''PATROL'' \<longrightarrow> 3 \<le> md_count d \<and> md_count d \<le> 5)
   \<and> (MISSION_TYPES ! md_type d = ''INSPECTION'' \<longrightarrow> 2 \<le> md_count d \<and> md_count d \<le> 4)"

definition mission_name :: "nat \<Rightarrow> string" where
  "mission_name n = ''M-'' @ pad_left 5 (nat_str n)"

definition drawn_mission :: "real \<Rightarrow> nat \<Rightarrow> mission_draw \<Rightarrow> mission" where
  "drawn_mission radius counter d =
     build_mission (mission_name counter) (MISSION_TYPES ! md_type d) (md_count d) (md_points d) (md_pauses d) radius"

definition dispatcher_turn ::
  "real \<Rightarrow> instant \<Rightarrow> mission_draw \<Rightarrow> mission list \<times> nat \<times> robot_state list \<Rightarrow> mission list \<times> nat \<times> robot_state list"
where
  "dispatcher_turn radius stamp d st =
     (case st of (queue, counter, fleet) \<Rightarrow>
        (let (queue', counter') = (if length queue < 4 then (queue @ [drawn_mission radius counter d], counter + 1) else (queue, counter));
             (queue'', fleet') = dispatch_missions stamp queue' queue' fleet
         in (queue'', counter', fleet')))"

section \<open>Splitting the fleet over processes\<close>

definition my_robots :: "nat \<Rightarrow> nat \<Rightarrow> nat \<Rightarrow> nat" where
  "my_robots robots_count total_workers worker_index =
     robots_count div total_workers + (if worker_index < robots_count mod total_workers then 1 else 0)"

definition start_id :: "nat \<Rightarrow> nat \<Rightarrow> nat \<Rightarrow> nat" where
  "start_id robots_count total_workers worker_index =
     sum_list (map (my_robots robots_count total_workers) [0..<worker_index]) + 1"

definition worker_ids :: "nat \<Rightarrow> nat \<Rightarrow> nat \<Rightarrow> nat list" where
  "worker_ids robots_count total_workers worker_index =
     [start_id robots_count total_workers worker_index
       ..<start_id robots_count total_workers worker_index + my_robots robots_count total_workers worker_index]"

definition new_robot :: "real \<Rightarrow> real \<Rightarrow> draws \<Rightarrow> int \<Rightarrow> robot_state" where
  "new_robot ambient radius u rid =
     (case initial_component_health u None of (b, m, s, n) \<Rightarrow>
        (let p = random_point (u ''angle'') (u ''distance'') (radius * (2/10))
         in \<lparr>rb_id = rid, rb_battery = clamp (100 - uniform 0 12 (u ''charge'')) 65 100,
             rb_temperature = clamp (ambient + uniform 1 6 (u ''warmth'')) 24 50, rb_speed = 0, rb_status = ''ACTIVE'',
             rb_online = True, rb_mission = None, rb_mission_id = None, rb_mission_progress = None, rb_mission_start_time = None,
             rb_battery_health = b, rb_motor_health = m, rb_sensor_health = s, rb_network_health = n,
             rb_x = fst p, rb_y = snd p, rb_last_update_s = 0, rb_pause_until_s = 0, rb_completion_count = 0,
             rb_blackout_until = 0, rb_charging_suspended = False, rb_dead_since = 0, rb_returning_to_charge = False,
             rb_processed = [], rb_in_fence = False, rb_fence_cooldown_until = 0\<rparr>))"

section \<open>Robots and dispatcher interleaved\<close>

datatype robot_pc =
    Top
  | Polling tick_input bool real "claimed_command list"

record sim =
  sm_robots :: "robot_state list"
  sm_pcs :: "robot_pc list"
  sm_queue :: "mission list"
  sm_counter :: nat

definition claimed :: "tick_input \<Rightarrow> claimed_command list" where
  "claimed i = (if ti_polling i then (case ti_commands i of None \<Rightarrow> [] | Some cs \<Rightarrow> cs) else [])"

text \<open>The step of robot \<open>k\<close>; a new tick reads the input \<open>i\<close>. \<open>None\<close> stands for a raised exception.\<close>

definition robot_step :: "real \<Rightarrow> tick_input \<Rightarrow> robot_pc \<Rightarrow> robot_state \<Rightarrow> (robot_state \<times> robot_pc \<times> sim_output list) option" where
  "robot_step ambient_c i pc r =
     (case pc of
        Top \<Rightarrow> (case begin_tick i r of (r', bo, dt) \<Rightarrow> Some (r', Polling i bo dt (claimed i), []))
      | Polling j bo dt [] \<Rightarrow>
          (case end_tick ambient_c j bo dt r of Inl e \<Rightarrow> None | Inr (r', out) \<Rightarrow> Some (r', Top, out))
      | Polling j bo dt (c # cs) \<Rightarrow>
          (case ck_id c of
             None \<Rightarrow> Some (r, Polling j bo dt [], [])
           | Some cmd_id \<Rightarrow> (case handle_command cmd_id (command_action c) r of (r', out) \<Rightarrow> Some (r', Polling j bo dt cs, out))))"

inductive sim_step :: "real \<Rightarrow> real \<Rightarrow> sim \<Rightarrow> sim \<Rightarrow> bool" for ambient_c radius where
  robot: "k < length (sm_robots s) \<Longrightarrow> robot_step ambient_c i (sm_pcs s ! k) (sm_robots s ! k) = Some (r', pc', out) \<Longrightarrow>
     sim_step ambient_c radius s (s\<lparr>sm_robots := (sm_robots s)[k := r'], sm_pcs := (sm_pcs s)[k := pc']\<rparr>)"
| dispatch: "mission_draw_ok d \<Longrightarrow>
     dispatcher_turn radius stamp d (sm_queue s, sm_counter s, sm_robots s) = (queue', counter', fleet') \<Longrightarrow>
     sim_step ambient_c radius s (s\<lparr>sm_robots := fleet', sm_queue := queue', sm_counter := counter'\<rparr>)"

inductive_cases sim_stepE: "sim_step ambient_c radius s s'"

lemmas sim_step_cases = sim_stepE [consumes 1, case_names robot dispatch]

definition sim_start :: "real \<Rightarrow> real \<Rightarrow> (int \<Rightarrow> draws) \<Rightarrow> int list \<Rightarrow> sim" where
  "sim_start ambient_c radius u ids =
     \<lparr>sm_robots = map (\<lambda>rid. new_robot ambient_c radius (u rid) rid) ids, sm_pcs = map (\<lambda>_. Top) ids,
      sm_queue = [], sm_counter = 1\<rparr>"

inductive sim_reachable :: "real \<Rightarrow> real \<Rightarrow> (int \<Rightarrow> draws) \<Rightarrow> int list \<Rightarrow> sim \<Rightarrow> bool" for ambient_c radius u ids where
  start: "sim_reachable ambient_c radius u ids (sim_start ambient_c radius u ids)"
| step: "sim_reachable ambient_c radius u ids s \<Longrightarrow> sim_step ambient_c radius s s' \<Longrightarrow> sim_reachable ambient_c radius u ids s'"

section \<open>Lemmas: dispatching\<close>

lemma nearest_Some:
  assumes "nearest m fleet = Some k"
  shows "k < length fleet \<and> candidate (fleet ! k) \<and> (\<forall>j < length fleet. candidate (fleet ! j) \<longrightarrow> distance_to m (fleet ! k) \<le> distance_to m (fleet ! j))"
proof -
  let ?f = "\<lambda>k. distance_to m (fleet ! k)"
  let ?ks = "filter (\<lambda>k. candidate (fleet ! k)) [0..<length fleet]"
  obtain ks where ks: "sort_key ?f ?ks = k # ks" using assms by (auto simp: nearest_def split: list.splits)
  have set: "set (sort_key ?f ?ks) = set ?ks" by simp
  have "sorted (map ?f (sort_key ?f ?ks))" by (rule sorted_sort_key)
  then have "\<forall>j \<in> set ?ks. ?f k \<le> ?f j" using set unfolding ks by auto
  moreover have "k \<in> set ?ks" using set unfolding ks by auto
  ultimately show ?thesis by auto
qed

lemma assign_inv:
  assumes "robot_inv r" "candidate r" "mission_ok m"
  shows "robot_inv (assign_mission stamp m r)"
proof -
  have "parts_ok r" "ranges_ok r" using assms(1) by (simp_all add: robot_inv_def)
  then show ?thesis using assms(3)
    by (simp add: robot_inv_def parts_ok_def task_ok_def ranges_ok_def assign_mission_def statuses_def)
qed

lemma dispatch_inv:
  "dispatch_missions stamp ms queue fleet = (queue', fleet') \<Longrightarrow> list_all mission_ok ms \<Longrightarrow> list_all mission_ok queue \<Longrightarrow>
   list_all robot_inv fleet \<Longrightarrow> length fleet' = length fleet \<and> list_all mission_ok queue' \<and> list_all robot_inv fleet'"
proof (induction ms arbitrary: queue fleet)
  case (Cons m ms)
  show ?case
  proof (cases "nearest m fleet")
    case None
    with Cons.prems show ?thesis by simp
  next
    case (Some k)
    note near = nearest_Some [OF Some]
    have "list_all robot_inv (fleet[k := assign_mission stamp m (fleet ! k)])"
      using Cons.prems near assign_inv [of "fleet ! k" m stamp]
      by (auto simp: list_all_iff dest!: set_update_subset_insert [THEN subsetD])
    moreover have "list_all mission_ok (remove1 m queue)"
      using Cons.prems(3) set_remove1_subset [of m queue] by (auto simp: list_all_iff)
    ultimately show ?thesis using Cons Some by simp
  qed
qed simp

lemma built_ok: "mission_type = ''PATROL'' \<or> mission_type = ''DELIVERY'' \<or> 0 < n \<Longrightarrow>
    mission_ok (build_mission i mission_type n pt pause radius)"
  by (auto simp: mission_ok_def build_mission_def mission_of_def)

lemma drawn_mission_ok: "mission_draw_ok d \<Longrightarrow> mission_ok (drawn_mission radius counter d)"
proof -
  assume d: "mission_draw_ok d"
  then have "MISSION_TYPES ! md_type d \<in> set MISSION_TYPES" by (simp add: mission_draw_ok_def)
  then have "MISSION_TYPES ! md_type d = ''PATROL'' \<or> MISSION_TYPES ! md_type d = ''DELIVERY'' \<or> MISSION_TYPES ! md_type d = ''INSPECTION''"
    by (simp add: MISSION_TYPES_def)
  with d show ?thesis unfolding drawn_mission_def by (intro built_ok) (auto simp: mission_draw_ok_def)
qed

lemma new_robot_inv: "robot_inv (new_robot ambient radius u rid)"
proof -
  obtain b m s n where h: "initial_component_health u None = (b, m, s, n)" by (metis prod_cases4)
  show ?thesis unfolding new_robot_def h
    using initial_component_health_ok [OF h] clamp_bounds [of 65 100 "100 - uniform 0 12 (u ''charge'')"]
      clamp_bounds [of 24 50 "ambient + uniform 1 6 (u ''warmth'')"]
    by (simp add: Let_def robot_inv_def ranges_ok_def parts_ok_def task_ok_def statuses_def)
qed

section \<open>The invariant of the fleet\<close>

definition sim_inv :: "sim \<Rightarrow> bool" where
  "sim_inv s \<longleftrightarrow> list_all robot_inv (sm_robots s) \<and> list_all mission_ok (sm_queue s) \<and> length (sm_pcs s) = length (sm_robots s)"

lemma robot_step_ok:
  assumes "robot_inv r" "22 \<le> ambient_c" "ambient_c \<le> 99"
  shows "\<exists>r' pc' out. robot_step ambient_c i pc r = Some (r', pc', out) \<and> robot_inv r'"
proof (cases pc)
  case Top
  obtain r' bo dt where "begin_tick i r = (r', bo, dt)" by (metis prod_cases3)
  with Top inv_begin_tick [OF assms(1)] show ?thesis by (simp add: robot_step_def)
next
  case (Polling j bo dt cs)
  show ?thesis
  proof (cases cs)
    case Nil
    with Polling end_tick_ok [OF assms, of j bo dt] show ?thesis by (auto simp: robot_step_def)
  next
    case (Cons c cs')
    show ?thesis
    proof (cases "ck_id c")
      case None
      with Polling Cons assms(1) show ?thesis by (simp add: robot_step_def)
    next
      case (Some cmd_id)
      obtain r' out where h: "handle_command cmd_id (command_action c) r = (r', out)" by fastforce
      with Polling Cons Some inv_handle_command [OF assms(1) h] show ?thesis by (simp add: robot_step_def)
    qed
  qed
qed

lemma dispatcher_turn_inv:
  assumes "mission_draw_ok d" "list_all mission_ok queue" "list_all robot_inv fleet"
    "dispatcher_turn radius stamp d (queue, counter, fleet) = (queue', counter', fleet')"
  shows "length fleet' = length fleet \<and> list_all mission_ok queue' \<and> list_all robot_inv fleet'"
proof -
  define q where "q = (if length queue < 4 then queue @ [drawn_mission radius counter d] else queue)"
  have q: "list_all mission_ok q" using assms(1,2) drawn_mission_ok by (simp add: q_def)
  have "dispatch_missions stamp q q fleet = (queue', fleet')"
    using assms(4) by (auto simp: dispatcher_turn_def q_def Let_def split: if_splits prod.splits)
  from dispatch_inv [OF this q q assms(3)] show ?thesis .
qed

lemma sim_step_inv:
  assumes "sim_step ambient_c radius s s'" "sim_inv s" "22 \<le> ambient_c" "ambient_c \<le> 99"
  shows "sim_inv s'"
  using assms(1)
proof (cases rule: sim_step_cases)
  case (robot k i r' pc' out)
  have "robot_inv (sm_robots s ! k)" using assms(2) robot(2) by (simp add: sim_inv_def list_all_length)
  with robot_step_ok [OF this assms(3,4), of i "sm_pcs s ! k"] robot(3) have "robot_inv r'" by auto
  with robot assms(2) show ?thesis
    by (auto simp: sim_inv_def list_all_iff dest!: set_update_subset_insert [THEN subsetD])
next
  case (dispatch d stamp queue' counter' fleet')
  with dispatcher_turn_inv [OF dispatch(2) _ _ dispatch(3)] assms(2) show ?thesis by (simp add: sim_inv_def)
qed

lemma sim_reachable_run: "sim_reachable ambient_c radius u ids s \<longleftrightarrow> (sim_step ambient_c radius)\<^sup>*\<^sup>* (sim_start ambient_c radius u ids) s"
proof
  show "sim_reachable ambient_c radius u ids s \<Longrightarrow> (sim_step ambient_c radius)\<^sup>*\<^sup>* (sim_start ambient_c radius u ids) s"
    by (induction rule: sim_reachable.induct) auto
  show "(sim_step ambient_c radius)\<^sup>*\<^sup>* (sim_start ambient_c radius u ids) s \<Longrightarrow> sim_reachable ambient_c radius u ids s"
    by (induction rule: rtranclp_induct) (auto intro: sim_reachable.intros)
qed

interpretation fleet: step_invariant "sim_step ambient_c radius" "\<lambda>s. 22 \<le> ambient_c \<and> ambient_c \<le> 99 \<longrightarrow> sim_inv s"
  by unfold_locales (auto intro: sim_step_inv)

lemma sim_reachable_inv:
  "sim_reachable ambient_c radius u ids s \<Longrightarrow> 22 \<le> ambient_c \<Longrightarrow> ambient_c \<le> 99 \<Longrightarrow> sim_inv s"
  using fleet.run_keeps [of ambient_c radius "sim_start ambient_c radius u ids" s]
  by (simp add: sim_reachable_run sim_inv_def sim_start_def list_all_iff new_robot_inv)

text \<open>
  C12: Every simulated robot stays in a physically sensible and consistent state, whatever is
  drawn, commanded and dispatched and however the loops interleave: charge 0 to 100, temperature
  22 to 99, speed 0 to 2.2, component health 10 to 100, at most 100 remembered commands, a
  mission with a step still to do and progress 0 to 100 or no mission at all, a dead robot
  offline and a dead or stopped one at rest with no task. And no robot's loop ever raises: from
  every reachable state each robot can take its next step.
\<close>

theorem sim_invariant:
  assumes "sim_reachable ambient_c radius u ids s" and "22 \<le> ambient_c" and "ambient_c \<le> 99" and "k < length (sm_robots s)"
  shows "robot_inv (sm_robots s ! k) \<and> (\<exists>s'. robot_step ambient_c i (sm_pcs s ! k) (sm_robots s ! k) = Some s')"
proof -
  have "robot_inv (sm_robots s ! k)"
    using sim_reachable_inv [OF assms(1-3)] assms(4) by (simp add: sim_inv_def list_all_length)
  with robot_step_ok [OF this assms(2,3)] show ?thesis by blast
qed

theorem sim_invariant_witness:
  "robot_inv (sm_robots (sim_start 30 20 (\<lambda>_ _. 1/2) [7]) ! 0)"
  using sim_invariant [OF sim_reachable.start, of 30 0 20 "\<lambda>_ _. 1/2" "[7]"] by (simp add: sim_start_def)

section \<open>An emergency stop holds\<close>

lemma dispatch_keeps:
  "dispatch_missions stamp ms queue fleet = (queue', fleet') \<Longrightarrow> k < length fleet \<Longrightarrow> \<not> candidate (fleet ! k) \<Longrightarrow>
   fleet' ! k = fleet ! k"
proof (induction ms arbitrary: queue fleet)
  case (Cons m ms)
  show ?case
  proof (cases "nearest m fleet")
    case (Some j)
    have "j \<noteq> k" using nearest_Some [OF Some] Cons.prems(3) by blast
    with Cons Some show ?thesis by simp
  qed (use Cons.prems in simp)
qed simp

lemma dispatch_length: "dispatch_missions stamp ms queue fleet = (queue', fleet') \<Longrightarrow> length fleet' = length fleet"
  by (induction ms arbitrary: queue fleet) (auto split: option.splits)

lemma dispatcher_turn_length:
  "dispatcher_turn radius stamp d (queue, counter, fleet) = (queue', counter', fleet') \<Longrightarrow> length fleet' = length fleet"
  using dispatch_length by (auto simp: dispatcher_turn_def Let_def split: if_splits prod.splits)

lemma dispatcher_turn_keeps:
  assumes "dispatcher_turn radius stamp d (queue, counter, fleet) = (queue', counter', fleet')" "k < length fleet" "\<not> candidate (fleet ! k)"
  shows "fleet' ! k = fleet ! k"
  using assms dispatch_keeps [OF _ assms(2,3)] by (auto simp: dispatcher_turn_def Let_def split: if_splits prod.splits)

lemma end_tick_stopped:
  "rb_status r = ''STOPPED'' \<Longrightarrow> \<not> is_dead r \<Longrightarrow> end_tick ambient_c j bo dt r = Inr (r, emit_unless bo j r)"
  by (simp add: end_tick_def)

lemma begin_tick_keeps:
  "begin_tick i r = (r', bo, dt) \<Longrightarrow> rb_status r' = rb_status r \<and> rb_x r' = rb_x r \<and> rb_y r' = rb_y r \<and> rb_speed r' = rb_speed r
     \<and> is_dead r' = is_dead r"
  by (auto simp: begin_tick_def start_tick_def blackout_phase_def split: if_splits)

text \<open>The commands that release a stopped robot.\<close>

definition releases :: "robot_pc \<Rightarrow> bool" where
  "releases pc \<longleftrightarrow>
     (\<exists>j bo dt c cs. pc = Polling j bo dt (c # cs) \<and> command_action c \<in> {Some ''RESUME'', Some ''RETURN_TO_BASE''})"

definition parked :: "robot_state \<Rightarrow> real \<times> real \<Rightarrow> bool" where
  "parked r p \<longleftrightarrow> rb_status r = ''STOPPED'' \<and> \<not> is_dead r \<and> rb_speed r = 0 \<and> (rb_x r, rb_y r) = p"

lemma remember_fields [simp]:
  "rb_status (remember_command c r) = rb_status r" "rb_x (remember_command c r) = rb_x r" "rb_y (remember_command c r) = rb_y r"
  "rb_speed (remember_command c r) = rb_speed r" "is_dead (remember_command c r) = is_dead r"
  by (simp_all add: remember_command_def Let_def)

lemma handle_keeps_parked:
  assumes "parked r p" "action \<notin> {Some ''RESUME'', Some ''RETURN_TO_BASE''}" "handle_command c action r = (r', out)"
  shows "parked r' p"
  using assms by (auto simp: parked_def handle_command_def execute_command_def split: if_splits)

lemma robot_step_keeps_parked:
  assumes "parked r p" "\<not> releases pc" "robot_step ambient_c i pc r = Some (r', pc', out)"
  shows "parked r' p"
proof (cases pc)
  case Top
  with assms(1,3) begin_tick_keeps [of i r] show ?thesis
    by (auto simp: robot_step_def parked_def split: prod.splits)
next
  case (Polling j bo dt cs)
  show ?thesis
  proof (cases cs)
    case Nil
    with Polling assms(1,3) end_tick_stopped [of r] show ?thesis by (auto simp: robot_step_def parked_def)
  next
    case (Cons c cs')
    with assms(2) Polling have "command_action c \<notin> {Some ''RESUME'', Some ''RETURN_TO_BASE''}" by (auto simp: releases_def)
    with Polling Cons assms(1,3) handle_keeps_parked [OF assms(1)] show ?thesis
      by (auto simp: robot_step_def split: option.splits prod.splits)
  qed
qed

text \<open>A step in which robot \<open>k\<close> does not handle one of them.\<close>

definition held_step :: "real \<Rightarrow> real \<Rightarrow> nat \<Rightarrow> sim \<Rightarrow> sim \<Rightarrow> bool" where
  "held_step ambient_c radius k s s' \<longleftrightarrow> sim_step ambient_c radius s s' \<and> \<not> releases (sm_pcs s ! k)"

definition holds_at :: "nat \<Rightarrow> real \<times> real \<Rightarrow> sim \<Rightarrow> bool" where
  "holds_at k p s \<longleftrightarrow> length (sm_pcs s) = length (sm_robots s) \<and> k < length (sm_robots s) \<and> parked (sm_robots s ! k) p"

lemma held_step_holds:
  assumes "held_step ambient_c radius k s s'" "holds_at k p s"
  shows "holds_at k p s'"
proof -
  have st: "sim_step ambient_c radius s s'" and rel: "\<not> releases (sm_pcs s ! k)"
    and len: "length (sm_pcs s) = length (sm_robots s)" "k < length (sm_robots s)" and p: "parked (sm_robots s ! k) p"
    using assms by (simp_all add: held_step_def holds_at_def)
  from st show ?thesis
  proof (cases rule: sim_step_cases)
    case (robot j i r' pc' out)
    with robot_step_keeps_parked [OF p rel] len p show ?thesis by (cases "j = k") (auto simp: holds_at_def)
  next
    case (dispatch d stamp queue' counter' fleet')
    have "\<not> candidate (sm_robots s ! k)" using p by (simp add: parked_def candidate_def)
    from dispatcher_turn_keeps [OF dispatch(3) len(2) this] dispatcher_turn_length [OF dispatch(3)] dispatch(1) len p
    show ?thesis by (simp add: holds_at_def)
  qed
qed

interpretation parking: step_invariant "held_step ambient_c radius k" "holds_at k p"
  by unfold_locales (rule held_step_holds)

text \<open>
  C13: An emergency stop holds. A stopped robot that still has power stays stopped, at speed
  zero and where it is, through any run of the fleet (its own ticks with their draws, other
  robots' ticks, the dispatcher handing out missions, further commands) in which it does not
  come to handle a RESUME or RETURN\_TO\_BASE command it was given.
\<close>

theorem emergency_stop_holds:
  assumes "(held_step ambient_c radius k)\<^sup>*\<^sup>* s s'" and "length (sm_pcs s) = length (sm_robots s)"
    and "k < length (sm_robots s)" and "parked (sm_robots s ! k) p"
  shows "k < length (sm_robots s') \<and> parked (sm_robots s' ! k) p"
  using parking.run_keeps [OF assms(1)] assms(2-4) by (auto simp: holds_at_def)

definition stopped_robot :: robot_state where
  "stopped_robot = (new_robot 30 20 (\<lambda>_. 1/2) 7)\<lparr>rb_status := ''STOPPED''\<rparr>"

lemma stopped_robot_parked: "parked stopped_robot (rb_x stopped_robot, rb_y stopped_robot)"
  by (simp add: parked_def stopped_robot_def new_robot_def initial_component_health_def component_health_def
      uniform_def clamp_def is_dead_def Let_def)

definition quiet_input :: "real \<Rightarrow> tick_input" where
  "quiet_input t = \<lparr>ti_now = t, ti_stamp = 0, ti_polling = True, ti_reporting = True, ti_commands = Some [], ti_draws = (\<lambda>_. 1/2)\<rparr>"

definition stopped_sim :: sim where
  "stopped_sim = \<lparr>sm_robots = [stopped_robot], sm_pcs = [Polling (quiet_input 9) False 1 []], sm_queue = [], sm_counter = 1\<rparr>"

theorem emergency_stop_holds_witness:
  "\<exists>s'. sim_step 30 20 stopped_sim s' \<and> parked (sm_robots s' ! 0) (rb_x stopped_robot, rb_y stopped_robot)"
proof -
  have dead: "rb_status stopped_robot = ''STOPPED''" "\<not> is_dead stopped_robot"
    using stopped_robot_parked by (simp_all add: parked_def)
  have "robot_step 30 (quiet_input 9) (sm_pcs stopped_sim ! 0) (sm_robots stopped_sim ! 0)
      = Some (stopped_robot, Top, emit_unless False (quiet_input 9) stopped_robot)"
    using end_tick_stopped [OF dead] by (simp add: robot_step_def stopped_sim_def)
  then have "\<exists>s'. sim_step 30 20 stopped_sim s'"
    using sim_step.robot [of 0 stopped_sim 30] by (fastforce simp: stopped_sim_def)
  then obtain s' where s': "sim_step 30 20 stopped_sim s'" by blast
  have "held_step 30 20 0 stopped_sim s'" using s' by (simp add: held_step_def stopped_sim_def releases_def)
  then have run: "(held_step 30 20 0)\<^sup>*\<^sup>* stopped_sim s'" by (rule r_into_rtranclp)
  have "length (sm_pcs stopped_sim) = length (sm_robots stopped_sim)" "0 < length (sm_robots stopped_sim)"
    "parked (sm_robots stopped_sim ! 0) (rb_x stopped_robot, rb_y stopped_robot)"
    using stopped_robot_parked by (simp_all add: stopped_sim_def)
  from emergency_stop_holds [OF run this] s' show ?thesis by blast
qed

section \<open>Splitting the fleet\<close>

lemma worker_sum:
  assumes "0 < w" "k \<le> w"
  shows "sum_list (map (my_robots n w) [0..<k]) = k * (n div w) + min k (n mod w)"
  using assms(2) by (induction k) (auto simp: my_robots_def)

lemma worker_ids_upto:
  assumes "0 < w" "k \<le> w"
  shows "concat (map (worker_ids n w) [0..<k]) = [1..<start_id n w k]"
  using assms(2)
proof (induction k)
  case 0
  show ?case by (simp add: start_id_def)
next
  case (Suc k)
  have "start_id n w (Suc k) = start_id n w k + my_robots n w k" by (simp add: start_id_def)
  moreover have "1 \<le> start_id n w k" by (simp add: start_id_def)
  ultimately show ?case using Suc upt_add_eq_append [of 1 "start_id n w k" "my_robots n w k"]
    by (simp add: worker_ids_def)
qed

text \<open>
  The worker processes share out the fleet: listed worker by worker, the identifiers they
  simulate are exactly 1 to \<open>robots_count\<close>, each once, and no two workers differ in size by more
  than one robot.
\<close>

theorem workers_partition_fleet:
  assumes "0 < total_workers"
  shows "concat (map (worker_ids n total_workers) [0..<total_workers]) = [1..<n + 1]
    \<and> (\<forall>i < total_workers. \<forall>j < total_workers.
         length (worker_ids n total_workers i) \<le> length (worker_ids n total_workers j) + 1)"
proof -
  have "min total_workers (n mod total_workers) = n mod total_workers" using mod_less_divisor [OF assms, of n] by simp
  then have "start_id n total_workers total_workers = n + 1"
    using worker_sum [OF assms order.refl, of n] by (simp add: start_id_def)
  with worker_ids_upto [OF assms order.refl, of n] show ?thesis by (simp add: worker_ids_def my_robots_def)
qed

theorem workers_partition_fleet_witness:
  "concat (map (worker_ids 7 3) [0..<3]) = [1, 2, 3, 4, 5, 6, 7]"
  using workers_partition_fleet [of 3 7] by (simp add: upt_rec)

section \<open>Every mission has at most one robot\<close>

definition held :: "robot_state \<Rightarrow> string list" where
  "held r = (case rb_mission r of None \<Rightarrow> [] | Some m \<Rightarrow> [mi_id m])"

text \<open>The names of all missions that are waiting or under way.\<close>

definition open_missions :: "sim \<Rightarrow> string list" where
  "open_missions s = map mi_id (sm_queue s) @ concat (map held (sm_robots s))"

lemma held_frame [simp]:
  "held (r\<lparr>rb_battery := b\<rparr>) = held r" "held (r\<lparr>rb_temperature := b\<rparr>) = held r" "held (r\<lparr>rb_speed := b\<rparr>) = held r"
  "held (r\<lparr>rb_x := b\<rparr>) = held r" "held (r\<lparr>rb_y := b\<rparr>) = held r" "held (r\<lparr>rb_status := st\<rparr>) = held r"
  "held (r\<lparr>rb_last_update_s := b\<rparr>) = held r" "held (r\<lparr>rb_pause_until_s := b\<rparr>) = held r"
  "held (r\<lparr>rb_blackout_until := b\<rparr>) = held r" "held (r\<lparr>rb_charging_suspended := f\<rparr>) = held r"
  "held (r\<lparr>rb_dead_since := b\<rparr>) = held r" "held (r\<lparr>rb_returning_to_charge := f\<rparr>) = held r"
  "held (r\<lparr>rb_in_fence := f\<rparr>) = held r" "held (r\<lparr>rb_fence_cooldown_until := b\<rparr>) = held r"
  "held (r\<lparr>rb_online := f\<rparr>) = held r" "held (r\<lparr>rb_processed := ids\<rparr>) = held r" "held (clear_mission r) = []"
  by (simp_all add: held_def)

text \<open>A robot only ever keeps or drops its mission by itself.\<close>

definition keeps_or_drops :: "robot_state \<Rightarrow> robot_state \<Rightarrow> bool" where
  "keeps_or_drops r r' \<longleftrightarrow> held r' = held r \<or> held r' = []"

lemma keeps_or_drops_trans: "keeps_or_drops a b \<Longrightarrow> keeps_or_drops b c \<Longrightarrow> keeps_or_drops a c"
  by (auto simp: keeps_or_drops_def)

lemma held_advance: "rb_mission r = Some m \<Longrightarrow> held (advance m r) = held r"
  by (simp add: held_def advance_def Let_def)

lemma held_work [simp]: "held (work ambient_c dt r) = held r" "held (step_towards dx dy dt r) = held r"
  by (simp_all add: work_def step_towards_def Let_def)

lemma physics_held:
  assumes "physics u stamp v bo ambient_c now dt r = Inr (r', out)"
  shows "keeps_or_drops r r'"
proof -
  have a: "held (return_phase u ambient_c dt r) = held r" by (simp add: return_phase_def Let_def)
  have b: "held (charge_phase ambient_c dt r) = held r" by (simp add: charge_phase_def Let_def)
  have c: "held (standby_phase ambient_c dt r) = held r" by (simp add: standby_phase_def Let_def)
  have d: "keeps_or_drops r r'" if "hot_phase u stamp v bo ambient_c dt r = Inr (r', out)"
    using that by (auto simp: hot_phase_def Let_def keeps_or_drops_def held_advance split: option.splits if_splits)
  have e: "keeps_or_drops r r'" if "rb_mission r = Some m" "mission_phase u stamp v bo ambient_c now dt m r = Inr (r', out)" for m
    using that by (auto simp: mission_phase_def Let_def keeps_or_drops_def held_advance split: if_splits)
  from assms a b c d e show ?thesis
    by (auto simp: physics_def keeps_or_drops_def split: if_splits option.splits)
qed

lemma held_power: "keeps_or_drops r (power_triggers r)"
  by (auto simp: power_triggers_def Let_def keeps_or_drops_def)

lemma held_wear: "held (wear_phase u r) = held r"
  by (simp add: wear_phase_def held_def)

lemma held_fence: "fence_phase now bo r = (r', out) \<Longrightarrow> held r' = held r"
  by (auto simp: fence_phase_def Let_def split: if_splits)

lemma working_tick_held:
  assumes "working_tick ambient_c i bo dt r = Inr (r', out)"
  shows "keeps_or_drops r r'"
proof -
  obtain r1 out1 where p: "physics (ti_draws i) (ti_stamp i) (ti_reporting i) bo ambient_c (ti_now i) dt (power_triggers r) = Inr (r1, out1)"
    using assms by (auto simp: working_tick_def bindR_eq_Inr)
  obtain r2 out2 where f: "fence_phase (ti_now i) bo (wear_phase (ti_draws i) r1) = (r2, out2)" by fastforce
  have "r' = clamp_phase r2" using assms p f by (simp add: working_tick_def Let_def)
  then have "held r' = held r1" using held_fence [OF f] by (simp add: held_wear clamp_phase_def)
  with keeps_or_drops_trans [OF held_power physics_held [OF p]] show ?thesis by (simp add: keeps_or_drops_def)
qed

lemma held_shut_down: "keeps_or_drops r (shut_down now r)"
  by (auto simp: shut_down_def keeps_or_drops_def)

lemma held_repair: "held (repair u ambient_c now r) = held r"
  by (auto simp: repair_def held_def split: prod.splits)

lemma end_tick_held: "end_tick ambient_c i bo dt r = Inr (r', out) \<Longrightarrow> keeps_or_drops r r'"
  using held_shut_down [of r "ti_now i"] working_tick_held [of ambient_c i bo dt r r' out]
  by (auto simp: end_tick_def dead_tick_def Let_def keeps_or_drops_def held_repair split: if_splits)

lemma handle_held: "handle_command c action r = (r', out) \<Longrightarrow> keeps_or_drops r r'"
  by (auto simp: handle_command_def execute_command_def remember_command_def Let_def keeps_or_drops_def split: if_splits)

lemma begin_held: "begin_tick i r = (r', bo, dt) \<Longrightarrow> held r' = held r"
  by (auto simp: begin_tick_def start_tick_def blackout_phase_def split: if_splits)

lemma robot_step_held: "robot_step ambient_c i pc r = Some (r', pc', out) \<Longrightarrow> keeps_or_drops r r'"
  using begin_held [of i r] end_tick_held handle_held
  by (auto simp: robot_step_def keeps_or_drops_def
      split: robot_pc.splits list.splits option.splits sum.splits prod.splits)

lemma mission_name_inj: "mission_name a = mission_name b \<longleftrightarrow> a = b"
  using read_nat_padded by (auto simp: mission_name_def pad_left_def) (metis option.inject)

lemma concat_update:
  "k < length xss \<Longrightarrow> mset (concat (xss[k := ys])) + mset (xss ! k) = mset (concat xss) + mset ys"
proof (induction xss arbitrary: k)
  case (Cons xs xss)
  show ?case
  proof (cases k)
    case 0
    then show ?thesis by (simp add: ac_simps)
  next
    case (Suc j)
    with Cons.prems Cons.IH [of j] show ?thesis by (simp add: add.assoc)
  qed
qed simp

lemma open_update:
  "k < length fleet \<Longrightarrow>
   mset (concat (map held (fleet[k := r']))) + mset (held (fleet ! k)) = mset (concat (map held fleet)) + mset (held r')"
  using concat_update [of k "map held fleet" "held r'"] by (simp add: map_update)

lemma dispatch_open:
  "dispatch_missions stamp ms queue fleet = (queue', fleet') \<Longrightarrow> mset ms \<subseteq># mset queue \<Longrightarrow>
   mset (map mi_id queue') + mset (concat (map held fleet')) = mset (map mi_id queue) + mset (concat (map held fleet))"
proof (induction ms arbitrary: queue fleet)
  case (Cons m ms)
  show ?case
  proof (cases "nearest m fleet")
    case (Some k)
    let ?f = "fleet[k := assign_mission stamp m (fleet ! k)]"
    note near = nearest_Some [OF Some]
    have m: "m \<in># mset queue" using Cons.prems(2) by (auto dest: mset_subset_eqD)
    have "mset ms \<subseteq># mset (remove1 m queue)" using Cons.prems(2) by (simp add: insert_subset_eq_iff)
    moreover have "dispatch_missions stamp ms (remove1 m queue) ?f = (queue', fleet')" using Cons.prems(1) Some by simp
    ultimately have ih: "mset (map mi_id queue') + mset (concat (map held fleet')) =
        mset (map mi_id (remove1 m queue)) + mset (concat (map held ?f))"
      using Cons.IH by blast
    have "held (fleet ! k) = []" "held (assign_mission stamp m (fleet ! k)) = [mi_id m]"
      using near by (simp_all add: candidate_def held_def assign_mission_def)
    then have "mset (concat (map held ?f)) = add_mset (mi_id m) (mset (concat (map held fleet)))"
      using open_update [of k fleet "assign_mission stamp m (fleet ! k)"] near by simp
    moreover have "mset (map mi_id queue) = add_mset (mi_id m) (mset (map mi_id (remove1 m queue)))"
      using m by (metis image_mset_add_mset insert_DiffM mset_map mset_remove1)
    ultimately show ?thesis using ih by simp
  qed (use Cons.prems in simp)
qed simp

lemma distinct_iff_count_le: "distinct xs \<longleftrightarrow> (\<forall>x. count (mset xs) x \<le> 1)"
proof (induction xs)
  case (Cons y ys)
  show ?case
  proof
    assume "distinct (y # ys)"
    then have "count (mset ys) y = 0" "\<forall>x. count (mset ys) x \<le> 1" using Cons by (simp_all add: count_eq_zero_iff)
    then show "\<forall>x. count (mset (y # ys)) x \<le> 1" by simp
  next
    assume c: "\<forall>x. count (mset (y # ys)) x \<le> 1"
    then have "count (mset ys) y = 0" by (auto dest: spec [of _ y])
    moreover have "count (mset ys) x \<le> 1" for x
      using order_trans [OF _ c [rule_format, of x], of "count (mset ys) x"] by simp
    ultimately show "distinct (y # ys)" using Cons by (simp add: count_eq_zero_iff)
  qed
qed simp

definition missions_inv :: "sim \<Rightarrow> bool" where
  "missions_inv s \<longleftrightarrow> distinct (open_missions s) \<and> set (open_missions s) \<subseteq> mission_name ` {j. j < sm_counter s}"

lemma missions_inv_mset:
  "mset (open_missions s') \<subseteq># mset (open_missions s) \<Longrightarrow> sm_counter s \<le> sm_counter s' \<Longrightarrow> missions_inv s \<Longrightarrow> missions_inv s'"
proof -
  assume sub: "mset (open_missions s') \<subseteq># mset (open_missions s)" and c: "sm_counter s \<le> sm_counter s'" and inv: "missions_inv s"
  have "distinct (open_missions s')"
    unfolding distinct_iff_count_le
  proof
    fix x
    have "count (mset (open_missions s')) x \<le> count (mset (open_missions s)) x" by (rule mset_subset_eq_count [OF sub])
    also have "\<dots> \<le> 1" using inv by (simp add: missions_inv_def distinct_iff_count_le)
    finally show "count (mset (open_missions s')) x \<le> 1" .
  qed
  moreover have "set (open_missions s') \<subseteq> set (open_missions s)" using set_mset_mono [OF sub] by simp
  ultimately show ?thesis using inv c by (fastforce simp: missions_inv_def)
qed

lemma robot_step_missions:
  assumes "k < length (sm_robots s)" "robot_step ambient_c i pc (sm_robots s ! k) = Some (r', pc', out)" "missions_inv s"
  shows "missions_inv (s\<lparr>sm_robots := (sm_robots s)[k := r'], sm_pcs := pcs\<rparr>)"
proof (rule missions_inv_mset [OF _ _ assms(3)])
  note u = open_update [OF assms(1), of r']
  have "mset (held r') \<subseteq># mset (held (sm_robots s ! k))"
    using robot_step_held [OF assms(2)] by (auto simp: keeps_or_drops_def)
  then have "mset (concat (map held ((sm_robots s)[k := r']))) \<subseteq># mset (concat (map held (sm_robots s)))"
    using u by (metis mset_subset_eq_mono_add_right_cancel subset_mset.add_left_mono)
  then show "mset (open_missions (s\<lparr>sm_robots := (sm_robots s)[k := r'], sm_pcs := pcs\<rparr>)) \<subseteq># mset (open_missions s)"
    by (simp add: open_missions_def)
qed simp

lemma dispatch_step_missions:
  assumes "dispatcher_turn radius stamp d (sm_queue s, sm_counter s, sm_robots s) = (queue', counter', fleet')" "missions_inv s"
  shows "missions_inv (s\<lparr>sm_robots := fleet', sm_queue := queue', sm_counter := counter'\<rparr>)"
proof -
  define s1 where "s1 = (if length (sm_queue s) < 4
    then s\<lparr>sm_queue := sm_queue s @ [drawn_mission radius (sm_counter s) d], sm_counter := sm_counter s + 1\<rparr> else s)"
  have name: "mi_id (drawn_mission radius (sm_counter s) d) = mission_name (sm_counter s)"
    by (simp add: drawn_mission_def build_mission_def mission_of_def)
  have "mission_name (sm_counter s) \<notin> set (open_missions s)"
    using assms(2) by (auto simp: missions_inv_def mission_name_inj)
  then have s1: "missions_inv s1"
    using assms(2) name by (auto simp: s1_def missions_inv_def open_missions_def)
  have d: "dispatch_missions stamp (sm_queue s1) (sm_queue s1) (sm_robots s1) = (queue', fleet')" "counter' = sm_counter s1"
    using assms(1) by (auto simp: dispatcher_turn_def s1_def Let_def split: if_splits prod.splits)
  show ?thesis
    by (rule missions_inv_mset [OF _ _ s1]) (use dispatch_open [OF d(1)] d(2) in \<open>simp_all add: open_missions_def\<close>)
qed

interpretation missions: step_invariant "sim_step ambient_c radius" missions_inv
proof
  fix s s' assume "sim_step ambient_c radius s s'" "missions_inv s"
  then show "missions_inv s'"
    by (cases rule: sim_step_cases) (auto intro: robot_step_missions dispatch_step_missions)
qed

lemma missions_inv_start: "missions_inv (sim_start ambient_c radius u ids)"
proof -
  have "held (new_robot ambient_c radius v rid) = []" for v rid
    by (simp add: new_robot_def held_def Let_def split: prod.splits)
  then have "concat (map held (sm_robots (sim_start ambient_c radius u ids))) = []" by (simp add: sim_start_def)
  moreover have "sm_queue (sim_start ambient_c radius u ids) = []" by (simp add: sim_start_def)
  ultimately have "open_missions (sim_start ambient_c radius u ids) = []" unfolding open_missions_def by (simp only: list.map append_Nil)
  then show ?thesis by (simp add: missions_inv_def)
qed

text \<open>
  C14: A mission is never given to two robots. In every reachable state of a worker process the
  missions waiting in the queue and the missions under way all have different identifiers, so
  no two robots are on the same one and none under way is still queued.
\<close>

theorem missions_exclusive:
  assumes "sim_reachable ambient_c radius u ids s"
  shows "distinct (open_missions s)"
  using missions.run_keeps [OF assms [unfolded sim_reachable_run] missions_inv_start] by (simp add: missions_inv_def)

theorem missions_exclusive_witness: "distinct (open_missions (sim_start 30 20 (\<lambda>_ _. 1/2) [7, 8]))"
  by (rule missions_exclusive [OF sim_reachable.start])

end
