(* ===== verification/FleetSimNet.thy ===== *)
theory FleetSimNet
  imports FleetSimFleet
begin

text \<open>
  The simulator's network side (\<open>simulator/robot_sim.py\<close>, \<open>simulator/render_server.py\<close>): posting with
  retries, the loop that watches for viewers, the batcher between the robots and the backend,
  and the health probe of the hosted wrapper. What a request does is an input.
\<close>

section \<open>Posting\<close>

definition strip_telemetry :: "string \<Rightarrow> string" where
  "strip_telemetry path =
     (if py_endswith path ''/telemetry'' then take (length path - length ''/telemetry'') path
      else if py_endswith path ''/telemetry/'' then take (length path - length ''/telemetry/'') path
      else path)"

text \<open>
  \<open>post_telemetry\<close>: attempt \<open>n\<close> succeeds when \<open>ok n\<close>; the answer is whether it returned (and
  touched the heartbeat) or raised, with the pauses taken in tenths of a second.
\<close>

fun post_attempts :: "(nat \<Rightarrow> bool) \<Rightarrow> nat \<Rightarrow> nat \<Rightarrow> bool \<times> nat list" where
  "post_attempts ok 0 attempt = (False, [])"
| "post_attempts ok (Suc n) attempt =
     (if ok attempt then (True, [])
      else if attempt = 2 then (False, [])
      else (case post_attempts ok n (attempt + 1) of (r, ps) \<Rightarrow> (r, (5 * 2 ^ attempt) # ps)))"

definition post_telemetry :: "(nat \<Rightarrow> bool) \<Rightarrow> bool \<times> nat list" where
  "post_telemetry ok = post_attempts ok 3 0"

lemma post_telemetry_cases:
  "post_telemetry ok =
     (if ok 0 then (True, []) else if ok 1 then (True, [5]) else if ok 2 then (True, [5, 10]) else (False, [5, 10]))"
  by (simp add: post_telemetry_def numeral_3_eq_3) (simp add: numeral_2_eq_2)

section \<open>Watching for viewers\<close>

definition IDLE_AFTER_CONSECUTIVE_ZERO_POLLS :: nat where
  "IDLE_AFTER_CONSECUTIVE_ZERO_POLLS = 4"

text \<open>The flag and the run of zero polls; a poll that fails in any way answers \<open>None\<close>.\<close>

definition viewer_poll :: "int option \<Rightarrow> bool \<times> nat \<Rightarrow> bool \<times> nat" where
  "viewer_poll answer st =
     (case (answer, st) of
        (None, st) \<Rightarrow> st
      | (Some viewers, (active, consecutive_zero)) \<Rightarrow>
          if viewers > 0 then (True, 0)
          else (if active \<and> consecutive_zero + 1 \<ge> IDLE_AFTER_CONSECUTIVE_ZERO_POLLS then False else active,
                consecutive_zero + 1))"

definition viewer_watch :: "int option list \<Rightarrow> bool \<times> nat" where
  "viewer_watch answers = fold viewer_poll answers (True, 0)"

text \<open>How many of the polls that answered, counted from the latest back, saw nobody.\<close>

definition silent_polls :: "int option list \<Rightarrow> nat" where
  "silent_polls answers = length (takeWhile (\<lambda>n. n \<le> 0) (rev (List.map_filter (\<lambda>a. a) answers)))"

lemma map_filter_snoc: "List.map_filter f (xs @ [x]) = List.map_filter f xs @ (case f x of None \<Rightarrow> [] | Some y \<Rightarrow> [y])"
  by (simp add: map_filter_def split: option.splits)

text \<open>
  The fleet goes quiet exactly when it should. After any sequence of polls, the fleet reports
  unless the last four or more polls that got an answer all saw nobody; polls that failed do
  not count either way, and a single poll that sees a viewer wakes it at once.
\<close>

theorem viewer_watch_exact:
  "fst (viewer_watch answers) \<longleftrightarrow> silent_polls answers < 4"
proof -
  have "fst (viewer_watch answers) = (silent_polls answers < 4) \<and> snd (viewer_watch answers) = silent_polls answers"
  proof (induction answers rule: rev_induct)
    case Nil
    show ?case by (simp add: viewer_watch_def silent_polls_def map_filter_def)
  next
    case (snoc a answers)
    obtain active z where st: "viewer_watch answers = (active, z)" by fastforce
    with snoc have ih: "active = (z < 4)" "silent_polls answers = z" by auto
    have step: "viewer_watch (answers @ [a]) = viewer_poll a (active, z)" using st by (simp add: viewer_watch_def)
    show ?case
    proof (cases a)
      case None
      then show ?thesis using ih step by (simp add: viewer_poll_def silent_polls_def map_filter_snoc)
    next
      case (Some n)
      then have "silent_polls (answers @ [a]) = (if n \<le> 0 then Suc z else 0)"
        using ih(2) by (simp add: silent_polls_def map_filter_snoc)
      then show ?thesis using ih(1) step Some
        by (auto simp: viewer_poll_def IDLE_AFTER_CONSECUTIVE_ZERO_POLLS_def)
    qed
  qed
  then show ?thesis by simp
qed

section \<open>The batcher\<close>

definition MAX_BATCH :: nat where
  "MAX_BATCH = 50"

definition MAX_WAIT_S :: real where
  "MAX_WAIT_S = 1"

record batcher =
  bt_batch :: "telemetry_create list"
  bt_deadline :: "real option"
  bt_posted :: "telemetry_create list list"

definition new_batcher :: batcher where
  "new_batcher = \<lparr>bt_batch = [], bt_deadline = None, bt_posted = []\<rparr>"

text \<open>A flush posts the batch and clears it, whether the post returned or raised.\<close>

definition batch_flush :: "batcher \<Rightarrow> batcher" where
  "batch_flush b = b\<lparr>bt_batch := [], bt_deadline := None, bt_posted := bt_posted b @ [bt_batch b]\<rparr>"

definition batch_timeout :: "real \<Rightarrow> batcher \<Rightarrow> real" where
  "batch_timeout now b = (case bt_deadline b of None \<Rightarrow> MAX_WAIT_S | Some d \<Rightarrow> max 0 (d - now))"

definition batch_got :: "telemetry_create \<Rightarrow> real \<Rightarrow> batcher \<Rightarrow> batcher" where
  "batch_got payload now b0 =
     (let b1 = b0\<lparr>bt_batch := bt_batch b0 @ [payload]\<rparr>;
          b = (if bt_deadline b1 = None then b1\<lparr>bt_deadline := Some (now + MAX_WAIT_S)\<rparr> else b1)
      in if length (bt_batch b) \<ge> MAX_BATCH then batch_flush b else b)"

definition batch_expired :: "batcher \<Rightarrow> batcher" where
  "batch_expired b = (if bt_batch b \<noteq> [] then batch_flush b else b)"

text \<open>
  One turn waits from \<open>now\<close> for at most \<open>batch_timeout\<close>: it ends at \<open>now'\<close> with a reading, or with
  none once that time is up.
\<close>

datatype batch_event = Got real telemetry_create | Expired real

definition batch_turn :: "real \<Rightarrow> batch_event \<Rightarrow> batcher \<Rightarrow> batcher" where
  "batch_turn now ev b = (case ev of Got now' payload \<Rightarrow> batch_got payload now' b | Expired now' \<Rightarrow> batch_expired b)"

fun batch_run :: "real \<Rightarrow> batch_event list \<Rightarrow> batcher \<Rightarrow> batcher \<times> real" where
  "batch_run now [] b = (b, now)"
| "batch_run now (ev # evs) b =
     batch_run (case ev of Got now' _ \<Rightarrow> now' | Expired now' \<Rightarrow> now') evs (batch_turn now ev b)"

fun received :: "batch_event list \<Rightarrow> telemetry_create list" where
  "received [] = []"
| "received (Got _ p # evs) = p # received evs"
| "received (Expired _ # evs) = received evs"

definition batcher_inv :: "batcher \<Rightarrow> bool" where
  "batcher_inv b \<longleftrightarrow>
     length (bt_batch b) < MAX_BATCH \<and> (bt_batch b = [] \<longleftrightarrow> bt_deadline b = None)
   \<and> list_all (\<lambda>xs. xs \<noteq> [] \<and> length xs \<le> MAX_BATCH) (bt_posted b)"

lemma batcher_inv_turn: "batcher_inv b \<Longrightarrow> batcher_inv (batch_turn now ev b)"
  by (auto simp: batcher_inv_def batch_turn_def batch_got_def batch_expired_def batch_flush_def MAX_BATCH_def Let_def
      split: batch_event.splits)

lemma batch_turn_contents:
  "concat (bt_posted (batch_turn now ev b)) @ bt_batch (batch_turn now ev b) = (concat (bt_posted b) @ bt_batch b) @ received [ev]"
  by (cases ev) (auto simp: batch_turn_def batch_got_def batch_expired_def batch_flush_def Let_def)

lemma received_Cons: "received (ev # evs) = received [ev] @ received evs"
  by (cases ev) simp_all

lemma batch_run_laws:
  "batcher_inv b \<Longrightarrow> batch_run now evs b = (b', t) \<Longrightarrow>
   batcher_inv b' \<and> concat (bt_posted b') @ bt_batch b' = (concat (bt_posted b) @ bt_batch b) @ received evs"
proof (induction evs arbitrary: now b)
  case (Cons ev evs)
  from Cons.IH [OF batcher_inv_turn [OF Cons.prems(1)]] Cons.prems(2)
  show ?case using batch_turn_contents [of now ev b] received_Cons [of ev evs] by (auto simp del: received.simps)
qed simp

text \<open>
  What the wait can answer: a reading within the timeout, or nothing exactly at its end. While
  nothing is held the turn may start later, after a post.
\<close>

definition event_legal :: "real \<Rightarrow> batch_event \<Rightarrow> batcher \<Rightarrow> bool" where
  "event_legal now ev b =
     (case ev of
        Got now' _ \<Rightarrow> now \<le> now' \<and> (bt_deadline b \<noteq> None \<longrightarrow> now' \<le> now + batch_timeout now b)
      | Expired now' \<Rightarrow> now \<le> now' \<and> (bt_deadline b \<noteq> None \<longrightarrow> now' = now + batch_timeout now b))"

fun legal_run :: "real \<Rightarrow> batch_event list \<Rightarrow> batcher \<Rightarrow> bool" where
  "legal_run now [] b = True"
| "legal_run now (ev # evs) b =
     (event_legal now ev b
      \<and> legal_run (case ev of Got now' _ \<Rightarrow> now' | Expired now' \<Rightarrow> now') evs (batch_turn now ev b))"

definition in_time :: "real \<Rightarrow> batcher \<Rightarrow> bool" where
  "in_time now b = (case bt_deadline b of None \<Rightarrow> True | Some d \<Rightarrow> now \<le> d \<and> d \<le> now + MAX_WAIT_S)"

lemma in_time_turn:
  assumes "batcher_inv b" "in_time now b" "event_legal now ev b"
  shows "in_time (case ev of Got now' _ \<Rightarrow> now' | Expired now' \<Rightarrow> now') (batch_turn now ev b)"
  using assms
  by (cases ev) (auto simp: batcher_inv_def in_time_def event_legal_def batch_timeout_def batch_turn_def batch_got_def batch_expired_def
      batch_flush_def Let_def MAX_WAIT_S_def split: option.splits)

lemma in_time_run:
  "batcher_inv b \<Longrightarrow> in_time now b \<Longrightarrow> legal_run now evs b \<Longrightarrow> batch_run now evs b = (b', t) \<Longrightarrow> in_time t b'"
proof (induction evs arbitrary: now b)
  case (Cons ev evs)
  then show ?case using in_time_turn [of b now ev] batcher_inv_turn [of b now ev] by simp
qed simp



section \<open>The hosted wrapper's health probe\<close>

text \<open>Answers the status code; \<open>mtime\<close> is \<open>None\<close> when the heartbeat file is missing.\<close>

definition wrapper_health :: "real \<Rightarrow> real \<Rightarrow> real option \<Rightarrow> int" where
  "wrapper_health start_time now mtime =
     (if now - start_time < 60 then 200
      else case mtime of None \<Rightarrow> 503 | Some t \<Rightarrow> if now - t > 90 then 503 else 200)"

text \<open>Once the grace period is over, a simulator that stopped touching its heartbeat is reported within 90 seconds.\<close>

lemma wrapper_health_detects:
  "wrapper_health start_time now mtime = 200 \<longleftrightarrow>
     now < start_time + 60 \<or> (\<exists>t. mtime = Some t \<and> now \<le> t + 90)"
  by (auto simp: wrapper_health_def split: option.splits)

end
