(* ===== verification/FleetCommandSystem.thy ===== *)
theory FleetCommandSystem
  imports FleetCommands
begin

text \<open>
  Concurrent requests on the command table. A system state is the table, the published
  messages and the requests in flight; a step starts a request or runs one request to its next
  await point, in any order and with any number of requests. The UPDATE of a handler and the
  COMMIT that follows it are one step: the row lock the database holds in between keeps every
  other writer of that row out, so the write takes effect at the commit.
\<close>

section \<open>Requests in flight\<close>

datatype task =
    CreateTask string instant int command_create "json_obj result option"
  | UpdateTask string command_status_update instant update_pc
  | ClaimTask int claim_pc "robot_command list"
  | ScanTask instant instant scan_pc

fun task_fresh :: "task \<Rightarrow> bool" where
  "task_fresh (CreateTask cid now rid cmd res) = (res = None)"
| "task_fresh (UpdateTask cid upd now pc) = (pc = UStart)"
| "task_fresh (ClaimTask rid pc claimed) = (pc = CSelect \<and> claimed = [])"
| "task_fresh (ScanTask now dbnow pc) = (pc = SStart)"

fun task_step ::
  "(robot_command list \<Rightarrow> robot_command list) \<Rightarrow> instant \<Rightarrow> task \<Rightarrow> cmd_db \<Rightarrow> task \<times> cmd_db" where
  "task_step scan clk (CreateTask cid now rid cmd (Some r)) db = (CreateTask cid now rid cmd (Some r), db)"
| "task_step scan clk (CreateTask cid now rid cmd None) db =
     (let (r, db') = create_command scan cid now rid cmd db in (CreateTask cid now rid cmd (Some r), db'))"
| "task_step scan clk (UpdateTask cid upd now pc) db =
     (let (pc', db') = update_step cid upd now pc db in (UpdateTask cid upd now pc', db'))"
| "task_step scan clk (ClaimTask rid pc claimed) db =
     (let (pc', claimed', db') = claim_step scan rid clk pc claimed db in (ClaimTask rid pc' claimed', db'))"
| "task_step scan clk (ScanTask now dbnow pc) db =
     (let (pc', db') = scan_step scan now dbnow pc db in (ScanTask now dbnow pc', db'))"

record cmd_sys =
  sys_db :: cmd_db
  sys_tasks :: "task list"

inductive sys_step :: "(robot_command list \<Rightarrow> robot_command list) \<Rightarrow> cmd_sys \<Rightarrow> cmd_sys \<Rightarrow> bool"
  for scan where
  spawn: "task_fresh \<tau> \<Longrightarrow> sys_step scan s (s\<lparr>sys_tasks := sys_tasks s @ [\<tau>]\<rparr>)"
| run: "i < length (sys_tasks s) \<Longrightarrow> task_step scan clk (sys_tasks s ! i) (sys_db s) = (\<tau>', db') \<Longrightarrow>
     sys_step scan s (s\<lparr>sys_db := db', sys_tasks := (sys_tasks s)[i := \<tau>']\<rparr>)"

inductive_cases sys_stepE: "sys_step scan s s'"

text \<open>A start: a well-formed table, and no request in flight.\<close>

definition sys_start :: "cmd_sys \<Rightarrow> bool" where
  "sys_start s \<longleftrightarrow> commands_wf (commands (sys_db s)) \<and> sys_tasks s = []"

inductive reachable :: "(robot_command list \<Rightarrow> robot_command list) \<Rightarrow> cmd_sys \<Rightarrow> bool" for scan where
  start: "sys_start s \<Longrightarrow> reachable scan s"
| step: "reachable scan s \<Longrightarrow> sys_step scan s s' \<Longrightarrow> reachable scan s'"

definition claimed_by :: "task \<Rightarrow> robot_command list" where
  "claimed_by \<tau> = (case \<tau> of ClaimTask rid pc claimed \<Rightarrow> claimed | _ \<Rightarrow> [])"

definition all_claimed :: "cmd_sys \<Rightarrow> robot_command list" where
  "all_claimed s = concat (map claimed_by (sys_tasks s))"

definition announcing :: "task \<Rightarrow> robot_command list" where
  "announcing \<tau> = (case \<tau> of ScanTask now dbnow (SAnnounce cmds) \<Rightarrow> cmds | _ \<Rightarrow> [])"

section \<open>What a request's step does to the table\<close>

fun task_ok :: "task \<Rightarrow> bool" where
  "task_ok (UpdateTask cid upd now pc) = update_pc_ok upd pc"
| "task_ok _ = True"

lemma task_fresh_ok: "task_fresh \<tau> \<Longrightarrow> task_ok \<tau>"
  by (cases \<tau>) (auto simp: update_pc_ok_def)

lemma task_step_ok: "task_step scan clk \<tau> db = (\<tau>', db') \<Longrightarrow> task_ok \<tau> \<Longrightarrow> task_ok \<tau>'"
proof (induction scan clk \<tau> db rule: task_step.induct)
  case (3 scan clk cid upd now pc db)
  then show ?case using update_step_pc_ok [of upd cid now pc db] by (auto split: prod.splits)
qed (auto split: prod.splits)

definition sys_writes :: "robot_command list \<Rightarrow> robot_command list \<Rightarrow> bool" where
  "sys_writes t t' \<longleftrightarrow>
     create_writes t t' \<or> update_writes t t' \<or> claim_writes t t' \<or> scan_writes t t' \<or> t' = t"

lemma task_step_writes:
  assumes "task_step scan clk \<tau> db = (\<tau>', db')" "task_ok \<tau>"
  shows "sys_writes (commands db) (commands db')"
  using assms
proof (induction scan clk \<tau> db rule: task_step.induct)
  case (2 scan clk cid now rid cmd db)
  then have "create_writes (commands db) (commands db')"
    unfolding create_writes_def by (auto split: prod.splits) (metis snd_conv)
  then show ?case by (simp add: sys_writes_def)
next
  case (3 scan clk cid upd now pc db)
  then have "update_writes (commands db) (commands db')"
    unfolding update_writes_def by (auto split: prod.splits) (metis snd_conv)
  then show ?case by (simp add: sys_writes_def)
next
  case (4 scan clk rid pc claimed db)
  then have "claim_writes (commands db) (commands db')"
    unfolding claim_writes_def by (auto split: prod.splits) (metis snd_conv)
  then show ?case by (simp add: sys_writes_def)
next
  case (5 scan clk now dbnow pc db)
  then have "scan_writes (commands db) (commands db')"
    unfolding scan_writes_def by (auto split: prod.splits) (metis snd_conv)
  then show ?case by (simp add: sys_writes_def)
qed (simp add: sys_writes_def)

interpretation system: status_writer sys_writes
  by unfold_locales
    (auto simp: sys_writes_def
      intro: creating.writes_evolves updating.writes_evolves claiming.writes_evolves
        expiring.writes_evolves creating.writes_wf updating.writes_wf claiming.writes_wf
        expiring.writes_wf)

lemma sys_step_writes:
  "sys_step scan s s' \<Longrightarrow> list_all task_ok (sys_tasks s) \<Longrightarrow>
   sys_writes (commands (sys_db s)) (commands (sys_db s')) \<and> list_all task_ok (sys_tasks s')"
proof (erule sys_stepE)
  fix \<tau> assume ok: "list_all task_ok (sys_tasks s)"
    and s': "s' = s\<lparr>sys_tasks := sys_tasks s @ [\<tau>]\<rparr>" and "task_fresh \<tau>"
  then show ?thesis by (simp add: sys_writes_def task_fresh_ok)
next
  fix i clk \<tau>' db'
  assume ok: "list_all task_ok (sys_tasks s)" and i: "i < length (sys_tasks s)"
    and st: "task_step scan clk (sys_tasks s ! i) (sys_db s) = (\<tau>', db')"
    and s': "s' = s\<lparr>sys_db := db', sys_tasks := (sys_tasks s)[i := \<tau>']\<rparr>"
  have "task_ok (sys_tasks s ! i)" using ok i by (simp add: list_all_length)
  then have "sys_writes (commands (sys_db s)) (commands db')" "task_ok \<tau>'"
    using task_step_writes [OF st] task_step_ok [OF st] by auto
  with ok s' show ?thesis by (auto simp: list_all_iff dest: set_update_subset_insert [THEN subsetD])
qed

lemma reachable_base:
  "reachable scan s \<Longrightarrow> commands_wf (commands (sys_db s)) \<and> list_all task_ok (sys_tasks s)"
proof (induction rule: reachable.induct)
  case (step s s')
  then show ?case using sys_step_writes [of scan s s'] by (auto intro: system.writes_wf)
qed (simp add: sys_start_def)

lemma reachable_run: "(sys_step scan)\<^sup>*\<^sup>* s s' \<Longrightarrow> reachable scan s \<Longrightarrow> reachable scan s'"
  by (induction rule: rtranclp_induct) (auto intro: reachable.step)

lemma sys_run_writes:
  "(sys_step scan)\<^sup>*\<^sup>* s s' \<Longrightarrow> reachable scan s \<Longrightarrow>
   sys_writes\<^sup>*\<^sup>* (commands (sys_db s)) (commands (sys_db s'))"
proof (induction rule: rtranclp_induct)
  case (step u v)
  then have "reachable scan u" by (blast intro: reachable_run)
  then have "sys_writes (commands (sys_db u)) (commands (sys_db v))"
    using step.hyps(2) reachable_base sys_step_writes by blast
  with step show ?case by (blast intro: rtranclp.rtrancl_into_rtrancl)
qed simp

lemma row_evolves_status:
  "row_evolves r r' \<Longrightarrow> valid_transition\<^sup>*\<^sup>* (rc_status r) (rc_status r')"
  by (induction rule: rtranclp_induct) (auto simp: row_step_def intro: rtranclp.rtrancl_into_rtrancl)

section \<open>At most one claim per command\<close>

lemma concat_map_update:
  "i < length ts \<Longrightarrow> f \<tau>' = f (ts ! i) @ xs \<Longrightarrow>
   mset (concat (map f (ts[i := \<tau>']))) = mset (concat (map f ts)) + mset xs"
proof -
  assume i: "i < length ts" and f: "f \<tau>' = f (ts ! i) @ xs"
  have "ts = take i ts @ ts ! i # drop (Suc i) ts"
    using i by (rule id_take_nth_drop)
  then have "mset (concat (map f ts)) =
      mset (concat (map f (take i ts @ ts ! i # drop (Suc i) ts)))" by simp
  moreover have "ts[i := \<tau>'] = take i ts @ \<tau>' # drop (Suc i) ts"
    using i by (rule upd_conv_take_nth_drop)
  ultimately show ?thesis using f by simp
qed

lemma try_dispatch_won:
  assumes "try_dispatch cid now t = (True, t')" "commands_wf t"
  shows "\<exists>r \<in> set t. rc_id r = cid \<and> rc_status r = ''PENDING'' \<and> mark_dispatched now r \<in> set t'"
proof -
  let ?p = "\<lambda>r. rc_id r = cid \<and> rc_status r = ''PENDING''"
  from assms(1) have t': "t' = update_where ?p (mark_dispatched now) t" and "rowcount ?p t > 0"
    by (auto simp: try_dispatch_def Let_def split: if_splits)
  then obtain r where "r \<in> set t" "?p r"
    using rowcount_0 [of ?p t] by auto
  with t' show ?thesis by (auto simp: table_simps)
qed

text \<open>Every claimed command is claimed once, and its row has left \<open>PENDING\<close>.\<close>

definition claims_ok :: "cmd_sys \<Rightarrow> bool" where
  "claims_ok s \<longleftrightarrow>
     distinct (map rc_id (all_claimed s)) \<and>
     (\<forall>c \<in> set (all_claimed s).
        \<exists>r \<in> set (commands (sys_db s)). rc_id r = rc_id c \<and> rc_status r \<noteq> ''PENDING'')"

lemma table_evolves_claimed:
  assumes "table_evolves t t'" "\<exists>r \<in> set t. rc_id r = cid \<and> rc_status r \<noteq> ''PENDING''"
  shows "\<exists>r \<in> set t'. rc_id r = cid \<and> rc_status r \<noteq> ''PENDING''"
proof -
  from assms(2) obtain r where r: "r \<in> set t" "rc_id r = cid" "rc_status r \<noteq> ''PENDING''" by blast
  then obtain r' where r': "r' \<in> set t'" "row_evolves r r'"
    using assms(1) table_evolves_mem by blast
  then have "rc_id r' = cid"
    using r row_evolves_fixed [of r r'] by (simp add: fixed_columns_def)
  with r r' show ?thesis using row_evolves_not_pending by blast
qed

lemma task_step_claimed:
  assumes "task_step scan clk \<tau> db = (\<tau>', db')" "commands_wf (commands db)"
  shows "claimed_by \<tau>' = claimed_by \<tau> \<or>
    (\<exists>c. claimed_by \<tau>' = claimed_by \<tau> @ [c] \<and>
       (\<exists>r \<in> set (commands db). rc_id r = rc_id c \<and> rc_status r = ''PENDING'') \<and>
       (\<exists>r \<in> set (commands db'). rc_id r = rc_id c \<and> rc_status r \<noteq> ''PENDING''))"
  using assms
proof (induction scan clk \<tau> db rule: task_step.induct)
  case (4 scan clk rid pc claimed db)
  show ?case
  proof (cases pc)
    case (CTry c)
    obtain won t where d: "try_dispatch (rc_id c) clk (commands db) = (won, t)"
      by (cases "try_dispatch (rc_id c) clk (commands db)")
    show ?thesis
    proof (cases won)
      case False
      with 4 CTry d show ?thesis by (auto simp: claimed_by_def)
    next
      case True
      with d 4(2) obtain r where "r \<in> set (commands db)" "rc_id r = rc_id c"
        "rc_status r = ''PENDING''" "mark_dispatched clk r \<in> set t"
        using try_dispatch_won [of "rc_id c" clk "commands db" t] by auto
      moreover have "rc_id (mark_dispatched clk r) = rc_id r"
        "rc_status (mark_dispatched clk r) \<noteq> ''PENDING''"
        by (simp_all add: mark_dispatched_def)
      ultimately show ?thesis using 4(1) CTry d True
        by (auto simp: claimed_by_def)
    qed
  qed (use 4 in \<open>auto simp: claimed_by_def split: option.splits\<close>)
qed (auto simp: claimed_by_def split: prod.splits)

lemma claims_ok_step:
  assumes st: "sys_step scan s s'" and re: "reachable scan s" and cl: "claims_ok s"
  shows "claims_ok s'"
  using st
proof (cases rule: sys_stepE [consumes 1])
  case (1 \<tau>)
  then have "claimed_by \<tau> = []" by (cases \<tau>) (auto simp: claimed_by_def)
  with 1 cl show ?thesis by (simp add: claims_ok_def all_claimed_def)
next
  case (2 i clk \<tau>' db')
  let ?t = "commands (sys_db s)" and ?ts = "sys_tasks s"
  have wf: "commands_wf ?t" and ok: "list_all task_ok ?ts"
    using re reachable_base by auto
  have ev: "table_evolves ?t (commands db')"
    using system.writes_evolves [OF wf] task_step_writes [OF 2(3)] ok 2(2)
    by (simp add: list_all_length)
  have old: "\<exists>r \<in> set (commands db'). rc_id r = rc_id c \<and> rc_status r \<noteq> ''PENDING''"
    if "c \<in> set (all_claimed s)" for c
    using cl that table_evolves_claimed [OF ev] by (auto simp: claims_ok_def)
  show ?thesis
    using task_step_claimed [OF 2(3) wf]
  proof
    assume same: "claimed_by \<tau>' = claimed_by (?ts ! i)"
    then have "map claimed_by (?ts[i := \<tau>']) = map claimed_by ?ts"
      by (simp add: map_update 2(2) list_update_same_conv)
    with old cl 2(1) show ?thesis by (simp add: claims_ok_def all_claimed_def)
  next
    assume "\<exists>c. claimed_by \<tau>' = claimed_by (?ts ! i) @ [c] \<and>
       (\<exists>r \<in> set ?t. rc_id r = rc_id c \<and> rc_status r = ''PENDING'') \<and>
       (\<exists>r \<in> set (commands db'). rc_id r = rc_id c \<and> rc_status r \<noteq> ''PENDING'')"
    then obtain c r where c: "claimed_by \<tau>' = claimed_by (?ts ! i) @ [c]"
      and r: "r \<in> set ?t" "rc_id r = rc_id c" "rc_status r = ''PENDING''"
      and new: "\<exists>r \<in> set (commands db'). rc_id r = rc_id c \<and> rc_status r \<noteq> ''PENDING''"
      by blast
    have ms: "mset (all_claimed s') = add_mset c (mset (all_claimed s))"
      using concat_map_update [OF 2(2) c] 2(1) by (simp add: all_claimed_def)
    have "rc_id c \<notin> rc_id ` set (all_claimed s)"
    proof
      assume "rc_id c \<in> rc_id ` set (all_claimed s)"
      then obtain q where "q \<in> set ?t" "rc_id q = rc_id c" "rc_status q \<noteq> ''PENDING''"
        using cl by (fastforce simp: claims_ok_def)
      with r wf show False by (metis commands_wf_id_unique)
    qed
    moreover have "mset (map rc_id (all_claimed s')) = mset (map rc_id (c # all_claimed s))"
      using ms by simp
    ultimately have "distinct (map rc_id (all_claimed s'))"
      using cl by (metis claims_ok_def distinct.simps(2) image_set list.simps(9) mset_eq_imp_distinct_iff)
    moreover have "set (all_claimed s') = insert c (set (all_claimed s))"
      using ms by (metis set_mset_add_mset_insert set_mset_mset)
    ultimately show ?thesis using old new 2(1) by (auto simp: claims_ok_def)
  qed
qed

lemma reachable_claims_ok: "reachable scan s \<Longrightarrow> claims_ok s"
proof (induction rule: reachable.induct)
  case (start s)
  then show ?case by (simp add: claims_ok_def sys_start_def all_claimed_def)
next
  case (step s s')
  then show ?case by (blast intro: claims_ok_step)
qed

section \<open>Announced timeouts have happened\<close>

definition timed_out_row :: "robot_command list \<Rightarrow> string \<Rightarrow> bool" where
  "timed_out_row t cid \<longleftrightarrow> (\<exists>r \<in> set t. rc_id r = cid \<and> rc_status r = ''TIMEOUT'')"

lemma timed_out_row_evolves:
  "table_evolves t t' \<Longrightarrow> timed_out_row t cid \<Longrightarrow> timed_out_row t' cid"
  unfolding timed_out_row_def
proof -
  assume ev: "table_evolves t t'" and "\<exists>r \<in> set t. rc_id r = cid \<and> rc_status r = ''TIMEOUT''"
  then obtain r where r: "r \<in> set t" "rc_id r = cid" "rc_status r = ''TIMEOUT''" by blast
  with ev obtain r' where r': "r' \<in> set t'" "row_evolves r r'" using table_evolves_mem by blast
  then have "r' = r" using r by (auto intro: row_evolves_terminal simp: terminal_iff)
  with r r' show "\<exists>r \<in> set t'. rc_id r = cid \<and> rc_status r = ''TIMEOUT''" by blast
qed

lemma timeout_updates_announced:
  "timeout_updates dbnow cmds out t = Inr (out', t') \<Longrightarrow> commands_wf t \<Longrightarrow>
   \<forall>c \<in> set out. timed_out_row t (rc_id c) \<Longrightarrow> \<forall>c \<in> set out'. timed_out_row t' (rc_id c)"
proof (induction cmds arbitrary: out t)
  case (Cons cmd cmds)
  let ?p = "\<lambda>r. rc_id r = rc_id cmd \<and> \<not> terminal (rc_status r)"
  from Cons.prems(1) obtain u n where u: "exec_update ?p (timeout_values dbnow cmd) t = Inr (u, n)"
    by (auto split: sum.splits)
  then have one: "timeout_updates dbnow [cmd] [] t = Inr (if n = 0 then [] else [cmd], u)" by simp
  have ev: "table_evolves t u \<and> length u = length t"
    using timeout_updates_evolves [OF one Cons.prems(2)] .
  then have wf: "commands_wf u" using Cons.prems(2) commands_wf_evolves_same_length by blast
  have old: "\<forall>c \<in> set out. timed_out_row u (rc_id c)"
    using Cons.prems(3) ev by (blast intro: timed_out_row_evolves)
  have new: "timed_out_row u (rc_id cmd)" if "n \<noteq> 0"
  proof -
    from u that have "u = update_where ?p (timeout_values dbnow cmd) t" "rowcount ?p t \<noteq> 0"
      by (auto simp: exec_update_def split: if_splits)
    moreover from this obtain r where "r \<in> set t" "?p r" by (auto simp: table_simps)
    ultimately have "timeout_values dbnow cmd r \<in> set u" "rc_id (timeout_values dbnow cmd r) = rc_id cmd"
      by (auto simp: table_simps timeout_values_def)
    then show ?thesis unfolding timed_out_row_def using timeout_values_status by blast
  qed
  show ?case
  proof (cases "n = 0")
    case True
    with Cons.prems(1) u have "timeout_updates dbnow cmds out u = Inr (out', t')" by simp
    from Cons.IH [OF this wf old] show ?thesis .
  next
    case False
    with Cons.prems(1) u have "timeout_updates dbnow cmds (out @ [cmd]) u = Inr (out', t')" by simp
    from Cons.IH [OF this wf] old new False show ?thesis by simp
  qed
qed simp

lemma task_step_announcing:
  "task_step scan clk \<tau> db = (\<tau>', db') \<Longrightarrow> commands_wf (commands db) \<Longrightarrow>
   c \<in> set (announcing \<tau>') \<Longrightarrow> c \<in> set (announcing \<tau>) \<or> timed_out_row (commands db') (rc_id c)"
proof (induction scan clk \<tau> db rule: task_step.induct)
  case (5 scan clk now dbnow pc db)
  show ?case
  proof (cases pc)
    case (SSelected cmds)
    with 5 show ?thesis
      using timeout_updates_announced [of dbnow cmds "[]" "commands db"]
      by (auto simp: announcing_def split: sum.splits if_splits)
  qed (use 5 in \<open>auto simp: announcing_def split: list.splits\<close>)
qed (auto simp: announcing_def split: prod.splits)

lemma reachable_announcing:
  "reachable scan s \<Longrightarrow> \<tau> \<in> set (sys_tasks s) \<Longrightarrow> c \<in> set (announcing \<tau>) \<Longrightarrow>
   timed_out_row (commands (sys_db s)) (rc_id c)"
proof (induction arbitrary: \<tau> c rule: reachable.induct)
  case (start s)
  then show ?case by (simp add: sys_start_def)
next
  case (step s s')
  from step.hyps(2) show ?case
  proof (cases rule: sys_stepE [consumes 1])
    case (1 \<sigma>)
    then have "announcing \<sigma> = []" by (cases \<sigma>) (auto simp: announcing_def)
    with step 1 show ?thesis by auto
  next
    case (2 i clk \<tau>' db')
    have wf: "commands_wf (commands (sys_db s))" and ok: "list_all task_ok (sys_tasks s)"
      using step.hyps(1) reachable_base by auto
    have ev: "table_evolves (commands (sys_db s)) (commands db')"
      using system.writes_evolves [OF wf] task_step_writes [OF 2(3)] ok 2(2)
      by (simp add: list_all_length)
    from step.prems(1) 2(1) have "\<tau> = \<tau>' \<or> \<tau> \<in> set (sys_tasks s)"
      by (auto dest: set_update_subset_insert [THEN subsetD])
    then have "timed_out_row (commands db') (rc_id c)"
    proof
      assume "\<tau> = \<tau>'"
      with task_step_announcing [OF 2(3) wf] step.prems(2) step.IH [OF nth_mem [OF 2(2)]] ev
      show ?thesis by (blast intro: timed_out_row_evolves)
    next
      assume "\<tau> \<in> set (sys_tasks s)"
      with step ev show ?thesis by (blast intro: timed_out_row_evolves)
    qed
    with 2(1) show ?thesis by simp
  qed
qed

section \<open>Properties\<close>

definition sample_sys :: "string \<Rightarrow> cmd_sys" where
  "sample_sys st = \<lparr>sys_db = sample_db st, sys_tasks = []\<rparr>"

lemma sample_reachable: "known_status st \<Longrightarrow> length st \<le> 32 \<Longrightarrow> reachable scan (sample_sys st)"
  by (rule reachable.start) (simp add: sys_start_def sample_sys_def sample_wf)

text \<open>Two pollers claim at the same time: both select the command, then both try to take it.\<close>

definition race_tasks :: "task list" where
  "race_tasks = [ClaimTask 7 (CTry (sample_command ''PENDING'')) [],
                 ClaimTask 7 (CTry (sample_command ''PENDING'')) []]"

definition race_won :: cmd_sys where
  "race_won =
     \<lparr>sys_db = publish telemetry_stream (dispatch_message 7 5 (sample_command ''PENDING''))
                 (\<lparr>commands = [mark_dispatched 5 (sample_command ''PENDING'')], outbox = []\<rparr>),
      sys_tasks = [ClaimTask 7 CSelect [sample_command ''PENDING''],
                   ClaimTask 7 (CTry (sample_command ''PENDING'')) []]\<rparr>"

lemma sample_select: "get_next_pending (\<lambda>t. t) 7 [sample_command ''PENDING''] = Some (sample_command ''PENDING'')"
  by (simp add: get_next_pending_def pending_for_def sample_command_def)

lemma sample_dispatch:
  "try_dispatch ''c1'' 5 [sample_command ''PENDING''] = (True, [mark_dispatched 5 (sample_command ''PENDING'')])"
  by (simp add: try_dispatch_def sample_command_def rowcount_def update_where_def)

lemma race_run: "(sys_step (\<lambda>t. t))\<^sup>*\<^sup>* (sample_sys ''PENDING'') race_won"
proof -
  let ?S = "sys_step (\<lambda>t. t)" and ?n = "ClaimTask 7 CSelect []"
  let ?c = "ClaimTask 7 (CTry (sample_command ''PENDING'')) []"
  let ?s = "\<lambda>ts. \<lparr>sys_db = sample_db ''PENDING'', sys_tasks = ts\<rparr>"
  have sel: "task_step (\<lambda>t. t) 5 ?n (sample_db ''PENDING'') = (?c, sample_db ''PENDING'')"
    using sample_select by (simp add: sample_db_def)
  have "?S (?s []) (?s [?n])" using sys_step.spawn [of ?n "\<lambda>t. t" "?s []"] by simp
  moreover have "?S (?s [?n]) (?s [?n, ?n])" using sys_step.spawn [of ?n "\<lambda>t. t" "?s [?n]"] by simp
  moreover have "?S (?s [?n, ?n]) (?s [?c, ?n])"
    using sys_step.run [of 0 "?s [?n, ?n]" "\<lambda>t. t" 5] sel by simp
  moreover have "?S (?s [?c, ?n]) (?s [?c, ?c])"
    using sys_step.run [of 1 "?s [?c, ?n]" "\<lambda>t. t" 5] sel by simp
  moreover have "rc_id (sample_command ''PENDING'') = ''c1''" by (simp add: sample_command_def)
  then have "?S (?s [?c, ?c]) race_won"
    using sys_step.run [of 0 "?s [?c, ?c]" "\<lambda>t. t" 5] sample_dispatch
    by (simp add: race_won_def sample_db_def)
  ultimately show ?thesis
    unfolding sample_sys_def by (meson converse_rtranclp_into_rtranclp rtranclp.rtrancl_refl)
qed



text \<open>
  C4: once a command is COMPLETED, FAILED, CANCELLED or TIMEOUT, no interleaving of requests
  changes any column of its row again: a completion is never overwritten by a timeout scan
  that had already selected the command.
\<close>

theorem terminal_row_frozen:
  assumes "reachable scan s" "(sys_step scan)\<^sup>*\<^sup>* s s'" "i < length (commands (sys_db s))"
    and "terminal (rc_status (commands (sys_db s) ! i))"
  shows "commands (sys_db s') ! i = commands (sys_db s) ! i"
  using system.run_terminal_frozen [OF sys_run_writes [OF assms(2,1)] _ assms(3,4)]
    reachable_base [OF assms(1)] by blast

theorem terminal_row_frozen_witness:
  "\<exists>s'. sys_step (\<lambda>t. t) (sample_sys ''COMPLETED'') s' \<and>
     commands (sys_db s') ! 0 = sample_command ''COMPLETED''"
proof -
  let ?s' = "(sample_sys ''COMPLETED'')\<lparr>sys_tasks := sys_tasks (sample_sys ''COMPLETED'') @ [ScanTask 1 1 SStart]\<rparr>"
  have st: "sys_step (\<lambda>t. t) (sample_sys ''COMPLETED'') ?s'" by (rule sys_step.spawn) simp
  have re: "reachable (\<lambda>t. t) (sample_sys ''COMPLETED'')"
    by (rule sample_reachable) (simp_all add: known_status_def terminal_iff)
  have "commands (sys_db ?s') ! 0 = commands (sys_db (sample_sys ''COMPLETED'')) ! 0"
    by (rule terminal_row_frozen [OF re r_into_rtranclp, OF st])
      (simp_all add: sample_sys_def sample_db_def sample_command_def terminal_iff)
  with st show ?thesis by (auto simp: sample_sys_def sample_db_def)
qed

text \<open>
  C3: no command is handed out twice. Over all claim requests that ever ran, concurrently or
  one after the other, the claimed commands have distinct identifiers.
\<close>

theorem claimed_at_most_once:
  assumes "reachable scan s"
  shows "distinct (map rc_id (concat (map claimed_by (sys_tasks s))))"
  using reachable_claims_ok [OF assms] by (simp add: claims_ok_def all_claimed_def)

theorem claimed_at_most_once_witness:
  "reachable (\<lambda>t. t) race_won \<and> distinct (map rc_id (concat (map claimed_by (sys_tasks race_won))))"
proof -
  have "reachable (\<lambda>t. t) (sample_sys ''PENDING'')" by (rule sample_reachable) simp_all
  then have "reachable (\<lambda>t. t) race_won" by (rule reachable_run [OF race_run])
  then show ?thesis using claimed_at_most_once by blast
qed

text \<open>
  C5: a timeout is announced only after it is durable. Whenever a scan still has messages to
  send, each command it is about to announce is stored as TIMEOUT, whatever other requests did.
\<close>

theorem announced_timeout_is_stored:
  assumes "reachable scan s" "ScanTask now dbnow (SAnnounce cmds) \<in> set (sys_tasks s)" "c \<in> set cmds"
  shows "\<exists>r. find_command (rc_id c) (commands (sys_db s)) = Some r \<and> rc_status r = ''TIMEOUT''"
proof -
  have "timed_out_row (commands (sys_db s)) (rc_id c)"
    using reachable_announcing [OF assms(1,2)] assms(3) by (simp add: announcing_def)
  then obtain r where "r \<in> set (commands (sys_db s))" "rc_id r = rc_id c" "rc_status r = ''TIMEOUT''"
    by (auto simp: timed_out_row_def)
  with find_command_wf reachable_base [OF assms(1)] show ?thesis by fastforce
qed

theorem announced_timeout_is_stored_witness:
  "\<exists>s r. reachable (\<lambda>t. t) s \<and> sys_tasks s = [ScanTask 40000000 41000000 (SAnnounce [sample_command ''EXECUTING''])] \<and>
     find_command ''c1'' (commands (sys_db s)) = Some r \<and> rc_status r = ''TIMEOUT''"
proof -
  let ?S = "sys_step (\<lambda>t. t)" and ?x = "sample_command ''EXECUTING''"
  let ?T = "\<lambda>pc. [ScanTask 40000000 41000000 pc]"
  let ?s = "\<lambda>ts. \<lparr>sys_db = sample_db ''EXECUTING'', sys_tasks = ts\<rparr>"
  let ?e = "\<lparr>sys_db = \<lparr>commands = [timeout_values 41000000 ?x ?x], outbox = []\<rparr>, sys_tasks = ?T (SAnnounce [?x])\<rparr>"
  have re: "reachable (\<lambda>t. t) (?s [])"
    using sample_reachable [of "''EXECUTING''" "\<lambda>t. t"]
    by (simp add: sample_sys_def known_status_def VALID_TRANSITIONS_def)
  have wf: "commands_wf [?x]"
    using sample_wf [of "''EXECUTING''"] by (simp add: sample_db_def known_status_def VALID_TRANSITIONS_def)
  have nt: "\<not> terminal (rc_status ?x)" and ex: "expired 40000000 ?x"
    by (simp_all add: sample_command_def terminal_iff expired_def)
  have "timeout_updates 41000000 [?x] [] [?x] = Inr ([?x], [timeout_values 41000000 ?x ?x])"
    using timeout_updates_all [OF wf, of "[?x]"] nt by simp
  then have 3: "?S (?s (?T (SSelected [?x]))) ?e"
    using sys_step.run [of 0 "?s (?T (SSelected [?x]))" "\<lambda>t. t" 0] by (simp add: sample_db_def)
  have 1: "?S (?s []) (?s (?T SStart))"
    using sys_step.spawn [of "ScanTask 40000000 41000000 SStart" "\<lambda>t. t" "?s []"] by simp
  have 2: "?S (?s (?T SStart)) (?s (?T (SSelected [?x])))"
    using sys_step.run [of 0 "?s (?T SStart)" "\<lambda>t. t" 0] ex by (simp add: sample_db_def)
  have r: "reachable (\<lambda>t. t) ?e"
    using reachable.step [OF reachable.step [OF reachable.step [OF re 1] 2] 3] .
  then have "\<exists>r. find_command (rc_id ?x) (commands (sys_db ?e)) = Some r \<and> rc_status r = ''TIMEOUT''"
    by (rule announced_timeout_is_stored [where now = 40000000 and dbnow = 41000000 and cmds = "[?x]"]) simp_all
  moreover have "rc_id ?x = ''c1''" by (simp add: sample_command_def)
  moreover have "sys_tasks ?e = ?T (SAnnounce [?x])" by simp
  ultimately show ?thesis using r by metis
qed

end
