(* ===== verification/FleetStatus.thy ===== *)
theory FleetStatus
  imports FleetTelemetry
begin

text \<open>
  Fleet status: the recent readings per robot (\<open>telemetry_repo.get_recent_per_robot\<close>), the summary
  of one robot and the fleet list (\<open>services/robot_service.py\<close>), the Redis read-through cache
  (\<open>cache.py\<close>) and the guarded route (\<open>routes/robots.py\<close>). The database clock and the
  application clock are separate arguments. Row orders the statements leave open are the
  parameters \<open>scan\<close> and \<open>scan2\<close>; the cache server is a parameter with the promises \<open>kv_ok\<close>.
\<close>

section \<open>Recent readings per robot\<close>

definition minutes :: "int \<Rightarrow> int" where
  "minutes n = seconds (60 * n)"

definition in_window :: "instant \<Rightarrow> int \<Rightarrow> telemetry_row \<Rightarrow> bool" where
  "in_window dbnow window_minutes r = (t_timestamp r > dbnow - minutes window_minutes)"

text \<open>
  The rows of one robot in the window, the newest \<open>n\<close> of them by ROW\_NUMBER, oldest first. Ties
  may be broken differently by the window function and by the final ORDER BY.
\<close>

definition newest_rows ::
  "(telemetry_row list \<Rightarrow> telemetry_row list) \<Rightarrow> (telemetry_row list \<Rightarrow> telemetry_row list) \<Rightarrow> nat
   \<Rightarrow> telemetry_row list \<Rightarrow> telemetry_row list"
where
  "newest_rows scan scan2 n rows = sort_key t_timestamp (scan2 (take n (rev (sort_key t_timestamp (scan rows)))))"

definition get_recent_per_robot ::
  "(telemetry_row list \<Rightarrow> telemetry_row list) \<Rightarrow> (telemetry_row list \<Rightarrow> telemetry_row list) \<Rightarrow> instant
   \<Rightarrow> int \<Rightarrow> int \<Rightarrow> telemetry_row list \<Rightarrow> (int \<times> telemetry_row list) list"
where
  "get_recent_per_robot scan scan2 dbnow per_robot_limit window_minutes t =
     (if per_robot_limit \<le> 0 then []
      else let rows = filter (in_window dbnow window_minutes) t
           in map (\<lambda>rid. (rid, newest_rows scan scan2 (nat per_robot_limit) (filter (\<lambda>r. t_robot_id r = rid) rows)))
                (sort (remdups (map t_robot_id rows))))"

section \<open>Summaries\<close>

record robot_status =
  rs_robot_id :: int
  rs_battery :: rat
  rs_temperature :: rat
  rs_speed :: rat
  rs_status :: string
  rs_mission_id :: "string option"
  rs_mission_type :: "string option"
  rs_mission_progress :: "rat option"
  rs_mission_start_time :: "instant option"
  rs_last_seen :: "instant option"
  rs_runtime_remaining_minutes :: "rat option"
  rs_x :: rat
  rs_y :: rat
  rs_battery_health :: rat
  rs_motor_health :: rat
  rs_sensor_health :: rat
  rs_network_health :: rat

abbreviation OFFLINE :: string where
  "OFFLINE \<equiv> ''OFFLINE''"

definition derive_status :: "settings \<Rightarrow> telemetry_row \<Rightarrow> int \<Rightarrow> string" where
  "derive_status cfg latest age =
     (if age > seconds (offline_after_seconds cfg) then OFFLINE
      else if truthy_str (t_status latest) then py_upper (the (t_status latest)) else ''ACTIVE'')"

definition health :: "rat option \<Rightarrow> rat" where
  "health v = (case v of Some h \<Rightarrow> py_round 2 h | None \<Rightarrow> 100)"

text \<open>\<open>latest.battery_health or 100.0\<close>: absent and zero alike give 100.\<close>

definition health_or_full :: "rat option \<Rightarrow> rat" where
  "health_or_full v = (case v of Some h \<Rightarrow> if h = 0 then 100 else h | None \<Rightarrow> 100)"

definition estimate_runtime_minutes :: "telemetry_row list \<Rightarrow> instant \<Rightarrow> rat option" where
  "estimate_runtime_minutes rows latest_ts =
     (if length rows < 2 then None
      else let oldest = hd rows; latest = last rows;
               span_minutes = of_int (latest_ts - t_timestamp oldest) / 1000000 / 60;
               drained = t_battery oldest - t_battery latest
           in if span_minutes \<le> 0 \<or> drained \<le> 0 then None
              else let drain_per_minute = drained / span_minutes;
                       effective_battery = t_battery latest * (health_or_full (t_battery_health latest) / 100)
                   in Some (py_round 1 (effective_battery / drain_per_minute)))"

definition round_or :: "nat \<Rightarrow> rat \<Rightarrow> rat option \<Rightarrow> rat" where
  "round_or n d v = (case v of Some x \<Rightarrow> py_round n x | None \<Rightarrow> d)"

definition summarize_robot_history :: "settings \<Rightarrow> instant \<Rightarrow> telemetry_row list \<Rightarrow> robot_status option" where
  "summarize_robot_history cfg now rows =
     (if rows = [] then None
      else let latest = last rows; ts = t_timestamp latest; age = now - ts
           in Some \<lparr>rs_robot_id = t_robot_id latest,
                    rs_battery = py_round 2 (t_battery latest),
                    rs_temperature = py_round 2 (t_temperature latest),
                    rs_speed = py_round 2 (t_speed latest),
                    rs_status = derive_status cfg latest age,
                    rs_mission_id = t_mission_id latest,
                    rs_mission_type = t_mission_type latest,
                    rs_mission_progress = map_option (py_round 1) (t_mission_progress latest),
                    rs_mission_start_time = t_mission_start_time latest,
                    rs_last_seen = Some ts,
                    rs_runtime_remaining_minutes = estimate_runtime_minutes rows ts,
                    rs_x = round_or 2 0 (t_x latest),
                    rs_y = round_or 2 0 (t_y latest),
                    rs_battery_health = health (t_battery_health latest),
                    rs_motor_health = health (t_motor_health latest),
                    rs_sensor_health = health (t_sensor_health latest),
                    rs_network_health = health (t_network_health latest)\<rparr>)"

definition summarize_silent_robot :: "robot \<Rightarrow> robot_status" where
  "summarize_silent_robot r =
     \<lparr>rs_robot_id = r_id r, rs_battery = 0, rs_temperature = 0, rs_speed = 0, rs_status = OFFLINE,
      rs_mission_id = None, rs_mission_type = None, rs_mission_progress = None, rs_mission_start_time = None,
      rs_last_seen = r_last_seen r, rs_runtime_remaining_minutes = None, rs_x = 0, rs_y = 0,
      rs_battery_health = 0, rs_motor_health = 0, rs_sensor_health = 0, rs_network_health = 0\<rparr>"

section \<open>The fleet list\<close>

definition registered_summary ::
  "settings \<Rightarrow> instant \<Rightarrow> (int \<times> telemetry_row list) list \<Rightarrow> robot \<Rightarrow> robot_status"
where
  "registered_summary cfg now grouped r =
     (case dict_get grouped (r_id r) of
        None \<Rightarrow> summarize_silent_robot r
      | Some rows \<Rightarrow> (case summarize_robot_history cfg now rows of
          None \<Rightarrow> summarize_silent_robot r | Some s \<Rightarrow> s))"

definition summaries_of ::
  "settings \<Rightarrow> instant \<Rightarrow> robot list \<Rightarrow> (int \<times> telemetry_row list) list \<Rightarrow> (int \<times> robot_status) list"
where
  "summaries_of cfg now registered grouped =
     (let d = fold (\<lambda>r. dict_set (r_id r) (registered_summary cfg now grouped r)) registered []
      in fold (\<lambda>(rid, rows) d.
           if dict_get d rid \<noteq> None then d
           else case summarize_robot_history cfg now rows of None \<Rightarrow> d | Some s \<Rightarrow> dict_set rid s d) grouped d)"

definition fleet_list ::
  "(telemetry_row list \<Rightarrow> telemetry_row list) \<Rightarrow> (telemetry_row list \<Rightarrow> telemetry_row list) \<Rightarrow> settings
   \<Rightarrow> instant \<Rightarrow> instant \<Rightarrow> tele_db \<Rightarrow> robot_status list"
where
  "fleet_list scan scan2 cfg dbnow now db =
     (let registered = list_active (robots db);
          grouped = get_recent_per_robot scan scan2 dbnow (fleet_history_per_robot cfg) (fleet_window_minutes cfg) (readings db);
          summaries = summaries_of cfg now registered grouped
      in map (\<lambda>rid. the (dict_get summaries rid)) (sort (map fst summaries)))"

section \<open>The cache\<close>

text \<open>
  A key-value server with expiry. \<open>kv_get\<close> answers \<open>None\<close> when the call raises; \<open>kv_setex\<close> answers
  the server's next state and whether the call returned. The stored text is the JSON of the
  value, read back as the same value.
\<close>

record ('c, 'v) kv =
  kv_get :: "'c \<Rightarrow> instant \<Rightarrow> string \<Rightarrow> 'v option option"
  kv_setex :: "'c \<Rightarrow> instant \<Rightarrow> string \<Rightarrow> int \<Rightarrow> 'v \<Rightarrow> 'c \<times> bool"

definition cache_get :: "('c, 'v) kv \<Rightarrow> 'c \<Rightarrow> instant \<Rightarrow> string \<Rightarrow> 'v option" where
  "cache_get srv c now key = (case kv_get srv c now key of None \<Rightarrow> None | Some v \<Rightarrow> v)"

definition cache_set :: "('c, 'v) kv \<Rightarrow> 'c \<Rightarrow> instant \<Rightarrow> string \<Rightarrow> 'v \<Rightarrow> rat \<Rightarrow> 'c" where
  "cache_set srv c now key v ttl_seconds =
     (case kv_setex srv c now key (floor ttl_seconds) v of (c', _) \<Rightarrow> c')"

definition status_key :: "nat \<Rightarrow> nat \<Rightarrow> string" where
  "status_key limit skip = ''fleet_status_summary_'' @ nat_str limit @ ''_'' @ nat_str skip"

definition status_json :: "robot_status \<Rightarrow> json_obj" where
  "status_json s =
     [(''robot_id'', JNum (of_int (rs_robot_id s))),
      (''battery'', JNum (rs_battery s)),
      (''temperature'', JNum (rs_temperature s)),
      (''speed'', JNum (rs_speed s)),
      (''status'', JStr (rs_status s)),
      (''mission_id'', opt_json JStr (rs_mission_id s)),
      (''mission_type'', opt_json JStr (rs_mission_type s)),
      (''mission_progress'', opt_json JNum (rs_mission_progress s)),
      (''mission_start_time'', to_iso (rs_mission_start_time s)),
      (''last_seen'', to_iso (rs_last_seen s)),
      (''runtime_remaining_minutes'', opt_json JNum (rs_runtime_remaining_minutes s)),
      (''x'', JNum (rs_x s)),
      (''y'', JNum (rs_y s)),
      (''battery_health'', JNum (rs_battery_health s)),
      (''motor_health'', JNum (rs_motor_health s)),
      (''sensor_health'', JNum (rs_sensor_health s)),
      (''network_health'', JNum (rs_network_health s))]"

definition fleet_page ::
  "(telemetry_row list \<Rightarrow> telemetry_row list) \<Rightarrow> (telemetry_row list \<Rightarrow> telemetry_row list) \<Rightarrow> settings
   \<Rightarrow> nat \<Rightarrow> nat \<Rightarrow> instant \<Rightarrow> instant \<Rightarrow> tele_db \<Rightarrow> json_obj list"
where
  "fleet_page scan scan2 cfg limit skip dbnow now db =
     py_slice skip (skip + limit) (map status_json (fleet_list scan scan2 cfg dbnow now db))"

definition get_fleet_status ::
  "(telemetry_row list \<Rightarrow> telemetry_row list) \<Rightarrow> (telemetry_row list \<Rightarrow> telemetry_row list) \<Rightarrow> settings
   \<Rightarrow> ('c, json_obj list) kv \<Rightarrow> nat \<Rightarrow> nat \<Rightarrow> instant \<Rightarrow> instant \<Rightarrow> tele_db \<Rightarrow> 'c \<Rightarrow> json_obj list \<times> 'c"
where
  "get_fleet_status scan scan2 cfg srv limit skip dbnow now db c =
     (let cache_key = status_key limit skip;
          cached = (if opt_read_cache cfg then cache_get srv c now cache_key else None)
      in case cached of
           Some v \<Rightarrow> (v, c)
         | None \<Rightarrow>
             (let paginated = fleet_page scan scan2 cfg limit skip dbnow now db
              in (paginated, if opt_read_cache cfg then cache_set srv c now cache_key paginated 10 else c)))"

text \<open>The route: FastAPI refuses \<open>limit\<close> outside 1 to 1000 and a negative \<open>skip\<close> with 422.\<close>

definition robot_status_route ::
  "(telemetry_row list \<Rightarrow> telemetry_row list) \<Rightarrow> (telemetry_row list \<Rightarrow> telemetry_row list) \<Rightarrow> settings
   \<Rightarrow> ('c, json_obj list) kv \<Rightarrow> string option \<Rightarrow> int \<Rightarrow> int \<Rightarrow> instant \<Rightarrow> instant \<Rightarrow> tele_db \<Rightarrow> 'c \<Rightarrow> json_obj list result \<times> 'c"
where
  "robot_status_route scan scan2 cfg srv x_api_key limit skip dbnow now db c =
     (case verify_read_access cfg x_api_key of
        Inl e \<Rightarrow> (Inl e, c)
      | Inr _ \<Rightarrow>
          if limit < 1 \<or> 1000 < limit \<or> skip < 0 then (Inl (HTTPException 422 ''Unprocessable Entity''), c)
          else (case get_fleet_status scan scan2 cfg srv (nat limit) (nat skip) dbnow now db c of (v, c') \<Rightarrow> (Inr v, c')))"

section \<open>Lemmas: the groups\<close>

lemma sort_key_Nil [simp]: "sort_key f xs = [] \<longleftrightarrow> xs = []"
  by (metis length_0_conv length_sort)

lemma last_sort_key:
  fixes f :: "'a \<Rightarrow> int"
  assumes "ys \<noteq> []"
  shows "last (sort_key f ys) \<in> set ys \<and> (\<forall>y \<in> set ys. f y \<le> f (last (sort_key f ys)))"
proof -
  let ?s = "sort_key f ys"
  have ne: "?s \<noteq> []" using assms by simp
  have "f y \<le> f (last ?s)" if "y \<in> set ys" for y
  proof -
    have "y \<in> set ?s" using that by simp
    then obtain i where "i < length ?s" "?s ! i = y" by (auto simp only: in_set_conv_nth)
    moreover have "map f ?s ! i \<le> map f ?s ! (length ?s - 1)"
      using calculation by (intro sorted_nth_mono sorted_sort_key) auto
    ultimately show ?thesis using ne by (simp add: last_conv_nth)
  qed
  moreover have "last ?s \<in> set ys" using last_in_set [OF ne] by simp
  ultimately show ?thesis by blast
qed

lemma newest_rows_last:
  assumes scans: "scan_ok scan" "scan_ok scan2" and n: "0 < n" and ne: "rows \<noteq> []"
  shows "newest_rows scan scan2 n rows \<noteq> [] \<and> set (newest_rows scan scan2 n rows) \<subseteq> set rows
    \<and> t_timestamp (last (newest_rows scan scan2 n rows)) = Max (t_timestamp ` set rows)"
proof -
  let ?s = "sort_key t_timestamp (scan rows)"
  let ?top = "take n (rev ?s)"
  have sne: "scan rows \<noteq> []" using scan_ok_length [OF scans(1), of rows] ne by auto
  have hd: "last ?s \<in> set ?top"
  proof -
    obtain k where k: "n = Suc k" using n by (cases n) auto
    obtain ys y where "?s = ys @ [y]" using sne by (cases ?s rule: rev_cases) auto
    with k show ?thesis by simp
  qed
  have sub: "set ?top \<subseteq> set rows"
    using set_take_subset [of n "rev ?s"] scan_ok_set [OF scans(1)] by simp
  have "scan2 ?top \<noteq> []"
    using hd scan_ok_set [OF scans(2), of ?top] by (cases "scan2 ?top") auto
  from last_sort_key [OF this, of t_timestamp] scan_ok_set [OF scans(2), of ?top]
  have l: "last (newest_rows scan scan2 n rows) \<in> set ?top"
    "\<forall>y \<in> set ?top. t_timestamp y \<le> t_timestamp (last (newest_rows scan scan2 n rows))"
    by (simp_all add: newest_rows_def)
  have "t_timestamp y \<le> t_timestamp (last (newest_rows scan scan2 n rows))" if "y \<in> set rows" for y
    using last_sort_key [OF sne, of t_timestamp] scan_ok_set [OF scans(1), of rows] that hd l(2) by fastforce
  then have "Max (t_timestamp ` set rows) = t_timestamp (last (newest_rows scan scan2 n rows))"
    using l(1) sub by (intro Max_eqI) auto
  moreover have "newest_rows scan scan2 n rows \<noteq> []"
    using \<open>scan2 ?top \<noteq> []\<close> by (simp add: newest_rows_def)
  moreover have "set (newest_rows scan scan2 n rows) \<subseteq> set rows"
    using sub scan_ok_set [OF scans(2), of ?top] by (simp add: newest_rows_def)
  ultimately show ?thesis by simp
qed

definition window_rows :: "instant \<Rightarrow> settings \<Rightarrow> tele_db \<Rightarrow> int \<Rightarrow> telemetry_row list" where
  "window_rows dbnow cfg db rid =
     filter (\<lambda>r. t_robot_id r = rid) (filter (in_window dbnow (fleet_window_minutes cfg)) (readings db))"

abbreviation groups ::
  "(telemetry_row list \<Rightarrow> telemetry_row list) \<Rightarrow> (telemetry_row list \<Rightarrow> telemetry_row list) \<Rightarrow> instant
   \<Rightarrow> settings \<Rightarrow> tele_db \<Rightarrow> (int \<times> telemetry_row list) list"
where
  "groups scan scan2 dbnow cfg db \<equiv>
     get_recent_per_robot scan scan2 dbnow (fleet_history_per_robot cfg) (fleet_window_minutes cfg) (readings db)"

lemma groups_keys:
  "distinct (map fst (groups scan scan2 dbnow cfg db))"
  by (simp add: get_recent_per_robot_def Let_def comp_def)

lemma map_of_map_pair: "map_of (map (\<lambda>k. (k, f k)) ks) x = (if x \<in> set ks then Some (f x) else None)"
  by (induction ks) auto

lemma groups_get:
  assumes "0 < fleet_history_per_robot cfg"
  shows "map_of (groups scan scan2 dbnow cfg db) rid =
    (if window_rows dbnow cfg db rid = [] then None
     else Some (newest_rows scan scan2 (nat (fleet_history_per_robot cfg)) (window_rows dbnow cfg db rid)))"
proof -
  let ?rows = "filter (in_window dbnow (fleet_window_minutes cfg)) (readings db)"
  have "rid \<in> t_robot_id ` set ?rows \<longleftrightarrow> window_rows dbnow cfg db rid \<noteq> []"
    by (auto simp: window_rows_def filter_empty_conv)
  with assms show ?thesis
    by (simp add: get_recent_per_robot_def Let_def map_of_map_pair window_rows_def del: filter_filter)
qed

section \<open>Lemmas: the dictionary of summaries\<close>

lemma fold_dict_set_get:
  "distinct (map r_id rs) \<Longrightarrow>
   map_of (fold (\<lambda>r. dict_set (r_id r) (g r)) rs d) rid =
     (case List.find (\<lambda>r. r_id r = rid) rs of Some r \<Rightarrow> Some (g r) | None \<Rightarrow> map_of d rid)"
proof (induction rs arbitrary: d)
  case (Cons a rs)
  have "List.find (\<lambda>r. r_id r = rid) rs = None" if "r_id a = rid"
  proof -
    have "rid \<notin> r_id ` set rs" using Cons.prems that by simp
    then show ?thesis by (auto simp: find_None_iff image_iff)
  qed
  with Cons show ?case by (auto split: option.splits)
qed simp

lemma fold_dict_set_distinct:
  "distinct (map fst d) \<Longrightarrow> distinct (map fst (fold (\<lambda>r. dict_set (r_id r) (g r)) rs d))"
  by (induction rs arbitrary: d) (simp_all add: distinct_dict_set)

definition add_unregistered :: "settings \<Rightarrow> instant \<Rightarrow> int \<times> telemetry_row list \<Rightarrow> (int \<times> robot_status) list \<Rightarrow> (int \<times> robot_status) list" where
  "add_unregistered cfg now = (\<lambda>(rid, rows) d.
     if dict_get d rid \<noteq> None then d
     else case summarize_robot_history cfg now rows of None \<Rightarrow> d | Some s \<Rightarrow> dict_set rid s d)"

lemma fold_unregistered_get:
  "distinct (map fst gs) \<Longrightarrow>
   map_of (fold (add_unregistered cfg now) gs d) rid =
     (case map_of d rid of Some s \<Rightarrow> Some s
      | None \<Rightarrow> Option.bind (map_of gs rid) (summarize_robot_history cfg now))"
proof (induction gs arbitrary: d)
  case Nil
  show ?case by (simp split: option.splits)
next
  case (Cons a gs)
  obtain k rows where a: "a = (k, rows)" by (cases a)
  have "map_of gs k = None" using Cons.prems a by (simp add: map_of_eq_None_iff)
  with Cons a show ?case
    by (cases "rid = k") (auto simp: add_unregistered_def split: option.splits)
qed

lemma fold_unregistered_distinct:
  "distinct (map fst d) \<Longrightarrow> distinct (map fst (fold (add_unregistered cfg now) gs d))"
proof (induction gs arbitrary: d)
  case (Cons a gs)
  have "distinct (map fst (add_unregistered cfg now a d))"
    using Cons.prems by (cases a) (auto simp: add_unregistered_def distinct_dict_set split: option.splits)
  with Cons.IH show ?case by simp
qed simp

lemma summaries_get:
  assumes "distinct (map r_id registered)" "distinct (map fst grouped)"
  shows "map_of (summaries_of cfg now registered grouped) rid =
    (case List.find (\<lambda>r. r_id r = rid) registered of
       Some r \<Rightarrow> Some (registered_summary cfg now grouped r)
     | None \<Rightarrow> Option.bind (map_of grouped rid) (summarize_robot_history cfg now))"
  and "distinct (map fst (summaries_of cfg now registered grouped))"
proof -
  have eq: "summaries_of cfg now registered grouped =
      fold (add_unregistered cfg now) grouped
        (fold (\<lambda>r. dict_set (r_id r) (registered_summary cfg now grouped r)) registered [])"
    by (simp add: summaries_of_def add_unregistered_def)
  show "map_of (summaries_of cfg now registered grouped) rid =
    (case List.find (\<lambda>r. r_id r = rid) registered of
       Some r \<Rightarrow> Some (registered_summary cfg now grouped r)
     | None \<Rightarrow> Option.bind (map_of grouped rid) (summarize_robot_history cfg now))"
    unfolding eq fold_unregistered_get [OF assms(2)] fold_dict_set_get [OF assms(1)]
    by (simp split: option.splits)
  show "distinct (map fst (summaries_of cfg now registered grouped))"
    unfolding eq by (intro fold_unregistered_distinct fold_dict_set_distinct) simp
qed

lemma insert_by_id_set: "mset (insert_by_id r rs) = add_mset r (mset rs)"
  by (induction rs) auto

lemma list_active_mset: "mset (list_active t) = mset (filter r_is_active t)"
proof -
  have "mset (fold insert_by_id xs ys) = mset xs + mset ys" for xs ys
    by (induction xs arbitrary: ys) (simp_all add: insert_by_id_set)
  then show ?thesis by (simp add: list_active_def)
qed

lemma list_active_laws:
  assumes "roster_wf t"
  shows "distinct (map r_id (list_active t))" "set (list_active t) = {r \<in> set t. r_is_active r}"
proof -
  show "set (list_active t) = {r \<in> set t. r_is_active r}"
    using arg_cong [OF list_active_mset [of t], where f = set_mset] by simp
  have "mset (map r_id (list_active t)) = mset (map r_id (filter r_is_active t))"
    using list_active_mset [of t] by (simp only: mset_map)
  moreover have "distinct (map r_id (filter r_is_active t))"
    using assms by (simp add: roster_wf_def distinct_map_filter)
  ultimately show "distinct (map r_id (list_active t))" by (metis mset_eq_imp_distinct_iff)
qed

lemma summarize_ids:
  "summarize_robot_history cfg now rows = Some s \<Longrightarrow>
   rows \<noteq> [] \<and> rs_robot_id s = t_robot_id (last rows) \<and> rs_last_seen s = Some (t_timestamp (last rows))
   \<and> rs_status s = derive_status cfg (last rows) (now - t_timestamp (last rows))"
  by (auto simp: summarize_robot_history_def Let_def split: if_splits)

section \<open>Properties\<close>

text \<open>What the fleet list says about one robot.\<close>

definition live_entry :: "settings \<Rightarrow> instant \<Rightarrow> telemetry_row list \<Rightarrow> robot_status \<Rightarrow> bool" where
  "live_entry cfg now rows s \<longleftrightarrow>
     (\<exists>r \<in> set rows. t_timestamp r = Max (t_timestamp ` set rows) \<and> rs_last_seen s = Some (t_timestamp r)
        \<and> rs_status s = derive_status cfg r (now - t_timestamp r))"

definition silent_entry :: "robot list \<Rightarrow> robot_status \<Rightarrow> bool" where
  "silent_entry t s \<longleftrightarrow> (\<exists>r \<in> set t. r_is_active r \<and> r_id r = rs_robot_id s \<and> s = summarize_silent_robot r)"

text \<open>The robots that must be listed: the active roster, and whoever reported in the window.\<close>

definition expected_ids :: "instant \<Rightarrow> settings \<Rightarrow> tele_db \<Rightarrow> int set" where
  "expected_ids dbnow cfg db =
     r_id ` {r \<in> set (robots db). r_is_active r}
     \<union> t_robot_id ` {r \<in> set (readings db). in_window dbnow (fleet_window_minutes cfg) r}"

lemma window_rows_iff: "window_rows dbnow cfg db rid \<noteq> [] \<longleftrightarrow>
    rid \<in> t_robot_id ` {r \<in> set (readings db). in_window dbnow (fleet_window_minutes cfg) r}"
  by (auto simp: window_rows_def filter_empty_conv)

lemma live_from_group:
  assumes scans: "scan_ok scan" "scan_ok scan2" and hist: "0 < fleet_history_per_robot cfg"
    and rows: "map_of (groups scan scan2 dbnow cfg db) rid = Some rows"
  shows "\<exists>s. summarize_robot_history cfg now rows = Some s \<and> rs_robot_id s = rid
    \<and> live_entry cfg now (window_rows dbnow cfg db rid) s"
proof -
  let ?w = "window_rows dbnow cfg db rid"
  have w: "?w \<noteq> []" "rows = newest_rows scan scan2 (nat (fleet_history_per_robot cfg)) ?w"
    using rows hist by (auto simp: groups_get split: if_splits)
  have n: "rows \<noteq> []" "set rows \<subseteq> set ?w" "t_timestamp (last rows) = Max (t_timestamp ` set ?w)"
    using newest_rows_last [OF scans _ w(1), of "nat (fleet_history_per_robot cfg)"] hist w(2) by auto
  obtain s where s: "summarize_robot_history cfg now rows = Some s"
    using n(1) by (auto simp: summarize_robot_history_def Let_def)
  have l: "last rows \<in> set ?w" using n last_in_set by blast
  then have "t_robot_id (last rows) = rid" by (simp add: window_rows_def)
  with summarize_ids [OF s] l n(3) s show ?thesis by (auto simp: live_entry_def)
qed

lemma fleet_entry:
  fixes dbnow now :: instant
  assumes scans: "scan_ok scan" "scan_ok scan2" and hist: "0 < fleet_history_per_robot cfg" and wf: "roster_wf (robots db)"
  defines "d \<equiv> summaries_of cfg now (list_active (robots db)) (groups scan scan2 dbnow cfg db)"
  shows "map_of d rid = None \<longleftrightarrow> rid \<notin> expected_ids dbnow cfg db"
    and "map_of d rid = Some s \<Longrightarrow> rs_robot_id s = rid \<and>
      (if window_rows dbnow cfg db rid = [] then silent_entry (robots db) s
       else live_entry cfg now (window_rows dbnow cfg db rid) s)"
proof -
  let ?g = "groups scan scan2 dbnow cfg db"
  note act = list_active_laws [OF wf]
  have get: "map_of d rid = (case List.find (\<lambda>r. r_id r = rid) (list_active (robots db)) of
       Some r \<Rightarrow> Some (registered_summary cfg now ?g r)
     | None \<Rightarrow> Option.bind (map_of ?g rid) (summarize_robot_history cfg now))"
    unfolding d_def by (rule summaries_get(1) [OF act(1) groups_keys])
  have grp: "map_of ?g rid = None \<longleftrightarrow> window_rows dbnow cfg db rid = []"
    using hist by (simp add: groups_get)
  show "map_of d rid = None \<longleftrightarrow> rid \<notin> expected_ids dbnow cfg db"
  proof (cases "List.find (\<lambda>r. r_id r = rid) (list_active (robots db))")
    case None
    then have "rid \<notin> r_id ` {r \<in> set (robots db). r_is_active r}"
      using act(2) by (auto simp: find_None_iff)
    with None get grp window_rows_iff [of dbnow cfg db rid] live_from_group [OF scans hist, of dbnow db rid _ now]
    show ?thesis by (cases "map_of ?g rid") (auto simp: expected_ids_def)
  next
    case (Some r)
    then show ?thesis using get find_Some_mem [OF Some] act(2) by (auto simp: expected_ids_def)
  qed
  assume s: "map_of d rid = Some s"
  show "rs_robot_id s = rid \<and>
      (if window_rows dbnow cfg db rid = [] then silent_entry (robots db) s
       else live_entry cfg now (window_rows dbnow cfg db rid) s)"
  proof (cases "List.find (\<lambda>r. r_id r = rid) (list_active (robots db))")
    case None
    then obtain rows where rows: "map_of ?g rid = Some rows" "summarize_robot_history cfg now rows = Some s"
      using get s by (cases "map_of ?g rid") auto
    with live_from_group [OF scans hist rows(1), of now] grp show ?thesis by auto
  next
    case (Some r)
    then have r: "r \<in> set (robots db)" "r_is_active r" "r_id r = rid"
      using find_Some_mem [OF Some] act(2) by auto
    have sr: "s = registered_summary cfg now ?g r" using get s Some by simp
    show ?thesis
    proof (cases "map_of ?g rid")
      case None
      with sr r grp show ?thesis
        by (auto simp: registered_summary_def silent_entry_def summarize_silent_robot_def)
    next
      case (Some rows)
      with live_from_group [OF scans hist Some, of now] sr r grp show ?thesis
        by (auto simp: registered_summary_def)
    qed
  qed
qed

text \<open>The list as a whole: the keys of the dictionary in order, each with its entry.\<close>

lemma fleet_list_described:
  assumes "scan_ok scan" and "scan_ok scan2" and "0 < fleet_history_per_robot cfg" and "roster_wf (robots db)"
  shows "map rs_robot_id (fleet_list scan scan2 cfg dbnow now db) = sorted_list_of_set (expected_ids dbnow cfg db)
    \<and> (\<forall>s \<in> set (fleet_list scan scan2 cfg dbnow now db).
         if window_rows dbnow cfg db (rs_robot_id s) = [] then silent_entry (robots db) s
         else live_entry cfg now (window_rows dbnow cfg db (rs_robot_id s)) s)"
proof -
  define d where "d = summaries_of cfg now (list_active (robots db)) (groups scan scan2 dbnow cfg db)"
  note entry = fleet_entry [OF assms, where now = now and dbnow = dbnow, folded d_def]
  have dist: "distinct (map fst d)"
    unfolding d_def by (rule summaries_get(2) [OF list_active_laws(1) [OF assms(4)] groups_keys])
  have dom: "fst ` set d = expected_ids dbnow cfg db"
    using entry(1) by (auto simp: map_of_eq_None_iff)
  have fl: "fleet_list scan scan2 cfg dbnow now db = map (\<lambda>rid. the (map_of d rid)) (sort (map fst d))"
    by (simp add: fleet_list_def d_def Let_def)
  have the: "\<exists>s. map_of d rid = Some s" if "rid \<in> fst ` set d" for rid
    using that entry(1) dom by (cases "map_of d rid") auto
  have "map rs_robot_id (fleet_list scan scan2 cfg dbnow now db) = sort (map fst d)"
    unfolding fl map_map using the entry(2) by (intro map_idI) (fastforce simp: comp_def)
  moreover have "sort (map fst d) = sorted_list_of_set (expected_ids dbnow cfg db)"
    using dist dom sorted_list_of_set_sort_remdups [of "map fst d"] by (simp add: distinct_remdups_id)
  moreover have "\<forall>s \<in> set (fleet_list scan scan2 cfg dbnow now db).
         if window_rows dbnow cfg db (rs_robot_id s) = [] then silent_entry (robots db) s
         else live_entry cfg now (window_rows dbnow cfg db (rs_robot_id s)) s"
    unfolding fl using the entry(2) by fastforce
  ultimately show ?thesis by simp
qed

text \<open>
  C23: No robot is lost from the fleet. The list names, once each and in order of identifier,
  exactly the robots of the active roster and those that reported inside the window. A robot
  that reported is described by its newest reading in the window; one that did not is shown
  OFFLINE with the roster's record of when it was last seen.
\<close>

theorem fleet_list_complete:
  assumes "scan_ok scan" and "scan_ok scan2" and "0 < fleet_history_per_robot cfg" and "roster_wf (robots db)"
  shows "map rs_robot_id (fleet_list scan scan2 cfg dbnow now db) = sorted_list_of_set (expected_ids dbnow cfg db)
    \<and> (\<forall>s \<in> set (fleet_list scan scan2 cfg dbnow now db).
         if window_rows dbnow cfg db (rs_robot_id s) = [] then silent_entry (robots db) s
         else live_entry cfg now (window_rows dbnow cfg db (rs_robot_id s)) s)"
  using assms by (rule fleet_list_described)

definition silent_db :: tele_db where
  "silent_db = \<lparr>readings = [], robots = mark_seen 0 [(7, 5)] [], next_id = 1\<rparr>"

lemma silent_db_robots:
  "robots silent_db = [\<lparr>r_id = 7, r_name = None, r_model = None, r_firmware_version = None, r_is_active = True,
     r_registered_at = 0, r_last_seen = Some 5, r_decommissioned_at = None\<rparr>]"
  by (simp add: silent_db_def mark_seen_def upsert_robot_def)

lemma silent_db_expected: "expected_ids dbnow cfg silent_db = {7}"
proof -
  have "readings silent_db = []" by (simp add: silent_db_def)
  moreover have "{r \<in> set t. P r} = set (filter P t)" for P and t :: "robot list" by simp
  ultimately show ?thesis by (simp only: expected_ids_def silent_db_robots) simp
qed

theorem fleet_list_complete_witness:
  "map rs_robot_id (fleet_list (\<lambda>t. t) (\<lambda>t. t) (default_settings ''db'' ''k'') 9000000000 9000000000 silent_db) = [7]"
  using fleet_list_complete [of "\<lambda>t. t" "\<lambda>t. t" "default_settings ''db'' ''k''" silent_db 9000000000 9000000000]
  by (simp add: silent_db_expected silent_db_robots default_settings_def roster_wf_def)

section \<open>How old an answer can be\<close>

text \<open>
  What the services rely on of the cache server (Redis GET and SETEX): GET answers the value
  last stored under the key while it has not expired; SETEX stores the value with its deadline,
  and a SETEX that raises has either stored it or left everything as it was.
\<close>

definition kv_ok :: "('c, 'v) kv \<Rightarrow> ('c \<Rightarrow> string \<Rightarrow> ('v \<times> instant) option) \<Rightarrow> bool" where
  "kv_ok srv view \<longleftrightarrow>
     (\<forall>c now k v. kv_get srv c now k = Some (Some v) \<longrightarrow> (\<exists>e. view c k = Some (v, e) \<and> now < e))
   \<and> (\<forall>c now k ttl v c' returned. kv_setex srv c now k ttl v = (c', returned) \<longrightarrow>
        view c' = (view c)(k \<mapsto> (v, now + seconds ttl)) \<or> \<not> returned \<and> view c' = view c)"

lemma kv_ok_hit: "kv_ok srv view \<Longrightarrow> cache_get srv c now k = Some v \<Longrightarrow> \<exists>e. view c k = Some (v, e) \<and> now < e"
  by (auto simp: kv_ok_def cache_get_def split: option.splits)

lemma kv_ok_set:
  "kv_ok srv view \<Longrightarrow> view (cache_set srv c now k v ttl) = (view c)(k \<mapsto> (v, now + seconds (floor ttl)))
     \<or> view (cache_set srv c now k v ttl) = view c"
  unfolding kv_ok_def cache_set_def by (cases "kv_setex srv c now k (floor ttl) v") fastforce

text \<open>
  \<open>invalidate\<close> and \<open>clear\<close> over the server's DELETE and FLUSHDB, \<open>None\<close> when they raise. Nothing in
  the program calls them; FLUSHDB would take the streams, windows and locks of the same database.
\<close>

definition cache_invalidate :: "('c \<Rightarrow> string \<Rightarrow> 'c option) \<Rightarrow> 'c \<Rightarrow> string \<Rightarrow> 'c" where
  "cache_invalidate kv_delete c k = (case kv_delete c k of None \<Rightarrow> c | Some c' \<Rightarrow> c')"

definition cache_clear :: "('c \<Rightarrow> 'c option) \<Rightarrow> 'c \<Rightarrow> 'c" where
  "cache_clear kv_flushdb c = (case kv_flushdb c of None \<Rightarrow> c | Some c' \<Rightarrow> c')"

lemma cache_invalidate_gone:
  assumes "kv_ok srv view" and "kv_delete c k = Some c'" and "view c' = (view c)(k := None)"
  shows "cache_get srv (cache_invalidate kv_delete c k) now k = None"
  using kv_ok_hit [OF assms(1), of c' now k] assms(2,3)
  by (cases "cache_get srv c' now k") (auto simp: cache_invalidate_def)

text \<open>Everything cached under a key is the fresh answer of a request already served.\<close>

definition cached_from ::
  "('q \<Rightarrow> string) \<Rightarrow> ('q \<Rightarrow> instant) \<Rightarrow> ('q \<Rightarrow> 'v) \<Rightarrow> int \<Rightarrow> 'q list \<Rightarrow> (string \<Rightarrow> ('v \<times> instant) option) \<Rightarrow> bool"
where
  "cached_from key clock fresh ttl served m \<longleftrightarrow>
     (\<forall>q v e. m (key q) = Some (v, e) \<longrightarrow>
        (\<exists>q0 \<in> set served. key q0 = key q \<and> v = fresh q0 \<and> e = clock q0 + seconds ttl))"

lemma cached_from_mono:
  "cached_from key clock fresh ttl served m \<Longrightarrow> set served \<subseteq> set served' \<Longrightarrow> cached_from key clock fresh ttl served' m"
  by (fastforce simp: cached_from_def)

lemma cached_from_store:
  "cached_from key clock fresh ttl served m \<Longrightarrow>
   cached_from key clock fresh ttl (q # served) (m(key q \<mapsto> (fresh q, clock q + seconds ttl)))"
  by (fastforce simp: cached_from_def)

text \<open>A sequence of requests served one after another.\<close>

primrec serve_all :: "('q \<Rightarrow> 'c \<Rightarrow> 'r \<times> 'c) \<Rightarrow> 'q list \<Rightarrow> 'c \<Rightarrow> 'r list" where
  "serve_all serve [] c = []"
| "serve_all serve (q # qs) c = (case serve q c of (r, c') \<Rightarrow> r # serve_all serve qs c')"

lemma length_serve_all [simp]: "length (serve_all serve qs c) = length qs"
  by (induction qs arbitrary: c) (simp_all split: prod.splits)

record status_request =
  q_limit :: nat
  q_skip :: nat
  q_dbnow :: instant
  q_now :: instant
  q_db :: tele_db

definition page_of ::
  "(telemetry_row list \<Rightarrow> telemetry_row list) \<Rightarrow> (telemetry_row list \<Rightarrow> telemetry_row list) \<Rightarrow> settings
   \<Rightarrow> status_request \<Rightarrow> json_obj list"
where
  "page_of scan scan2 cfg q = fleet_page scan scan2 cfg (q_limit q) (q_skip q) (q_dbnow q) (q_now q) (q_db q)"

definition serve_status ::
  "(telemetry_row list \<Rightarrow> telemetry_row list) \<Rightarrow> (telemetry_row list \<Rightarrow> telemetry_row list) \<Rightarrow> settings
   \<Rightarrow> ('c, json_obj list) kv \<Rightarrow> status_request \<Rightarrow> 'c \<Rightarrow> json_obj list \<times> 'c"
where
  "serve_status scan scan2 cfg srv q c =
     get_fleet_status scan scan2 cfg srv (q_limit q) (q_skip q) (q_dbnow q) (q_now q) (q_db q) c"

abbreviation key_of :: "status_request \<Rightarrow> string" where
  "key_of q \<equiv> status_key (q_limit q) (q_skip q)"

lemma digits_split:
  assumes "list_all is_digit a" "list_all is_digit b" "\<not> is_digit x" "a @ x # c = b @ x # d"
  shows "a = b \<and> c = d"
proof -
  have "takeWhile is_digit (a @ x # c) = a" "takeWhile is_digit (b @ x # d) = b"
    using assms(1-3) by (simp_all add: takeWhile_append2 list_all_iff)
  with assms(4) show ?thesis by auto
qed

lemma status_key_inj: "status_key a b = status_key c d \<longleftrightarrow> a = c \<and> b = d"
proof
  assume "status_key a b = status_key c d"
  then have "nat_str a @ CHR ''_'' # nat_str b = nat_str c @ CHR ''_'' # nat_str d" by (simp add: status_key_def)
  then have "nat_str a = nat_str c \<and> nat_str b = nat_str d"
    by (rule digits_split [OF nat_str_digits nat_str_digits, rotated]) (simp add: is_digit_def)
  then show "a = c \<and> b = d" by (metis option.inject read_nat_nat_str)
qed simp

text \<open>One request: a hit answers a live entry and changes nothing, a miss computes and may store.\<close>

lemma serve_status_cases:
  assumes "kv_ok srv view"
  shows "(\<exists>v e. view c (key_of q) = Some (v, e) \<and> q_now q < e \<and> serve_status scan scan2 cfg srv q c = (v, c))
    \<or> (\<exists>c'. serve_status scan scan2 cfg srv q c = (page_of scan scan2 cfg q, c')
         \<and> (view c' = view c
            \<or> view c' = (view c)(key_of q \<mapsto> (page_of scan scan2 cfg q, q_now q + seconds 10))))"
proof (cases "if opt_read_cache cfg then cache_get srv c (q_now q) (key_of q) else None")
  case (Some v)
  then have "cache_get srv c (q_now q) (key_of q) = Some v" by (simp split: if_splits)
  from kv_ok_hit [OF assms this] Some show ?thesis
    by (auto simp: serve_status_def get_fleet_status_def Let_def)
next
  case None
  then have "serve_status scan scan2 cfg srv q c = (page_of scan scan2 cfg q,
      if opt_read_cache cfg then cache_set srv c (q_now q) (key_of q) (page_of scan scan2 cfg q) 10 else c)"
    by (auto simp: serve_status_def get_fleet_status_def Let_def page_of_def)
  moreover note kv_ok_set [OF assms, of c "q_now q" "key_of q" "page_of scan scan2 cfg q" 10]
  ultimately show ?thesis by (cases "opt_read_cache cfg") auto
qed

definition fresh_enough ::
  "('q \<Rightarrow> string) \<Rightarrow> ('q \<Rightarrow> instant) \<Rightarrow> ('q \<Rightarrow> 'v) \<Rightarrow> int \<Rightarrow> 'q list \<Rightarrow> 'q \<Rightarrow> 'v \<Rightarrow> bool"
where
  "fresh_enough key clock fresh ttl served q v \<longleftrightarrow>
     v = fresh q \<or> (\<exists>q0 \<in> set served. key q0 = key q \<and> clock q < clock q0 + seconds ttl \<and> v = fresh q0)"

lemma serve_status_step:
  assumes kv: "kv_ok srv view" and inv: "cached_from key_of q_now (page_of scan scan2 cfg) 10 served (view c)"
    and step: "serve_status scan scan2 cfg srv q c = (v, c')"
  shows "fresh_enough key_of q_now (page_of scan scan2 cfg) 10 served q v"
    and "cached_from key_of q_now (page_of scan scan2 cfg) 10 (q # served) (view c')"
proof -
  consider (hit) e where "view c (key_of q) = Some (v, e)" "q_now q < e" "c' = c"
    | (keep) "v = page_of scan scan2 cfg q" "view c' = view c"
    | (store) "v = page_of scan scan2 cfg q"
        "view c' = (view c)(key_of q \<mapsto> (page_of scan scan2 cfg q, q_now q + seconds 10))"
    using serve_status_cases [OF kv, of c q scan scan2 cfg] step by auto
  then show "fresh_enough key_of q_now (page_of scan scan2 cfg) 10 served q v"
    using inv by cases (fastforce simp: fresh_enough_def cached_from_def)+
  have more: "cached_from key_of q_now (page_of scan scan2 cfg) 10 (q # served) (view c)"
    by (rule cached_from_mono [OF inv]) auto
  from \<open>serve_status scan scan2 cfg srv q c = (v, c')\<close>
  consider "view c' = view c" | "view c' = (view c)(key_of q \<mapsto> (page_of scan scan2 cfg q, q_now q + seconds 10))"
    using serve_status_cases [OF kv, of c q scan scan2 cfg] by auto
  then show "cached_from key_of q_now (page_of scan scan2 cfg) 10 (q # served) (view c')"
    using more cached_from_store [OF inv, of q] by cases simp_all
qed

lemma serve_status_all:
  assumes kv: "kv_ok srv view"
  shows "cached_from key_of q_now (page_of scan scan2 cfg) 10 served (view c) \<Longrightarrow> i < length qs \<Longrightarrow>
    fresh_enough key_of q_now (page_of scan scan2 cfg) 10 (served @ take i qs) (qs ! i)
      (serve_all (serve_status scan scan2 cfg srv) qs c ! i)"
proof (induction qs arbitrary: served c i)
  case (Cons q qs)
  obtain v c' where s: "serve_status scan scan2 cfg srv q c = (v, c')" by fastforce
  note step = serve_status_step [OF kv Cons.prems(1) s]
  show ?case
  proof (cases i)
    case 0
    with step(1) s show ?thesis by simp
  next
    case (Suc j)
    then have "fresh_enough key_of q_now (page_of scan scan2 cfg) 10 ((q # served) @ take j qs) (qs ! j)
        (serve_all (serve_status scan scan2 cfg srv) qs c' ! j)"
      using Cons.IH [OF step(2)] Cons.prems(2) by simp
    with s Suc show ?thesis by (auto simp: fresh_enough_def)
  qed
qed simp

text \<open>
  C25: An answer of the fleet status route is never older than the cache lifetime. Whatever the
  cache server does within its contract (losing writes, raising on reads or writes), and
  whatever other pages are being served, the \<open>i\<close>-th answer is the page computed for that very
  request, or one computed from the database for an earlier request with the same limit and
  offset less than ten seconds before.
\<close>

theorem fleet_status_staleness:
  assumes "kv_ok srv view" and "\<forall>limit skip. view c (status_key limit skip) = None" and "i < length qs"
  shows "\<exists>j \<le> i. q_limit (qs ! j) = q_limit (qs ! i) \<and> q_skip (qs ! j) = q_skip (qs ! i)
    \<and> (j = i \<or> q_now (qs ! i) - q_now (qs ! j) < seconds 10)
    \<and> serve_all (serve_status scan scan2 cfg srv) qs c ! i = page_of scan scan2 cfg (qs ! j)"
proof -
  have "cached_from key_of q_now (page_of scan scan2 cfg) 10 [] (view c)" using assms(2) by (simp add: cached_from_def)
  from serve_status_all [OF assms(1) this assms(3)]
  consider "serve_all (serve_status scan scan2 cfg srv) qs c ! i = page_of scan scan2 cfg (qs ! i)"
    | q0 where "q0 \<in> set (take i qs)" "key_of q0 = key_of (qs ! i)" "q_now (qs ! i) < q_now q0 + seconds 10"
        "serve_all (serve_status scan scan2 cfg srv) qs c ! i = page_of scan scan2 cfg q0"
    by (auto simp: fresh_enough_def)
  then show ?thesis
  proof cases
    case 2
    then obtain j where "j < i" "q0 = qs ! j" by (auto simp: in_set_conv_nth)
    with 2 show ?thesis by (intro exI [of _ j]) (auto simp: status_key_inj)
  qed blast
qed

text \<open>A server that keeps its promises: a map of values with their deadlines.\<close>

definition map_kv :: "(string \<Rightarrow> ('v \<times> instant) option, 'v) kv" where
  "map_kv = \<lparr>kv_get = \<lambda>c now k. Some (case c k of Some (v, e) \<Rightarrow> if now < e then Some v else None | None \<Rightarrow> None),
             kv_setex = \<lambda>c now k ttl v. (c(k \<mapsto> (v, now + seconds ttl)), True)\<rparr>"

lemma map_kv_ok: "kv_ok map_kv (\<lambda>c. c)"
  by (auto simp: kv_ok_def map_kv_def split: option.splits if_splits)

definition poll :: "instant \<Rightarrow> status_request" where
  "poll t = \<lparr>q_limit = 50, q_skip = 0, q_dbnow = t, q_now = t, q_db = silent_db\<rparr>"

theorem fleet_status_staleness_witness:
  "\<exists>j \<le> 1. serve_all (serve_status (\<lambda>t. t) (\<lambda>t. t) (default_settings ''db'' ''k'') map_kv)
       [poll 0, poll 4000000] Map.empty ! 1 = page_of (\<lambda>t. t) (\<lambda>t. t) (default_settings ''db'' ''k'') ([poll 0, poll 4000000] ! j)"
  using fleet_status_staleness [OF map_kv_ok, of Map.empty 1 "[poll 0, poll 4000000]" "\<lambda>t. t" "\<lambda>t. t" "default_settings ''db'' ''k''"]
  by auto

end
