(* ===== verification/FleetEndToEnd.thy ===== *)
theory FleetEndToEnd
  imports FleetSimNet FleetCommandSystem FleetStatus
begin

text \<open>
  The platform and its robots together: the wire between the claim route and a robot's command
  loop, the robot's status reports arriving at \<open>update_status\<close>, and the lemmas behind the
  end-to-end properties of the root theory.
\<close>

section \<open>The wire\<close>

text \<open>What the robot reads from an entry of the claim response.\<close>

definition json_text :: "json option \<Rightarrow> string option" where
  "json_text v = (case v of Some (JStr s) \<Rightarrow> Some s | _ \<Rightarrow> None)"

definition command_of_entry :: "json_obj \<Rightarrow> claimed_command" where
  "command_of_entry e =
     \<lparr>ck_id = json_text (dict_get e ''id''), ck_command_type = json_text (dict_get e ''command_type''),
      ck_action = json_text (dict_get e ''action'')\<rparr>"

text \<open>A status report as the body of the PATCH route.\<close>

definition report_of :: "string \<Rightarrow> json option \<Rightarrow> command_status_update" where
  "report_of status result =
     \<lparr>su_status = status, su_error_code = None, su_error_message = None,
      su_result = (case result of Some (JObj d) \<Rightarrow> Some d | _ \<Rightarrow> None)\<rparr>"

text \<open>Reports arrive in order, at the times \<open>clock\<close> gives; the robot ignores the answers.\<close>

fun deliver :: "(nat \<Rightarrow> instant) \<Rightarrow> nat \<Rightarrow> sim_output list \<Rightarrow> cmd_db \<Rightarrow> cmd_db" where
  "deliver clock n [] db = db"
| "deliver clock n (Patch cid status result # out) db =
     deliver clock (n + 1) out (snd (update_status cid (report_of status result) (clock n) db))"
| "deliver clock n (Reading _ # out) db = deliver clock n out db"
| "deliver clock n (Event _ _ # out) db = deliver clock n out db"

section \<open>Lemmas: reports\<close>

definition status_of :: "string \<Rightarrow> robot_command list \<Rightarrow> string option" where
  "status_of cid t = map_option rc_status (find_command cid t)"

lemma find_command_replace:
  "rc_id r' = cid \<Longrightarrow> find_command c (map (\<lambda>x. if rc_id x = cid then r' else x) t) =
     (if c = cid then map_option (\<lambda>_. r') (find_command cid t) else find_command c t)"
  by (induction t) (auto simp: find_command_def)

lemma report_columns:
  assumes "command_columns_ok r" "length st \<le> 32"
  shows "command_columns_ok (transition_values st (report_of st result) now r)"
  using assms by (auto simp: command_columns_ok_def transition_values_def report_of_def fits_def Let_def split: option.splits json.splits)

lemma report_step:
  fixes result :: "json option" and now :: instant
  assumes wf: "commands_wf (commands db)" and s: "status_of cid (commands db) = Some s"
    and v: "valid_transition s st"
  defines "db' \<equiv> snd (update_status cid (report_of st result) now db)"
  shows "commands_wf (commands db')" "status_of cid (commands db') = Some st"
    "c \<noteq> cid \<Longrightarrow> status_of c (commands db') = status_of c (commands db)"
proof -
  obtain r where r: "find_command cid (commands db) = Some r" "rc_status r = s"
    using s by (auto simp: status_of_def)
  have mem: "r \<in> set (commands db)" "rc_id r = cid" using find_command_Some [OF r(1)] by simp_all
  have cols: "command_columns_ok r" using wf mem(1) by (auto simp: commands_wf_def row_ok_def list_all_iff)
  let ?r' = "transition_values st (report_of st result) now r"
  have len: "length st \<le> 32" using v by (auto simp: VALID_TRANSITIONS_def split: if_splits)
  have nt: "\<not> terminal s" "s \<noteq> st" using v terminal_no_successor valid_transition_new_status by blast+
  have com: "commands db' = map (\<lambda>x. if rc_id x = cid then ?r' else x) (commands db)"
    using r nt v report_columns [OF cols len] unfolding db'_def update_status_eq_spec [OF wf]
    by (simp add: update_spec_def report_of_def Let_def)
  have "row_step r ?r'" using v r(2) report_columns [OF cols len] by (simp add: row_step_def)
  then have rs: "row_step x ?r'" if "x \<in> set (commands db)" "rc_id x = cid" for x
    using commands_wf_id_unique [OF wf that(1) mem(1)] that(2) mem(2) by simp
  have "table_evolves (commands db) (commands db')"
    using table_evolves_update [of "commands db" "\<lambda>x. rc_id x = cid" "\<lambda>_. ?r'", OF rs] com
    by (simp add: update_where_def)
  from commands_wf_evolves_same_length [OF this _ wf] show "commands_wf (commands db')" by (simp add: com)
  have id: "rc_id ?r' = cid" using mem(2) by simp
  show "status_of cid (commands db') = Some st" using r by (simp add: status_of_def com find_command_replace [OF id])
  show "status_of c (commands db') = status_of c (commands db)" if "c \<noteq> cid"
    using that by (simp add: status_of_def com find_command_replace [OF id])
qed

text \<open>The three reports of one executed command.\<close>

lemma deliver_executed:
  assumes wf: "commands_wf (commands db)" and s: "status_of cid (commands db) = Some ''DISPATCHED''"
    and st: "st \<in> {''COMPLETED'', ''FAILED''}"
  shows "\<exists>db' n'. deliver clock n ([Patch cid ''ACKNOWLEDGED'' None, Patch cid ''EXECUTING'' None, Patch cid st None] @ out) db
      = deliver clock n' out db' \<and> commands_wf (commands db') \<and> status_of cid (commands db') = Some st
      \<and> (\<forall>c. c \<noteq> cid \<longrightarrow> status_of c (commands db') = status_of c (commands db))"
proof -
  let ?d1 = "snd (update_status cid (report_of ''ACKNOWLEDGED'' None) (clock n) db)"
  let ?d2 = "snd (update_status cid (report_of ''EXECUTING'' None) (clock (n + 1)) ?d1)"
  let ?d3 = "snd (update_status cid (report_of st None) (clock (n + 2)) ?d2)"
  have v: "valid_transition ''DISPATCHED'' ''ACKNOWLEDGED''" "valid_transition ''ACKNOWLEDGED'' ''EXECUTING''"
    "valid_transition ''EXECUTING'' st"
    using st by (auto simp: VALID_TRANSITIONS_def)
  note s1 = report_step [OF wf s v(1), where result = None and now = "clock n"]
  note s2 = report_step [OF s1(1,2) v(2), where result = None and now = "clock (n + 1)"]
  note s3 = report_step [OF s2(1,2) v(3), where result = None and now = "clock (n + 2)"]
  have "deliver clock n ([Patch cid ''ACKNOWLEDGED'' None, Patch cid ''EXECUTING'' None, Patch cid st None] @ out) db
      = deliver clock (n + 3) out ?d3" by (simp add: numeral_3_eq_3)
  moreover have "status_of c (commands ?d3) = status_of c (commands db)" if "c \<noteq> cid" for c
    using s1(3) [OF that] s2(3) [OF that] s3(3) [OF that] by simp
  ultimately show ?thesis using s3(1,2) by auto
qed

section \<open>Lemmas: a claimed batch\<close>

text \<open>The status the robot reports last, by the command's type.\<close>

definition outcome :: "string \<Rightarrow> string" where
  "outcome command_type =
     (if command_type \<in> {''RETURN_TO_BASE'', ''EMERGENCY_STOP'', ''RESUME''} then ''COMPLETED'' else ''FAILED'')"

lemma outcome_reportable: "outcome s \<in> {''COMPLETED'', ''FAILED''}"
  by (simp add: outcome_def)

lemma command_of_entry_id [simp]: "ck_id (command_of_entry (claimed_entry c)) = Some (rc_id c)"
  by (simp add: command_of_entry_def claimed_entry_def json_text_def)

lemma execute_outcome:
  "snd (execute_command (command_action (command_of_entry (claimed_entry c))) r) = outcome (rc_command_type c)"
  by (auto simp: execute_command_def command_action_def command_of_entry_def claimed_entry_def json_text_def outcome_def)

lemma remembered: "set (rb_processed (remember_command i r)) \<subseteq> insert i (set (rb_processed r))"
  by (auto simp: remember_command_def Let_def dest: list.set_sel(2) [rotated])

lemma execute_processed [simp]: "rb_processed (fst (execute_command a r)) = rb_processed r"
  by (simp add: execute_command_def clear_mission_def)

text \<open>A fresh command: the three reports, and its id remembered.\<close>

lemma handle_fresh:
  assumes "rc_id c \<notin> set (rb_processed r)"
  defines "act \<equiv> command_action (command_of_entry (claimed_entry c))"
  shows "handle_command (rc_id c) act r =
     (fst (execute_command act (remember_command (rc_id c) r)),
      [Patch (rc_id c) ''ACKNOWLEDGED'' None, Patch (rc_id c) ''EXECUTING'' None,
       Patch (rc_id c) (outcome (rc_command_type c)) None])"
  using assms(1) execute_outcome [of c "remember_command (rc_id c) r"]
  by (auto simp: handle_command_def act_def split: prod.splits)

lemma handle_fresh_processed:
  assumes "rc_id c \<notin> set (rb_processed r)"
  shows "set (rb_processed (fst (handle_command (rc_id c) (command_action (command_of_entry (claimed_entry c))) r)))
      \<subseteq> insert (rc_id c) (set (rb_processed r))"
  using remembered [of "rc_id c" r] by (simp add: handle_fresh [OF assms])

text \<open>Commands the table holds as dispatched and the robot has not seen.\<close>

definition fresh_batch :: "robot_command list \<Rightarrow> robot_command list \<Rightarrow> robot_state \<Rightarrow> bool" where
  "fresh_batch cs t r \<longleftrightarrow> distinct (map rc_id cs) \<and>
     (\<forall>c \<in> set cs. status_of (rc_id c) t = Some ''DISPATCHED'' \<and> rc_id c \<notin> set (rb_processed r))"

lemma fresh_batch_step:
  assumes b: "fresh_batch (c # cs) t r" and oth: "\<forall>i. i \<noteq> rc_id c \<longrightarrow> status_of i t' = status_of i t"
  shows "fresh_batch cs t' (fst (handle_command (rc_id c) (command_action (command_of_entry (claimed_entry c))) r))"
  unfolding fresh_batch_def
proof (intro conjI ballI)
  have f: "rc_id c \<notin> set (rb_processed r)" using b by (simp add: fresh_batch_def)
  show "distinct (map rc_id cs)" using b by (simp add: fresh_batch_def)
  fix d assume d: "d \<in> set cs"
  then have ne: "rc_id d \<noteq> rc_id c" using b by (auto simp: fresh_batch_def image_iff)
  show "status_of (rc_id d) t' = Some ''DISPATCHED''" using b d oth ne by (simp add: fresh_batch_def)
  have "rc_id d \<notin> insert (rc_id c) (set (rb_processed r))" using b d ne by (simp add: fresh_batch_def)
  then show "rc_id d \<notin> set (rb_processed (fst (handle_command (rc_id c)
      (command_action (command_of_entry (claimed_entry c))) r)))"
    using handle_fresh_processed [OF f] by blast
qed

lemma deliver_batch:
  assumes "commands_wf (commands db)" "fresh_batch cs (commands db) r"
  defines "out \<equiv> snd (handle_commands (map (command_of_entry \<circ> claimed_entry) cs) r)"
  shows "(\<forall>c \<in> set cs. status_of (rc_id c) (commands (deliver clock n out db)) = Some (outcome (rc_command_type c)))
    \<and> (\<forall>i. i \<notin> rc_id ` set cs \<longrightarrow> status_of i (commands (deliver clock n out db)) = status_of i (commands db))"
  using assms(1,2) unfolding out_def
proof (induction cs arbitrary: r db n)
  case Nil
  then show ?case by simp
next
  case (Cons c cs)
  let ?act = "command_action (command_of_entry (claimed_entry c))"
  let ?r = "fst (handle_command (rc_id c) ?act r)"
  let ?out = "snd (handle_commands (map (command_of_entry \<circ> claimed_entry) cs) ?r)"
  have f: "rc_id c \<notin> set (rb_processed r)" "status_of (rc_id c) (commands db) = Some ''DISPATCHED''"
    "rc_id c \<notin> rc_id ` set cs" using Cons.prems(2) by (auto simp: fresh_batch_def)
  have out: "snd (handle_commands (map (command_of_entry \<circ> claimed_entry) (c # cs)) r) =
      [Patch (rc_id c) ''ACKNOWLEDGED'' None, Patch (rc_id c) ''EXECUTING'' None,
       Patch (rc_id c) (outcome (rc_command_type c)) None] @ ?out"
    using handle_fresh [OF f(1)] by (simp split: prod.splits)
  obtain db' n' where d: "deliver clock n (snd (handle_commands (map (command_of_entry \<circ> claimed_entry) (c # cs)) r)) db
      = deliver clock n' ?out db'" and wf: "commands_wf (commands db')"
    and st: "status_of (rc_id c) (commands db') = Some (outcome (rc_command_type c))"
    and oth: "\<forall>i. i \<noteq> rc_id c \<longrightarrow> status_of i (commands db') = status_of i (commands db)"
    using deliver_executed [OF Cons.prems(1) f(2) outcome_reportable] unfolding out by blast
  have "fresh_batch cs (commands db') ?r" by (rule fresh_batch_step [OF Cons.prems(2) oth])
  note ih = Cons.IH [OF wf this, of n']
  show ?case unfolding d
  proof (intro conjI ballI allI impI)
    fix e assume "e \<in> set (c # cs)"
    then consider "e = c" | "e \<in> set cs" by auto
    then show "status_of (rc_id e) (commands (deliver clock n' ?out db')) = Some (outcome (rc_command_type e))"
      by cases (use ih st f(3) in \<open>simp_all add: comp_def\<close>)
  next
    fix i assume "i \<notin> rc_id ` set (c # cs)"
    then show "status_of i (commands (deliver clock n' ?out db')) = status_of i (commands db)" using ih oth by (simp add: comp_def)
  qed
qed

text \<open>What the robot does with a batch of emergency stops.\<close>

definition halted :: "robot_state \<Rightarrow> bool" where
  "halted r \<longleftrightarrow> rb_status r = ''STOPPED'' \<and> rb_speed r = 0 \<and> rb_mission r = None \<and> \<not> rb_returning_to_charge r"

lemma stop_batch:
  assumes "fresh_batch cs t r" "\<forall>c \<in> set cs. rc_command_type c = ''EMERGENCY_STOP''" "cs \<noteq> [] \<or> halted r"
  shows "halted (fst (handle_commands (map (command_of_entry \<circ> claimed_entry) cs) r))"
  using assms
proof (induction cs arbitrary: r)
  case Nil
  then show ?case by simp
next
  case (Cons c cs)
  let ?act = "command_action (command_of_entry (claimed_entry c))"
  let ?r = "fst (handle_command (rc_id c) ?act r)"
  have f: "rc_id c \<notin> set (rb_processed r)" "rc_id c \<notin> rc_id ` set cs"
    using Cons.prems(1) by (auto simp: fresh_batch_def)
  have "?act = Some ''EMERGENCY_STOP''" using Cons.prems(2)
    by (simp add: command_action_def command_of_entry_def claimed_entry_def json_text_def)
  then have "halted ?r" using handle_fresh [OF f(1)]
    by (simp add: execute_command_def halted_def clear_mission_def)
  moreover have "fresh_batch cs t ?r" by (rule fresh_batch_step [OF Cons.prems(1)]) simp
  ultimately show ?case using Cons.IH [of ?r] Cons.prems(2) by (simp add: case_prod_beta comp_def)
qed

text \<open>The table after the claim.\<close>

lemma find_command_pointwise:
  "list_all2 R t t' \<Longrightarrow> (\<And>r r'. R r r' \<Longrightarrow> rc_id r' = rc_id r) \<Longrightarrow> find_command i t = Some c \<Longrightarrow>
   \<exists>c'. find_command i t' = Some c' \<and> R c c'"
  by (induction rule: list_all2_induct) (auto simp: find_command_def split: if_splits)

lemma dispatched_status:
  assumes "commands_wf t" "dispatched_all rid clock t t'" "c \<in> set t"
  shows "status_of (rc_id c) t' = Some (if pending_for rid c then ''DISPATCHED'' else rc_status c)"
proof -
  have "\<exists>c'. find_command (rc_id c) t' = Some c' \<and>
      (if pending_for rid c then \<exists>k. c' = mark_dispatched (clock k) c else c' = c)"
    by (rule find_command_pointwise [OF assms(2) [unfolded dispatched_all_def] _ find_command_wf [OF assms(1,3)]])
      (auto simp: mark_dispatched_def split: if_splits)
  then show ?thesis by (cases "pending_for rid c") (auto simp: mark_dispatched_def status_of_def)
qed

lemma dispatched_wf:
  assumes "commands_wf t" "dispatched_all rid clock t t'"
  shows "commands_wf t'"
proof (rule commands_wf_evolves_same_length [OF _ _ assms(1)])
  show "table_evolves t t'" using assms(2) mark_dispatched_row_step
    by (auto simp: table_evolves_def dispatched_all_def list_all2_conv_all_nth pending_for_def split: if_splits)
      (metis r_into_rtranclp rtranclp.rtrancl_refl)
  show "length t' = length t" using assms(2) by (simp add: dispatched_all_def list_all2_lengthD)
qed

lemma commands_handled:
  assumes "scan_ok scan" and wf: "commands_wf (commands db)"
    and new: "\<forall>c \<in> set (commands db). pending_for rid c \<longrightarrow> rc_id c \<notin> set (rb_processed r)"
  shows "\<exists>entries db1 r' out. claim_pending_commands scan rid clock db = Some (entries, db1)
    \<and> poll_commands True (Some (map command_of_entry entries)) r = (r', out)
    \<and> (\<forall>c \<in> set (commands db). status_of (rc_id c) (commands (deliver clock' 0 out db1)) =
          Some (if pending_for rid c then outcome (rc_command_type c) else rc_status c))
    \<and> ((\<exists>c \<in> set (commands db). pending_for rid c)
         \<and> (\<forall>c \<in> set (commands db). pending_for rid c \<longrightarrow> rc_command_type c = ''EMERGENCY_STOP'') \<longrightarrow> halted r')"
proof -
  let ?t = "commands db"
  obtain cs db1 where loop: "claim_loop scan rid clock CSelect [] db = Some (cs, db1)"
    and ms: "mset cs = mset (filter (pending_for rid) ?t)" and da: "dispatched_all rid clock ?t (commands db1)"
    using claim_loop_claims_all [OF assms(1) wf, of rid clock "[]"] by auto
  have cs: "set cs = {c \<in> set ?t. pending_for rid c}" using mset_eq_setD [OF ms] by auto
  have "distinct (map rc_id (filter (pending_for rid) ?t))"
    using commands_wf_distinct_ids [OF wf] by (rule distinct_map_filter)
  moreover have "mset (map rc_id cs) = mset (map rc_id (filter (pending_for rid) ?t))" using ms by simp
  ultimately have "distinct (map rc_id cs)" using mset_eq_imp_distinct_iff by blast
  then have fb: "fresh_batch cs (commands db1) r"
    using new cs dispatched_status [OF wf da] by (auto simp: fresh_batch_def)
  note del = deliver_batch [OF dispatched_wf [OF wf da] fb, of clock' 0]
  obtain r' out where h: "handle_commands (map (command_of_entry \<circ> claimed_entry) cs) r = (r', out)" by fastforce
  have st: "status_of (rc_id c) (commands (deliver clock' 0 out db1)) =
      Some (if pending_for rid c then outcome (rc_command_type c) else rc_status c)" if c: "c \<in> set ?t" for c
  proof (cases "pending_for rid c")
    case True
    then show ?thesis using del h c cs by simp
  next
    case False
    have "rc_id c \<notin> rc_id ` set cs"
    proof
      assume "rc_id c \<in> rc_id ` set cs"
      then obtain d where d: "rc_id c = rc_id d" "d \<in> set cs" by (rule imageE)
      then have "d = c" using commands_wf_id_unique [OF wf _ c] cs by simp
      with d cs False show False by simp
    qed
    then show ?thesis using del h False dispatched_status [OF wf da c] by simp
  qed
  have "halted r'" if "\<exists>c \<in> set ?t. pending_for rid c"
    "\<forall>c \<in> set ?t. pending_for rid c \<longrightarrow> rc_command_type c = ''EMERGENCY_STOP''"
  proof -
    have "set cs \<noteq> {}" "\<forall>c \<in> set cs. rc_command_type c = ''EMERGENCY_STOP''" unfolding cs using that by blast+
    then show ?thesis using stop_batch [OF fb] h by simp
  qed
  moreover have "claim_pending_commands scan rid clock db = Some (map claimed_entry cs, db1)"
    using loop by (simp add: claim_pending_commands_def)
  moreover have "poll_commands True (Some (map command_of_entry (map claimed_entry cs))) r = (r', out)"
    using h by (simp add: poll_commands_def)
  ultimately show ?thesis using st by blast
qed

section \<open>Lemmas: readings\<close>

text \<open>The status a reading states for itself.\<close>

definition reported_status :: "telemetry_row \<Rightarrow> string" where
  "reported_status r = (if truthy_str (t_status r) then py_upper (the (t_status r)) else ''ACTIVE'')"

lemma number_rows_mem:
  "(d, ts) \<in> set rows \<Longrightarrow> \<exists>r \<in> set (number_rows i rows). t_robot_id r = tc_robot_id d \<and> t_timestamp r = ts"
  by (induction i rows rule: number_rows.induct) (auto simp: new_row_def)

lemma fleet_shows_reading:
  assumes "scan_ok scan" "scan_ok scan2" "0 < fleet_history_per_robot cfg" "roster_wf (robots db)"
    and row: "row \<in> set (readings db)" "in_window dbnow (fleet_window_minutes cfg) row"
    and age: "now - t_timestamp row \<le> seconds (offline_after_seconds cfg)"
  shows "\<exists>s \<in> set (fleet_list scan scan2 cfg dbnow now db). rs_robot_id s = t_robot_id row
    \<and> (\<exists>q \<in> set (readings db). t_robot_id q = t_robot_id row \<and> t_timestamp row \<le> t_timestamp q
        \<and> rs_last_seen s = Some (t_timestamp q) \<and> rs_status s = reported_status q)"
proof -
  let ?l = "fleet_list scan scan2 cfg dbnow now db" and ?w = "window_rows dbnow cfg db (t_robot_id row)"
  note all = fleet_list_described [OF assms(1-4), of dbnow now]
  have w: "row \<in> set ?w" using row by (simp add: window_rows_def)
  have "finite (expected_ids dbnow cfg db)" by (simp add: expected_ids_def)
  moreover have "t_robot_id row \<in> expected_ids dbnow cfg db" using row by (auto simp: expected_ids_def)
  ultimately have "t_robot_id row \<in> set (map rs_robot_id ?l)" using all by simp
  then obtain s where s: "s \<in> set ?l" "rs_robot_id s = t_robot_id row" by auto
  have "?w \<noteq> []" using w by auto
  then have "live_entry cfg now ?w s" using all s by auto
  then obtain q where q: "q \<in> set ?w" "t_timestamp q = Max (t_timestamp ` set ?w)"
    "rs_last_seen s = Some (t_timestamp q)" "rs_status s = derive_status cfg q (now - t_timestamp q)"
    by (auto simp: live_entry_def)
  have le: "t_timestamp row \<le> t_timestamp q" using q(2) w by simp
  then have "rs_status s = reported_status q" using q(4) age by (simp add: derive_status_def reported_status_def)
  with s q(1,3) le show ?thesis by (auto simp: window_rows_def)
qed

lemma ingest_batch_direct:
  assumes "\<not> opt_redis_buffer cfg" "\<not> defer_writes_without_viewers cfg \<or> 0 < viewers" "roster_wf (robots (tdb st))"
    and "resolve_all cfg now data = Inr rows" "ingest_batch cfg dump_dt viewers now data st = (Inr ack, st')"
  shows "set (number_rows (next_id (tdb st)) rows) \<subseteq> set (readings (tdb st'))" "roster_wf (robots (tdb st'))"
  using assms mark_seen_laws [OF _ assms(3)] latest_by_robot_laws
  by (auto simp: ingest_batch_def insert_many_def announce_def Let_def split: if_splits)

end
