(* ===== verification/FleetRateLimit.thy ===== *)
theory FleetRateLimit
  imports FleetConfig
begin

text \<open>
  The rate limiter of \<open>backend/app/middleware.py\<close>: which budget a request draws on, whose
  address it is charged to, the in-process and the Redis sliding window behind one interface,
  and the middleware around them. \<open>time.time()\<close> is read once per check and is an argument, as
  are the random part of a sorted-set member and what Redis answers.
\<close>

section \<open>Which budget, whose address\<close>

definition rate_limit_bucket :: "string \<Rightarrow> string \<Rightarrow> string option" where
  "rate_limit_bucket meth path =
     (if meth \<noteq> ''POST'' then None
      else if py_endswith path ''/telemetry'' \<or> py_endswith path ''/telemetry/batch'' then Some ''ingest''
      else if py_endswith path ''/auth/ticket'' then Some ''console''
      else if py_contains ''/commands/'' path \<and> \<not> py_endswith path ''/claim'' then Some ''console''
      else None)"

text \<open>
  An ASGI scope: what the code reads of it. \<open>sc_header\<close> is what Starlette's \<open>Headers\<close> answers
  for a lower-case header name.
\<close>

record scope =
  sc_type :: string
  sc_method :: string
  sc_path :: string
  sc_client :: "string option"
  sc_header :: "string \<Rightarrow> string option"

definition client_ip_from_scope :: "scope \<Rightarrow> int \<Rightarrow> string" where
  "client_ip_from_scope sc proxies =
     (let fallback = (case sc_client sc of Some ip \<Rightarrow> ip | None \<Rightarrow> ''unknown'')
      in if proxies \<le> 0 then fallback
         else if \<not> truthy_str (sc_header sc ''x-forwarded-for'') then fallback
         else let hops = filter (\<lambda>h. h \<noteq> []) (map py_strip (py_split (CHR '','') (the (sc_header sc ''x-forwarded-for''))))
              in if hops = [] then fallback
                 else hops ! nat (max (int (length hops) - proxies) 0))"

section \<open>The two sliding windows\<close>

type_synonym windows = "string \<Rightarrow> instant list option"

definition check_rate_limit_memory ::
  "string \<Rightarrow> int \<Rightarrow> int \<Rightarrow> string \<Rightarrow> instant \<Rightarrow> windows \<Rightarrow> bool \<times> windows"
where
  "check_rate_limit_memory client_ip max_requests window_seconds bucket now ws =
     (let key = bucket @ '':'' @ client_ip;
          cutoff = now - seconds window_seconds;
          timestamps = (case ws key of Some ts \<Rightarrow> ts | None \<Rightarrow> []);
          fresh = filter (\<lambda>t. cutoff < t) timestamps;
          allowed = int (length fresh) < max_requests
      in (allowed, ws(key \<mapsto> fresh @ [now])))"

text \<open>
  The Redis pipeline ZREMRANGEBYSCORE, ZCARD, ZADD, EXPIRE as one call: the server's state, the
  key, the cutoff, the member, the score and the lifetime in seconds; \<open>None\<close> is any exception,
  otherwise ZCARD's answer and the new state.
\<close>

type_synonym 'r pipeline = "'r \<Rightarrow> string \<Rightarrow> instant \<Rightarrow> string \<Rightarrow> instant \<Rightarrow> int \<Rightarrow> (nat \<times> 'r) option"

definition check_rate_limit_redis ::
  "'r pipeline \<Rightarrow> string \<Rightarrow> int \<Rightarrow> int \<Rightarrow> string \<Rightarrow> instant \<Rightarrow> string \<Rightarrow> 'r \<Rightarrow> bool \<times> 'r"
where
  "check_rate_limit_redis pipe client_ip max_requests window_seconds bucket now member r =
     (let key = ''rate_limit:'' @ bucket @ '':'' @ client_ip
      in case pipe r key (now - seconds window_seconds) member now window_seconds of
           None \<Rightarrow> (True, r)
         | Some (count_before_insert, r') \<Rightarrow> (int count_before_insert < max_requests, r'))"

record 'r limiter_state =
  memory_windows :: windows
  redis_client :: "'r option"

definition check_rate_limit ::
  "'r pipeline \<Rightarrow> settings \<Rightarrow> string \<Rightarrow> int \<Rightarrow> int \<Rightarrow> string \<Rightarrow> instant \<Rightarrow> string \<Rightarrow> 'r limiter_state
   \<Rightarrow> bool \<times> 'r limiter_state"
where
  "check_rate_limit pipe cfg client_ip max_requests window_seconds bucket now member st =
     (if rate_limit_backend cfg = ''memory'' then
        (case check_rate_limit_memory client_ip max_requests window_seconds bucket now (memory_windows st) of
           (allowed, ws) \<Rightarrow> (allowed, st\<lparr>memory_windows := ws\<rparr>))
      else case redis_client st of
        None \<Rightarrow> (True, st)
      | Some r \<Rightarrow>
          (case check_rate_limit_redis pipe client_ip max_requests window_seconds bucket now member r of
             (allowed, r') \<Rightarrow> (allowed, st\<lparr>redis_client := Some r'\<rparr>)))"

section \<open>The middleware\<close>

record limiter_cfg =
  lc_max_requests :: int
  lc_console_max_requests :: int
  lc_window_seconds :: int
  lc_trusted_proxy_count :: int

definition limiter_of_settings :: "settings \<Rightarrow> limiter_cfg" where
  "limiter_of_settings cfg =
     \<lparr>lc_max_requests = rate_limit_per_minute cfg, lc_console_max_requests = console_rate_limit_per_minute cfg,
      lc_window_seconds = 60, lc_trusted_proxy_count = trusted_proxy_count cfg\<rparr>"

definition budget :: "limiter_cfg \<Rightarrow> string \<Rightarrow> int" where
  "budget lc bucket = (if bucket = ''console'' then lc_console_max_requests lc else lc_max_requests lc)"

record http_response =
  hr_status :: int
  hr_content :: json_obj
  hr_headers :: "(string \<times> string) list"

definition rate_limited_response :: "int \<Rightarrow> http_response" where
  "rate_limited_response window_seconds =
     \<lparr>hr_status = 429, hr_content = [(''detail'', JStr ''Too many requests. Please try again later.'')],
      hr_headers = [(''Retry-After'', int_str window_seconds)]\<rparr>"

text \<open>A request goes on to the application, or is answered here.\<close>

datatype verdict = PassOn | Answer http_response

definition rate_limit_call ::
  "'r pipeline \<Rightarrow> settings \<Rightarrow> limiter_cfg \<Rightarrow> scope \<Rightarrow> instant \<Rightarrow> string \<Rightarrow> 'r limiter_state
   \<Rightarrow> verdict \<times> 'r limiter_state"
where
  "rate_limit_call pipe cfg lc sc now member st =
     (case (if sc_type sc = ''http'' then rate_limit_bucket (sc_method sc) (sc_path sc) else None) of
        None \<Rightarrow> (PassOn, st)
      | Some bucket \<Rightarrow>
          (case check_rate_limit pipe cfg (client_ip_from_scope sc (lc_trusted_proxy_count lc))
                  (budget lc bucket) (lc_window_seconds lc) bucket now member st of
             (allowed, st') \<Rightarrow>
               if allowed then (PassOn, st') else (Answer (rate_limited_response (lc_window_seconds lc)), st')))"

text \<open>
  The \<open>BaseHTTPMiddleware\<close> version: Starlette passes other scope types on before \<open>dispatch\<close>.
\<close>

definition legacy_rate_limit_dispatch ::
  "'r pipeline \<Rightarrow> settings \<Rightarrow> limiter_cfg \<Rightarrow> scope \<Rightarrow> instant \<Rightarrow> string \<Rightarrow> 'r limiter_state
   \<Rightarrow> verdict \<times> 'r limiter_state"
where
  "legacy_rate_limit_dispatch pipe cfg lc sc now member st =
     (case rate_limit_bucket (sc_method sc) (sc_path sc) of
        None \<Rightarrow> (PassOn, st)
      | Some bucket \<Rightarrow>
          (let quota = (if bucket = ''console'' then lc_console_max_requests lc else lc_max_requests lc);
               client_ip = client_ip_from_scope sc (lc_trusted_proxy_count lc);
               (allowed, st') = check_rate_limit pipe cfg client_ip quota (lc_window_seconds lc) bucket now member st
           in if \<not> allowed then (Answer (rate_limited_response (lc_window_seconds lc)), st') else (PassOn, st')))"

section \<open>The contract of a sliding window\<close>

text \<open>
  A limiter checks requests that carry a key and a time. \<open>remembered s k t\<close> is the number of
  requests of key \<open>k\<close> it remembers in the window that ends at \<open>t\<close>; \<open>inv s t\<close> is what holds of
  a state that was last touched at \<open>t\<close>, and \<open>usable\<close> what the check needs of the request.
\<close>

fun limiter_run :: "('s \<Rightarrow> 'q \<Rightarrow> bool \<times> 's) \<Rightarrow> 's \<Rightarrow> 'q list \<Rightarrow> bool list" where
  "limiter_run check s [] = []"
| "limiter_run check s (q # qs) = fst (check s q) # limiter_run check (snd (check s q)) qs"

fun usable_run :: "('s \<Rightarrow> 'q \<Rightarrow> bool) \<Rightarrow> ('s \<Rightarrow> 'q \<Rightarrow> bool \<times> 's) \<Rightarrow> 's \<Rightarrow> 'q list \<Rightarrow> bool" where
  "usable_run usable check s [] = True"
| "usable_run usable check s (q # qs) = (usable s q \<and> usable_run usable check (snd (check s q)) qs)"

locale sliding_window =
  fixes w :: int and quota :: "'q \<Rightarrow> int"
    and check :: "'s \<Rightarrow> 'q \<Rightarrow> bool \<times> 's"
    and key :: "'q \<Rightarrow> string" and time :: "'q \<Rightarrow> instant"
    and usable :: "'s \<Rightarrow> 'q \<Rightarrow> bool" and inv :: "'s \<Rightarrow> instant \<Rightarrow> bool"
    and remembered :: "'s \<Rightarrow> string \<Rightarrow> instant \<Rightarrow> nat"
  assumes decision: "inv s t0 \<Longrightarrow> t0 \<le> time q \<Longrightarrow> usable s q \<Longrightarrow>
      fst (check s q) \<longleftrightarrow> int (remembered s (key q) (time q)) < quota q"
    and recorded: "inv s t0 \<Longrightarrow> t0 \<le> time q \<Longrightarrow> usable s q \<Longrightarrow> time q \<le> t \<Longrightarrow>
      remembered (snd (check s q)) k t = remembered s k t + (if k = key q \<and> t - w < time q then 1 else 0)"
    and inv_step: "inv s t0 \<Longrightarrow> t0 \<le> time q \<Longrightarrow> usable s q \<Longrightarrow> inv (snd (check s q)) (time q)"

text \<open>
  The reference: a request is allowed when fewer than \<open>quota\<close> requests of its key, allowed or
  not, came before it within the window that ends at its time.
\<close>

definition seen :: "int \<Rightarrow> ('q \<Rightarrow> string) \<Rightarrow> ('q \<Rightarrow> instant) \<Rightarrow> 'q list \<Rightarrow> string \<Rightarrow> instant \<Rightarrow> nat" where
  "seen w key time qs k t = length (filter (\<lambda>q. key q = k \<and> t - w < time q) qs)"

fun decide :: "int \<Rightarrow> ('q \<Rightarrow> int) \<Rightarrow> ('q \<Rightarrow> string) \<Rightarrow> ('q \<Rightarrow> instant) \<Rightarrow> 'q list \<Rightarrow> 'q list \<Rightarrow> bool list" where
  "decide w quota key time prev [] = []"
| "decide w quota key time prev (q # qs) =
     (int (seen w key time prev (key q) (time q)) < quota q) # decide w quota key time (prev @ [q]) qs"

definition admitted :: "'q list \<Rightarrow> bool list \<Rightarrow> 'q list" where
  "admitted qs ds = map fst (filter snd (zip qs ds))"

lemma length_decide [simp]: "length (decide w quota key time prev qs) = length qs"
  by (induction qs arbitrary: prev) auto

lemma decide_snoc:
  "decide w quota key time prev (qs @ [q]) =
   decide w quota key time prev qs @ [int (seen w key time (prev @ qs) (key q) (time q)) < quota q]"
  by (induction qs arbitrary: prev) auto

lemma admitted_snoc:
  "length ds = length qs \<Longrightarrow> admitted (qs @ [q]) (ds @ [d]) = admitted qs ds @ (if d then [q] else [])"
  by (simp add: admitted_def)

lemma admitted_filter_le: "length ds = length qs \<Longrightarrow> length (filter P (admitted qs ds)) \<le> length (filter P qs)"
  by (induction qs ds rule: list_induct2') (auto simp: admitted_def)

text \<open>No window of length \<open>w\<close> holds more admitted requests of a key than the budget.\<close>

lemma decide_window_bound:
  assumes "\<forall>q \<in> set qs. key q = k \<longrightarrow> quota q = n"
  shows "int (length (filter (\<lambda>q. key q = k \<and> t - w < time q \<and> time q \<le> t)
     (admitted qs (decide w quota key time [] qs)))) \<le> max n 0"
  using assms
proof (induction qs rule: rev_induct)
  case Nil
  show ?case by (simp add: admitted_def)
next
  case (snoc q qs)
  let ?P = "\<lambda>q. key q = k \<and> t - w < time q \<and> time q \<le> t"
  let ?a = "admitted qs (decide w quota key time [] qs)"
  let ?d = "int (seen w key time qs (key q) (time q)) < quota q"
  have adm: "admitted (qs @ [q]) (decide w quota key time [] (qs @ [q])) = ?a @ (if ?d then [q] else [])"
    by (simp add: decide_snoc admitted_snoc)
  show ?case
  proof (cases "?d \<and> ?P q")
    case True
    have "length (filter ?P ?a) \<le> length (filter ?P qs)"
      by (rule admitted_filter_le) simp
    also have "\<dots> \<le> seen w key time qs (key q) (time q)"
      using True unfolding seen_def by (intro length_filter_mono) auto
    finally have "int (length (filter ?P ?a)) < n" using True snoc.prems by auto
    with True adm show ?thesis by simp
  next
    case False
    with snoc adm show ?thesis by (auto split: if_splits)
  qed
qed

context sliding_window
begin

lemma run_decide_from:
  assumes "inv s t0" "\<forall>q \<in> set qs. t0 \<le> time q" "sorted (map time qs)" "usable_run usable check s qs"
    and "\<And>k t. t0 \<le> t \<Longrightarrow> remembered s k t = seen w key time prev k t"
  shows "limiter_run check s qs = decide w quota key time prev qs"
  using assms
proof (induction qs arbitrary: s t0 prev)
  case (Cons q qs)
  let ?s = "snd (check s q)"
  have q: "t0 \<le> time q" "usable s q" using Cons.prems by auto
  have dec: "fst (check s q) \<longleftrightarrow> int (seen w key time prev (key q) (time q)) < quota q"
    using decision [OF Cons.prems(1) q] Cons.prems(5) [OF q(1)] by simp
  have "remembered ?s k t = seen w key time (prev @ [q]) k t" if "time q \<le> t" for k t
    using recorded [OF Cons.prems(1) q that] Cons.prems(5) [of t k] q(1) that by (simp add: seen_def)
  then have "limiter_run check ?s qs = decide w quota key time (prev @ [q]) qs"
    using Cons.prems inv_step [OF Cons.prems(1) q] by (intro Cons.IH [of _ "time q"]) auto
  with dec show ?case by simp
qed simp

lemma run_decide:
  assumes "inv s t0" "\<forall>q \<in> set qs. t0 \<le> time q" "sorted (map time qs)" "usable_run usable check s qs"
    and "\<And>k t. t0 \<le> t \<Longrightarrow> remembered s k t = 0"
  shows "limiter_run check s qs = decide w quota key time [] qs"
  using assms by (intro run_decide_from) (auto simp: seen_def)

end

section \<open>Both backends meet it\<close>

text \<open>
  A request of the limiter: the bucket, the client address, the time and, for Redis, the
  member. The windows of the two backends are keyed by different strings for the same
  bucket and address, so requests are compared by \<open>bucket:address\<close>.
\<close>

record limit_request =
  lq_bucket :: string
  lq_ip :: string
  lq_time :: instant
  lq_member :: string

definition lq_key :: "limit_request \<Rightarrow> string" where
  "lq_key q = lq_bucket q @ '':'' @ lq_ip q"

definition memory_check :: "(string \<Rightarrow> int) \<Rightarrow> int \<Rightarrow> windows \<Rightarrow> limit_request \<Rightarrow> bool \<times> windows" where
  "memory_check quota window_seconds ws q =
     check_rate_limit_memory (lq_ip q) (quota (lq_bucket q)) window_seconds (lq_bucket q) (lq_time q) ws"

definition memory_remembered :: "int \<Rightarrow> windows \<Rightarrow> string \<Rightarrow> instant \<Rightarrow> nat" where
  "memory_remembered window_seconds ws k t =
     length (filter (\<lambda>s. t - seconds window_seconds < s) (case ws k of Some ts \<Rightarrow> ts | None \<Rightarrow> []))"

lemma filter_cutoff:
  "c \<le> (c' :: int) \<Longrightarrow> filter (\<lambda>s. c' < s) (filter (\<lambda>s. c < s) ts) = filter (\<lambda>s. c' < s) ts"
  by (induction ts) auto

interpretation memory: sliding_window "seconds window_seconds" "\<lambda>q. quota (lq_bucket q)" "memory_check quota window_seconds"
  lq_key lq_time "\<lambda>s q. True" "\<lambda>s t. True" "memory_remembered window_seconds"
  by unfold_locales
     (auto simp: memory_check_def check_rate_limit_memory_def memory_remembered_def lq_key_def Let_def filter_cutoff
       simp del: filter_filter)

text \<open>
  What Redis documents of the four commands, seen through \<open>zset r t k\<close>, the members and
  scores the sorted set at key \<open>k\<close> holds at time \<open>t\<close> in state \<open>r\<close>: entries scored from 0 to
  the cutoff go, the rest are counted, the member is written with its score, and the key
  disappears when its lifetime has passed untouched. Other keys are not affected.
\<close>

definition zset_pipeline_ok ::
  "'r pipeline \<Rightarrow> ('r \<Rightarrow> instant \<Rightarrow> string \<Rightarrow> (string \<times> instant) list) \<Rightarrow> bool"
where
  "zset_pipeline_ok pipe zset \<longleftrightarrow>
     (\<forall>r key cutoff member now life n r'. pipe r key cutoff member now life = Some (n, r') \<longrightarrow>
        (let live = filter (\<lambda>(m, s). \<not> (0 \<le> s \<and> s \<le> cutoff)) (zset r now key)
         in n = length live
            \<and> (\<forall>t \<ge> now. zset r' t key =
                 (if t < now + seconds life then filter (\<lambda>(m, s). m \<noteq> member) live @ [(member, now)] else []))
            \<and> (\<forall>t k. k \<noteq> key \<longrightarrow> zset r' t k = zset r t k)))"

definition redis_check :: "'r pipeline \<Rightarrow> (string \<Rightarrow> int) \<Rightarrow> int \<Rightarrow> 'r \<Rightarrow> limit_request \<Rightarrow> bool \<times> 'r" where
  "redis_check pipe quota window_seconds r q =
     check_rate_limit_redis pipe (lq_ip q) (quota (lq_bucket q)) window_seconds (lq_bucket q) (lq_time q) (lq_member q) r"

definition redis_key :: "string \<Rightarrow> string" where
  "redis_key k = ''rate_limit:'' @ k"

lemma redis_key_inject [simp]: "redis_key k = redis_key k' \<longleftrightarrow> k = k'"
  by (simp add: redis_key_def)

definition redis_remembered ::
  "('r \<Rightarrow> instant \<Rightarrow> string \<Rightarrow> (string \<times> instant) list) \<Rightarrow> int \<Rightarrow> 'r \<Rightarrow> string \<Rightarrow> instant \<Rightarrow> nat"
where
  "redis_remembered zset window_seconds r k t =
     length (filter (\<lambda>(m, s). t - seconds window_seconds < s) (zset r t (redis_key k)))"

text \<open>The pipeline answers, and the member (time and random digits) is not in the set yet.\<close>

definition redis_usable ::
  "'r pipeline \<Rightarrow> ('r \<Rightarrow> instant \<Rightarrow> string \<Rightarrow> (string \<times> instant) list) \<Rightarrow> int \<Rightarrow> 'r \<Rightarrow> limit_request \<Rightarrow> bool"
where
  "redis_usable pipe zset window_seconds r q \<longleftrightarrow>
     0 \<le> lq_time q
     \<and> pipe r (redis_key (lq_key q)) (lq_time q - seconds window_seconds) (lq_member q) (lq_time q) window_seconds \<noteq> None
     \<and> lq_member q \<notin> fst ` set (zset r (lq_time q) (redis_key (lq_key q)))"

definition redis_inv ::
  "('r \<Rightarrow> instant \<Rightarrow> string \<Rightarrow> (string \<times> instant) list) \<Rightarrow> int \<Rightarrow> 'r \<Rightarrow> instant \<Rightarrow> bool"
where
  "redis_inv zset window_seconds r t0 \<longleftrightarrow>
     (\<forall>k t. t0 \<le> t \<longrightarrow> (\<forall>(m, s) \<in> set (zset r t k). 0 \<le> s \<and> s \<le> t0)) \<and>
     (\<forall>k t t'. t0 \<le> t \<longrightarrow> t \<le> t' \<longrightarrow>
        filter (\<lambda>(m, s). t' - seconds window_seconds < s) (zset r t' k) =
        filter (\<lambda>(m, s). t' - seconds window_seconds < s) (zset r t k))"

lemma redis_check_eq:
  assumes pipeline_ok: "zset_pipeline_ok pipe zset"
    and inv: "redis_inv zset window_seconds r t0" and le: "t0 \<le> lq_time q"
    and us: "redis_usable pipe zset window_seconds r q"
  shows "\<exists>live r'. redis_check pipe quota window_seconds r q = (int (length live) < quota (lq_bucket q), r')
    \<and> live = filter (\<lambda>(m, s). lq_time q - seconds window_seconds < s) (zset r (lq_time q) (redis_key (lq_key q)))
    \<and> (\<forall>t \<ge> lq_time q. zset r' t (redis_key (lq_key q)) =
         (if t < lq_time q + seconds window_seconds then live @ [(lq_member q, lq_time q)] else []))
    \<and> (\<forall>t k. k \<noteq> redis_key (lq_key q) \<longrightarrow> zset r' t k = zset r t k)"
proof -
  obtain n r' where p: "pipe r (redis_key (lq_key q)) (lq_time q - seconds window_seconds) (lq_member q) (lq_time q) window_seconds = Some (n, r')"
    using us by (auto simp: redis_usable_def)
  let ?live = "filter (\<lambda>(m, s). lq_time q - seconds window_seconds < s) (zset r (lq_time q) (redis_key (lq_key q)))"
  have nonneg: "\<forall>(m, s) \<in> set (zset r (lq_time q) (redis_key (lq_key q))). 0 \<le> s"
    using inv le unfolding redis_inv_def by fast
  have live: "filter (\<lambda>(m, s). \<not> (0 \<le> s \<and> s \<le> lq_time q - seconds window_seconds)) (zset r (lq_time q) (redis_key (lq_key q))) = ?live"
    using nonneg by (intro filter_cong) auto
  have fresh: "filter (\<lambda>(m, s). m \<noteq> lq_member q) ?live = ?live"
    using us unfolding redis_usable_def filter_id_conv by force
  have facts: "n = length ?live"
    "\<forall>t \<ge> lq_time q. zset r' t (redis_key (lq_key q)) =
       (if t < lq_time q + seconds window_seconds then ?live @ [(lq_member q, lq_time q)] else [])"
    "\<forall>t k. k \<noteq> redis_key (lq_key q) \<longrightarrow> zset r' t k = zset r t k"
    using pipeline_ok [unfolded zset_pipeline_ok_def Let_def, rule_format, OF p] live fresh by auto
  have "redis_check pipe quota window_seconds r q = (int n < quota (lq_bucket q), r')"
    using p by (simp add: redis_check_def check_rate_limit_redis_def lq_key_def redis_key_def)
  with facts show ?thesis by blast
qed

text \<open>So the Redis limiter is a sliding window for every server that keeps these promises.\<close>

lemma redis_sliding_window:
  assumes ok: "zset_pipeline_ok pipe zset"
  shows "sliding_window (seconds window_seconds) (\<lambda>q. quota (lq_bucket q)) (redis_check pipe quota window_seconds) lq_key lq_time
    (redis_usable pipe zset window_seconds) (redis_inv zset window_seconds) (redis_remembered zset window_seconds)"
proof
  fix r t0 q
  assume inv: "redis_inv zset window_seconds r t0" and le: "t0 \<le> lq_time q"
    and us: "redis_usable pipe zset window_seconds r q"
  let ?w = "seconds window_seconds"
  let ?f = "\<lambda>t. filter (\<lambda>(m :: string, s). t - ?w < s)"
  let ?x = "\<lambda>t. if t - ?w < lq_time q then [(lq_member q, lq_time q)] else []"
  obtain live r' where chk: "redis_check pipe quota window_seconds r q = (int (length live) < quota (lq_bucket q), r')"
    and live: "live = ?f (lq_time q) (zset r (lq_time q) (redis_key (lq_key q)))"
    and new: "\<forall>t \<ge> lq_time q. zset r' t (redis_key (lq_key q)) = (if t < lq_time q + ?w then live @ [(lq_member q, lq_time q)] else [])"
    and oth: "\<forall>t k. k \<noteq> redis_key (lq_key q) \<longrightarrow> zset r' t k = zset r t k"
    using redis_check_eq [OF ok inv le us] by blast
  have scores: "\<forall>(m, s) \<in> set (zset r t k). 0 \<le> s \<and> s \<le> t0" if "t0 \<le> t" for t k
    using inv that unfolding redis_inv_def by blast
  have same: "?f t' (zset r t' k) = ?f t' (zset r t k)" if "t0 \<le> t" "t \<le> t'" for t t' k
    using inv that unfolding redis_inv_def by blast
  show "fst (redis_check pipe quota window_seconds r q) \<longleftrightarrow>
      int (redis_remembered zset window_seconds r (lq_key q) (lq_time q)) < quota (lq_bucket q)"
    by (simp add: chk live redis_remembered_def)
  have cut: "?f t live = ?f t (zset r t (redis_key (lq_key q)))" if "lq_time q \<le> t" for t
  proof -
    have "?f t live = ?f t (zset r (lq_time q) (redis_key (lq_key q)))"
      using that by (auto simp: live intro!: filter_cong)
    then show ?thesis using same [OF le that] by simp
  qed
  have old: "s \<le> lq_time q \<and> 0 \<le> s" if "(m, s) \<in> set live" for m s
    using scores [OF le, of "redis_key (lq_key q)"] that le by (auto simp: live)
  have own: "?f t' (zset r' t (redis_key (lq_key q))) = ?f t' (zset r t' (redis_key (lq_key q))) @ ?x t'" if "lq_time q \<le> t" "t \<le> t'" for t t'
  proof (cases "t < lq_time q + ?w")
    case True
    with new that have "?f t' (zset r' t (redis_key (lq_key q))) = ?f t' live @ ?x t'" by simp
    with cut [of t'] that show ?thesis by simp
  next
    case False
    have "?f t' live = []" using old False that by (force simp: filter_empty_conv)
    with False new cut [of t'] that show ?thesis by simp
  qed
  show "redis_remembered zset window_seconds (snd (redis_check pipe quota window_seconds r q)) k t =
     redis_remembered zset window_seconds r k t + (if k = lq_key q \<and> t - seconds window_seconds < lq_time q then 1 else 0)"
    if "lq_time q \<le> t" for k t
  proof (cases "k = lq_key q")
    case True
    with own [OF that order_refl] show ?thesis by (simp add: chk redis_remembered_def)
  next
    case False
    with oth show ?thesis by (simp add: chk redis_remembered_def)
  qed
  show "redis_inv zset window_seconds (snd (redis_check pipe quota window_seconds r q)) (lq_time q)"
    unfolding redis_inv_def
  proof (intro conjI allI impI)
    fix k t
    assume t: "lq_time q \<le> t"
    show "\<forall>(m, s) \<in> set (zset (snd (redis_check pipe quota window_seconds r q)) t k). 0 \<le> s \<and> s \<le> lq_time q"
    proof (cases "k = redis_key (lq_key q)")
      case True
      with new t old us show ?thesis by (auto simp: chk redis_usable_def)
    next
      case False
      with oth scores [of t k] le t show ?thesis by (fastforce simp: chk)
    qed
  next
    fix k t t'
    assume t: "lq_time q \<le> t" "t \<le> t'"
    show "?f t' (zset (snd (redis_check pipe quota window_seconds r q)) t' k) =
        ?f t' (zset (snd (redis_check pipe quota window_seconds r q)) t k)"
    proof (cases "k = redis_key (lq_key q)")
      case True
      with own [OF t] own [of t' t'] t show ?thesis by (simp add: chk)
    next
      case False
      with oth same [of t t' k] le t show ?thesis by (simp add: chk)
    qed
  qed
qed

section \<open>Streams of requests through the middleware\<close>

text \<open>What a request is charged to: nothing, or a bucket and a client address.\<close>

definition charged :: "limiter_cfg \<Rightarrow> scope \<Rightarrow> (string \<times> string) option" where
  "charged lc sc =
     map_option (\<lambda>b. (b, client_ip_from_scope sc (lc_trusted_proxy_count lc)))
       (if sc_type sc = ''http'' then rate_limit_bucket (sc_method sc) (sc_path sc) else None)"

type_synonym arrival = "scope \<times> instant \<times> string"

fun mw_run ::
  "'r pipeline \<Rightarrow> settings \<Rightarrow> limiter_cfg \<Rightarrow> 'r limiter_state \<Rightarrow> arrival list \<Rightarrow> verdict list"
where
  "mw_run pipe cfg lc st [] = []"
| "mw_run pipe cfg lc st ((sc, now, member) # reqs) =
     (let (v, st') = rate_limit_call pipe cfg lc sc now member st in v # mw_run pipe cfg lc st' reqs)"

definition to_request :: "limiter_cfg \<Rightarrow> arrival \<Rightarrow> limit_request option" where
  "to_request lc = (\<lambda>(sc, now, member). map_option (\<lambda>(b, ip).
      \<lparr>lq_bucket = b, lq_ip = ip, lq_time = now, lq_member = member\<rparr>) (charged lc sc))"

lemma bucket_names: "rate_limit_bucket m p = Some b \<Longrightarrow> b = ''ingest'' \<or> b = ''console''"
  by (auto simp: rate_limit_bucket_def split: if_splits)

lemma charged_bucket: "charged lc sc = Some (b, ip) \<Longrightarrow> b = ''ingest'' \<or> b = ''console''"
  by (auto simp: charged_def dest: bucket_names split: if_splits)

lemma bucket_key_inject:
  "b \<in> {''ingest'', ''console''} \<Longrightarrow> b' \<in> {''ingest'', ''console''} \<Longrightarrow>
   b @ '':'' @ ip = b' @ '':'' @ ip' \<longleftrightarrow> b = b' \<and> ip = ip'"
  by auto

lemma rate_limit_call_charged:
  assumes "rate_limit_backend cfg = ''memory''"
  shows "rate_limit_call pipe cfg lc sc now member st =
    (case to_request lc (sc, now, member) of
       None \<Rightarrow> (PassOn, st)
     | Some q \<Rightarrow>
         (let (ok, ws) = memory_check (budget lc) (lc_window_seconds lc) (memory_windows st) q
          in (if ok then PassOn else Answer (rate_limited_response (lc_window_seconds lc)), st\<lparr>memory_windows := ws\<rparr>)))"
  using assms
  by (auto simp: rate_limit_call_def to_request_def charged_def check_rate_limit_def memory_check_def
      split: option.splits prod.splits)

definition arrivals :: "limiter_cfg \<Rightarrow> arrival list \<Rightarrow> limit_request list" where
  "arrivals lc reqs = List.map_filter (to_request lc) reqs"

lemma mw_run_limiter:
  assumes mem: "rate_limit_backend cfg = ''memory''"
    and P: "\<And>x q. P x \<Longrightarrow> to_request lc x = Some q \<Longrightarrow> Q q" "\<And>x. P x \<Longrightarrow> to_request lc x \<noteq> None"
  shows "length (filter (\<lambda>(x, v). P x \<and> v = PassOn) (zip reqs (mw_run pipe cfg lc st reqs))) \<le>
    length (filter Q (admitted (arrivals lc reqs)
      (limiter_run (memory_check (budget lc) (lc_window_seconds lc)) (memory_windows st) (arrivals lc reqs))))"
proof (induction reqs arbitrary: st)
  case Nil
  show ?case by simp
next
  case (Cons a reqs)
  obtain sc now member where a: "a = (sc, now, member)" by (cases a)
  show ?case
  proof (cases "to_request lc a")
    case None
    then have "\<not> P a" using P(2) by blast
    with None Cons [of st] show ?thesis
      by (simp add: a rate_limit_call_charged [OF mem] arrivals_def map_filter_simps)
  next
    case (Some q)
    obtain ok ws where c: "memory_check (budget lc) (lc_window_seconds lc) (memory_windows st) q = (ok, ws)"
      by fastforce
    have "P a \<Longrightarrow> Q q" using P(1) Some by blast
    with Some c Cons [of "st\<lparr>memory_windows := ws\<rparr>"] show ?thesis
      by (auto simp: a rate_limit_call_charged [OF mem] arrivals_def map_filter_simps admitted_def)
  qed
qed

lemma arrivals_sorted: "sorted (map (\<lambda>(sc, now, m). now) reqs) \<Longrightarrow> sorted (map lq_time (arrivals lc reqs))"
proof (induction reqs)
  case (Cons a reqs)
  have "\<exists>now. lq_time q = now \<and> now \<in> (\<lambda>(sc, now, m). now) ` set reqs" if "q \<in> set (arrivals lc reqs)" for q
    using that by (force simp: arrivals_def map_filter_def to_request_def image_iff)
  with Cons show ?case
    by (cases a) (force simp: arrivals_def map_filter_simps to_request_def split: option.splits)
qed (simp add: arrivals_def map_filter_simps)

lemma arrivals_bucket: "q \<in> set (arrivals lc reqs) \<Longrightarrow> lq_bucket q \<in> {''ingest'', ''console''}"
  by (auto simp: arrivals_def map_filter_def to_request_def dest: charged_bucket)

lemma arrivals_key:
  assumes "q \<in> set (arrivals lc reqs)" "b \<in> {''ingest'', ''console''}" "lq_key q = b @ '':'' @ ip"
  shows "lq_bucket q = b"
  using bucket_key_inject [OF arrivals_bucket [OF assms(1)] assms(2)] assms(3) unfolding lq_key_def by blast

lemma usable_run_True [simp]: "usable_run (\<lambda>s q. True) check s qs"
  by (induction qs arbitrary: s) auto

lemma sorted_map_hd: "sorted (map f qs) \<Longrightarrow> \<forall>q \<in> set qs. f (hd qs) \<le> f q"
  by (cases qs) auto

lemma memory_run_decide:
  assumes "sorted (map lq_time qs)"
  shows "limiter_run (memory_check quota window_seconds) Map.empty qs =
    decide (seconds window_seconds) (\<lambda>q. quota (lq_bucket q)) lq_key lq_time [] qs"
  using assms sorted_map_hd [OF assms]
  by (intro memory.run_decide [where ?t0.0 = "lq_time (hd qs)"]) (auto simp: memory_remembered_def)

section \<open>Properties\<close>

definition post_to :: "string \<Rightarrow> string \<Rightarrow> scope" where
  "post_to path ip = \<lparr>sc_type = ''http'', sc_method = ''POST'', sc_path = path, sc_client = Some ip, sc_header = (\<lambda>h. None)\<rparr>"

definition sample_limits :: limiter_cfg where
  "sample_limits = \<lparr>lc_max_requests = 2, lc_console_max_requests = 1, lc_window_seconds = 60, lc_trusted_proxy_count = 0\<rparr>"

definition memory_settings :: settings where
  "memory_settings = demo_settings\<lparr>rate_limit_backend := ''memory''\<rparr>"


definition sample_stream :: "arrival list" where
  "sample_stream = map (\<lambda>t. (post_to ''/api/v1/telemetry'' ''10.0.0.1'', t, [])) [1000000, 2000000, 3000000]"

definition empty_limiter :: "unit limiter_state" where
  "empty_limiter = \<lparr>memory_windows = Map.empty, redis_client = None\<rparr>"


text \<open>
  C21: The two backends are interchangeable: on the same requests, with non-decreasing times,
  distinct members and a Redis that answers and keeps its documented promises, the Redis
  window and the in-process window allow and refuse exactly the same requests. In particular
  the key expiry never forgets a request that still counts.
\<close>

theorem redis_memory_equivalent:
  assumes "zset_pipeline_ok pipe zset" and "\<forall>t k. zset r t k = []" and "sorted (map lq_time qs)"
    and "usable_run (redis_usable pipe zset window_seconds) (redis_check pipe quota window_seconds) r qs"
  shows "limiter_run (redis_check pipe quota window_seconds) r qs =
    limiter_run (memory_check quota window_seconds) Map.empty qs"
proof -
  have "redis_inv zset window_seconds r (lq_time (hd qs))"
    using assms(2) by (simp add: redis_inv_def)
  then have "limiter_run (redis_check pipe quota window_seconds) r qs =
      decide (seconds window_seconds) (\<lambda>q. quota (lq_bucket q)) lq_key lq_time [] qs"
    using assms sorted_map_hd [OF assms(3)]
    by (intro sliding_window.run_decide [OF redis_sliding_window [OF assms(1)]]) (auto simp: redis_remembered_def)
  then show ?thesis by (simp add: memory_run_decide [OF assms(3)])
qed

type_synonym sample_redis = "string \<Rightarrow> (string \<times> instant) list \<times> instant"

definition sample_zset :: "sample_redis \<Rightarrow> instant \<Rightarrow> string \<Rightarrow> (string \<times> instant) list" where
  "sample_zset r t k = (if t < snd (r k) then fst (r k) else [])"

definition sample_pipe :: "sample_redis pipeline" where
  "sample_pipe r key cutoff member now life =
     (let live = filter (\<lambda>(m, s). \<not> (0 \<le> s \<and> s \<le> cutoff)) (sample_zset r now key)
      in Some (length live, r(key := (filter (\<lambda>(m, s). m \<noteq> member) live @ [(member, now)], now + seconds life))))"

lemma sample_pipe_ok: "zset_pipeline_ok sample_pipe sample_zset"
  by (auto simp: zset_pipeline_ok_def sample_pipe_def sample_zset_def Let_def)

definition sample_requests :: "limit_request list" where
  "sample_requests = map (\<lambda>(t, m). \<lparr>lq_bucket = ''console'', lq_ip = ''10.0.0.9'', lq_time = t, lq_member = m\<rparr>)
     [(1000000, ''a''), (2000000, ''b''), (61000000, ''c''), (62000000, ''d'')]"

theorem redis_memory_equivalent_witness:
  "limiter_run (redis_check sample_pipe (\<lambda>b. 2) 60) (\<lambda>k. ([], 0)) sample_requests =
   limiter_run (memory_check (\<lambda>b. 2) 60) Map.empty sample_requests"
  by (rule redis_memory_equivalent [OF sample_pipe_ok])
     (simp_all add: sample_requests_def redis_usable_def redis_check_def check_rate_limit_redis_def lq_key_def redis_key_def
       sample_pipe_def sample_zset_def Let_def seconds_def)

definition via_proxies :: "string option \<Rightarrow> string list \<Rightarrow> string option" where
  "via_proxies h addrs = fold (\<lambda>a h. Some (case h of None \<Rightarrow> a | Some s \<Rightarrow> s @ '', '' @ a)) addrs h"

definition clean_addr :: "string \<Rightarrow> bool" where
  "clean_addr a \<longleftrightarrow> a \<noteq> [] \<and> CHR '','' \<notin> set a \<and> list_all (\<lambda>ch. \<not> py_isspace ch) a"

definition hops_of :: "string option \<Rightarrow> string list" where
  "hops_of h = (case h of None \<Rightarrow> [] | Some s \<Rightarrow> filter (\<lambda>x. x \<noteq> []) (map py_strip (py_split (CHR '','') s)))"

lemma hops_append:
  assumes "clean_addr a"
  shows "hops_of (Some (case h of None \<Rightarrow> a | Some s \<Rightarrow> s @ '', '' @ a)) = hops_of h @ [a]"
proof -
  have sp: "py_split (CHR '','') a = [a]" "py_split (CHR '','') (CHR '' '' # a) = [CHR '' '' # a]"
    using assms by (auto simp: clean_addr_def py_split_no_sep)
  have st: "py_strip a = a" using assms by (simp add: clean_addr_def py_strip_none)
  then have "py_strip (CHR '' '' # a) = a" by (simp add: py_strip_def py_isspace_def)
  with sp st assms show ?thesis
    by (cases h) (simp_all add: hops_of_def py_split_append_sep clean_addr_def)
qed

lemma hops_via_proxies: "\<forall>a \<in> set addrs. clean_addr a \<Longrightarrow> hops_of (via_proxies h addrs) = hops_of h @ addrs"
proof (induction addrs arbitrary: h)
  case (Cons a addrs)
  then show ?case by (simp add: via_proxies_def hops_append)
qed (simp add: via_proxies_def)

text \<open>
  C22: A client cannot choose the address it is charged to. Whatever \<open>X-Forwarded-For\<close> it
  sends, after the trusted proxies have each appended the address they saw, the address the
  limiter uses is the one the outermost proxy saw.
\<close>

theorem client_ip_not_forgeable:
  assumes "addrs \<noteq> []" and "\<forall>a \<in> set addrs. clean_addr a"
    and "sc_header sc ''x-forwarded-for'' = via_proxies client_supplied addrs"
  shows "client_ip_from_scope sc (int (length addrs)) = hd addrs"
proof -
  have hops: "hops_of (sc_header sc ''x-forwarded-for'') = hops_of client_supplied @ addrs"
    using assms by (simp add: hops_via_proxies)
  have "hops_of None = []" "hops_of (Some []) = []" by (simp_all add: hops_of_def py_strip_def)
  with hops assms(1) obtain s where s: "sc_header sc ''x-forwarded-for'' = Some s" "s \<noteq> []"
    by (metis append_is_Nil_conv option.exhaust)
  have "(hops_of client_supplied @ addrs) ! length (hops_of client_supplied) = hd addrs"
    using assms(1) by (simp add: nth_append hd_conv_nth)
  with hops s assms(1) show ?thesis
    by (simp add: client_ip_from_scope_def Let_def hops_of_def)
qed

theorem client_ip_not_forgeable_witness:
  "client_ip_from_scope ((post_to ''/api/v1/telemetry'' ''172.16.0.1'')\<lparr>sc_header :=
     (\<lambda>h. via_proxies (Some ''1.1.1.1, 2.2.2.2'') [''9.9.9.9'', ''10.0.0.2''])\<rparr>) 2 = ''9.9.9.9''"
  using client_ip_not_forgeable [of "[''9.9.9.9'', ''10.0.0.2'']"
      "(post_to ''/api/v1/telemetry'' ''172.16.0.1'')\<lparr>sc_header := (\<lambda>h. via_proxies (Some ''1.1.1.1, 2.2.2.2'') [''9.9.9.9'', ''10.0.0.2''])\<rparr>"
      "Some ''1.1.1.1, 2.2.2.2''"]
  by (simp add: clean_addr_def py_isspace_def)

lemma seen_filter: "seen w key time (filter (\<lambda>q. key q = k) prev) k t = seen w key time prev k t"
  by (auto simp: seen_def intro!: arg_cong [where f = length] filter_cong)

lemma decide_isolated:
  "map snd (filter (\<lambda>(q, d). key q = k) (zip qs (decide w quota key time prev qs))) =
   decide w quota key time (filter (\<lambda>q. key q = k) prev) (filter (\<lambda>q. key q = k) qs)"
proof (induction qs arbitrary: prev)
  case (Cons q qs)
  then show ?case using seen_filter [of w key time k prev] by simp
qed simp

text \<open>
  Budgets are isolated: what happens to the requests of one address on one budget, in any
  mixture of traffic, is what would have happened had they been the only requests, so neither
  another client nor the same client's other budget can exhaust it.
\<close>

theorem rate_limit_isolated:
  assumes "sorted (map lq_time qs)" and "\<forall>q \<in> set qs. lq_bucket q \<in> {''ingest'', ''console''}"
    and "b \<in> {''ingest'', ''console''}"
  shows "map snd (filter (\<lambda>(q, d). lq_bucket q = b \<and> lq_ip q = ip)
           (zip qs (limiter_run (memory_check quota window_seconds) Map.empty qs))) =
    limiter_run (memory_check quota window_seconds) Map.empty (filter (\<lambda>q. lq_bucket q = b \<and> lq_ip q = ip) qs)"
proof -
  let ?k = "b @ '':'' @ ip"
  have key: "lq_key q = ?k \<longleftrightarrow> lq_bucket q = b \<and> lq_ip q = ip" if "q \<in> set qs" for q
    unfolding lq_key_def using assms(2,3) that by (intro bucket_key_inject) auto
  have "filter (\<lambda>(q, d). lq_bucket q = b \<and> lq_ip q = ip) (zip qs ds) = filter (\<lambda>(q, d). lq_key q = ?k) (zip qs ds)" for ds :: "bool list"
    using key by (intro filter_cong) (auto dest: set_zip_leftD)
  moreover have "filter (\<lambda>q. lq_bucket q = b \<and> lq_ip q = ip) qs = filter (\<lambda>q. lq_key q = ?k) qs"
    using key by (intro filter_cong) auto
  moreover have "sorted (map lq_time (filter (\<lambda>q. lq_key q = ?k) qs))"
    using assms(1) by (rule sorted_filter)
  ultimately show ?thesis
    using decide_isolated [of lq_key ?k qs] by (simp only: memory_run_decide [OF assms(1)] memory_run_decide) simp
qed

theorem rate_limit_isolated_witness:
  "map snd (filter (\<lambda>(q, d). lq_bucket q = ''console'' \<and> lq_ip q = ''10.0.0.9'')
       (zip sample_requests (limiter_run (memory_check (\<lambda>b. 2) 60) Map.empty sample_requests))) =
   limiter_run (memory_check (\<lambda>b. 2) 60) Map.empty
     (filter (\<lambda>q. lq_bucket q = ''console'' \<and> lq_ip q = ''10.0.0.9'') sample_requests)"
  by (rule rate_limit_isolated) (simp_all add: sample_requests_def)

text \<open>The benchmark baseline decides every HTTP request the same way.\<close>

lemma legacy_rate_limit_equivalent:
  "sc_type sc = ''http'' \<Longrightarrow>
   legacy_rate_limit_dispatch pipe cfg lc sc now member st = rate_limit_call pipe cfg lc sc now member st"
  by (auto simp: legacy_rate_limit_dispatch_def rate_limit_call_def budget_def Let_def split: option.splits prod.splits)

lemma redis_fails_open:
  "rate_limit_backend cfg \<noteq> ''memory'' \<Longrightarrow> redis_client st = None \<or> (\<forall>r k c m s l. pipe r k c m s l = None) \<Longrightarrow>
   fst (check_rate_limit pipe cfg ip n w b now member st)"
  by (auto simp: check_rate_limit_def check_rate_limit_redis_def Let_def split: option.splits)

end
