(* ===== verification/FleetTracing.thy ===== *)
theory FleetTracing
  imports FleetRateLimit
begin

text \<open>
  Request tracing: the two request-id middlewares and the access line (\<open>middleware.py\<close>), the
  request id in its context variable and the JSON log formatter (\<open>logging_config.py\<close>). The
  application behind a middleware is a function of the request id its task sees: what it sends
  and whether it raises. A generated identifier and the time taken are arguments.
\<close>

section \<open>Messages and headers\<close>

datatype asgi_message = ResponseStart int "(string \<times> string) list" | ResponsePart string

fun is_start :: "asgi_message \<Rightarrow> bool" where
  "is_start (ResponseStart _ _) = True"
| "is_start (ResponsePart _) = False"

text \<open>\<open>MutableHeaders.__setitem__\<close>: the first occurrence is replaced, later ones go, else it is appended.\<close>

definition set_header :: "string \<Rightarrow> string \<Rightarrow> (string \<times> string) list \<Rightarrow> (string \<times> string) list" where
  "set_header k v hs =
     (if k \<in> fst ` set hs
      then takeWhile (\<lambda>h. fst h \<noteq> k) hs @ (k, v) # filter (\<lambda>h. fst h \<noteq> k) (dropWhile (\<lambda>h. fst h \<noteq> k) hs)
      else hs @ [(k, v)])"

abbreviation REQUEST_ID_HEADER :: string where
  "REQUEST_ID_HEADER \<equiv> ''x-request-id''"

record app_run =
  ar_messages :: "asgi_message list"
  ar_raises :: bool

section \<open>The access line\<close>

record access_line =
  al_method :: string
  al_path :: string
  al_status :: int
  al_duration_ms :: rat
  al_request_id :: string

definition log_access :: "settings \<Rightarrow> scope \<Rightarrow> int \<Rightarrow> rat \<Rightarrow> string \<Rightarrow> access_line list" where
  "log_access cfg sc status_code elapsed_seconds ctx =
     (if \<not> access_log cfg \<or> sc_path sc \<in> {''/health'', ''/metrics''} then []
      else [\<lparr>al_method = sc_method sc, al_path = sc_path sc, al_status = status_code,
             al_duration_ms = py_round 2 (elapsed_seconds * 1000), al_request_id = ctx\<rparr>])"

section \<open>The middlewares\<close>

record traced =
  tr_messages :: "asgi_message list"
  tr_raises :: bool
  tr_log :: "access_line list"
  tr_context :: string

definition request_id_of :: "scope \<Rightarrow> string \<Rightarrow> string" where
  "request_id_of sc fresh_id = (if truthy_str (sc_header sc REQUEST_ID_HEADER) then the (sc_header sc REQUEST_ID_HEADER) else fresh_id)"

fun send_with_request_id :: "string \<Rightarrow> asgi_message \<Rightarrow> asgi_message" where
  "send_with_request_id rid (ResponseStart st hs) = ResponseStart st (set_header REQUEST_ID_HEADER rid hs)"
| "send_with_request_id rid (ResponsePart b) = ResponsePart b"

fun last_status :: "int \<Rightarrow> asgi_message list \<Rightarrow> int" where
  "last_status st [] = st"
| "last_status st (ResponseStart st' hs # ms) = last_status st' ms"
| "last_status st (ResponsePart b # ms) = last_status st ms"

definition request_id_call ::
  "settings \<Rightarrow> scope \<Rightarrow> string \<Rightarrow> rat \<Rightarrow> (string \<Rightarrow> app_run) \<Rightarrow> string \<Rightarrow> traced"
where
  "request_id_call cfg sc fresh_id elapsed app ctx =
     (if sc_type sc \<noteq> ''http''
      then \<lparr>tr_messages = ar_messages (app ctx), tr_raises = ar_raises (app ctx), tr_log = [], tr_context = ctx\<rparr>
      else let rid = request_id_of sc fresh_id; run = app rid
           in \<lparr>tr_messages = map (send_with_request_id rid) (ar_messages run), tr_raises = ar_raises run,
               tr_log = log_access cfg sc (last_status 500 (ar_messages run)) elapsed rid, tr_context = ctx\<rparr>)"

text \<open>
  The \<open>BaseHTTPMiddleware\<close> version sees a finished response, or the exception of an application
  that raised before it started one.
\<close>

definition legacy_request_id_dispatch ::
  "settings \<Rightarrow> scope \<Rightarrow> string \<Rightarrow> rat \<Rightarrow> (string \<Rightarrow> app_run) \<Rightarrow> string \<Rightarrow> traced"
where
  "legacy_request_id_dispatch cfg sc fresh_id elapsed app ctx =
     (let rid = request_id_of sc fresh_id; run = app rid
      in case ar_messages run of
           ResponseStart st hs # body \<Rightarrow>
             \<lparr>tr_messages = ResponseStart st (set_header REQUEST_ID_HEADER rid hs) # body, tr_raises = ar_raises run,
              tr_log = log_access cfg sc st elapsed rid, tr_context = ctx\<rparr>
         | _ \<Rightarrow> \<lparr>tr_messages = [], tr_raises = True, tr_log = log_access cfg sc 500 elapsed rid, tr_context = ctx\<rparr>)"

section \<open>Log records\<close>

definition standard_attrs :: "string list" where
  "standard_attrs =
     [''name'', ''msg'', ''args'', ''levelname'', ''levelno'', ''pathname'', ''filename'', ''module'', ''exc_info'', ''exc_text'',
      ''stack_info'', ''lineno'', ''funcName'', ''created'', ''msecs'', ''relativeCreated'', ''thread'', ''threadName'',
      ''processName'', ''process'', ''asctime'', ''message'', ''taskName'', ''request_id'', ''service'']"

record log_record =
  lr_time :: string
  lr_levelname :: string
  lr_name :: string
  lr_message :: string
  lr_exception :: "string option"
  lr_dict :: "(string \<times> json) list"

text \<open>The filter stamps the record; the formatter reads it back with \<open>-\<close> as default.\<close>

definition request_id_filter :: "string \<Rightarrow> string \<Rightarrow> log_record \<Rightarrow> log_record" where
  "request_id_filter service ctx r =
     r\<lparr>lr_dict := dict_set ''service'' (JStr service) (dict_set ''request_id'' (JStr ctx) (lr_dict r))\<rparr>"

definition attr_or_dash :: "string \<Rightarrow> log_record \<Rightarrow> json" where
  "attr_or_dash k r = (case dict_get (lr_dict r) k of Some v \<Rightarrow> v | None \<Rightarrow> JStr ''-'')"

definition json_format :: "log_record \<Rightarrow> json_obj" where
  "json_format r =
     (let base = [(''timestamp'', JStr (lr_time r)), (''level'', JStr (lr_levelname r)), (''logger'', JStr (lr_name r)),
                  (''message'', JStr (lr_message r)), (''request_id'', attr_or_dash ''request_id'' r),
                  (''service'', attr_or_dash ''service'' r)];
          payload = (case lr_exception r of Some e \<Rightarrow> dict_set ''exception'' (JStr e) base | None \<Rightarrow> base)
      in fold (\<lambda>(k, v) d. if k \<notin> set standard_attrs then dict_set k v d else d) (lr_dict r) payload)"

section \<open>Lemmas\<close>

lemma set_header_get: "filter (\<lambda>h. fst h = k) (set_header k v hs) = [(k, v)]"
proof -
  have "filter (\<lambda>h. fst h = k) (takeWhile (\<lambda>h. fst h \<noteq> k) hs) = []"
    by (auto simp: filter_empty_conv dest: set_takeWhileD)
  then show ?thesis by (auto simp: set_header_def filter_empty_conv)
qed

lemma map_send_parts: "list_all (\<lambda>m. \<not> is_start m) ms \<Longrightarrow> map (send_with_request_id rid) ms = ms"
  by (induction ms) (auto elim: is_start.elims)

lemma last_status_parts: "list_all (\<lambda>m. \<not> is_start m) ms \<Longrightarrow> last_status st ms = st"
  by (induction ms) (auto elim: is_start.elims)

text \<open>How an ASGI application behaves: one start, then parts; or it raises before sending anything.\<close>

definition app_ok :: "app_run \<Rightarrow> bool" where
  "app_ok run \<longleftrightarrow>
     (case ar_messages run of
        [] \<Rightarrow> ar_raises run
      | m # ms \<Rightarrow> is_start m \<and> list_all (\<lambda>m. \<not> is_start m) ms)"

lemma request_id_legacy:
  assumes "sc_type sc = ''http''" "app_ok (app (request_id_of sc fresh_id))"
  shows "request_id_call cfg sc fresh_id elapsed app ctx = legacy_request_id_dispatch cfg sc fresh_id elapsed app ctx"
proof (cases "ar_messages (app (request_id_of sc fresh_id))")
  case Nil
  with assms show ?thesis by (simp add: request_id_call_def legacy_request_id_dispatch_def Let_def app_ok_def)
next
  case (Cons m ms)
  with assms(2) obtain st hs where m: "m = ResponseStart st hs" and ms: "list_all (\<lambda>m. \<not> is_start m) ms"
    by (cases m) (auto simp: app_ok_def)
  with Cons assms(1) show ?thesis
    by (simp add: request_id_call_def legacy_request_id_dispatch_def Let_def map_send_parts last_status_parts)
qed

lemma request_id_header_once:
  assumes "sc_type sc = ''http''" "ResponseStart st hs \<in> set (tr_messages (request_id_call cfg sc fresh_id elapsed app ctx))"
  shows "filter (\<lambda>h. fst h = REQUEST_ID_HEADER) hs = [(REQUEST_ID_HEADER, request_id_of sc fresh_id)]"
proof -
  obtain m where "ResponseStart st hs = send_with_request_id (request_id_of sc fresh_id) m"
    using assms by (auto simp: request_id_call_def Let_def)
  then show ?thesis by (cases m) (simp_all add: set_header_get)
qed

definition sample_app :: "string \<Rightarrow> app_run" where
  "sample_app rid = \<lparr>ar_messages = [ResponseStart 200 [], ResponsePart rid], ar_raises = False\<rparr>"

definition sample_scope :: scope where
  "sample_scope = \<lparr>sc_type = ''http'', sc_method = ''GET'', sc_path = ''/'', sc_client = None, sc_header = Map.empty\<rparr>"

text \<open>Every line logged while a request is served carries its identifier, whatever the caller passes as extra fields.\<close>

lemma log_line_carries_request_id:
  "dict_get (json_format (request_id_filter service ctx r)) ''request_id'' = Some (JStr ctx)"
proof -
  have keep: "dict_get (fold (\<lambda>(k, v) d. if k \<notin> set standard_attrs then dict_set k v d else d) kvs d) k = dict_get d k"
    if "k \<in> set standard_attrs" for k kvs and d :: json_obj
    using that by (induction kvs arbitrary: d) auto
  have "''request_id'' \<in> set standard_attrs" by (simp add: standard_attrs_def)
  from keep [OF this] show ?thesis
    by (simp add: json_format_def Let_def request_id_filter_def attr_or_dash_def split: option.splits)
qed

section \<open>Installing the handlers\<close>

text \<open>
  The standard library's loggers: each has handlers and may pass its records on to its parent, up
  to the root. Of a handler the model keeps its format and the service of its filter.
\<close>

record log_handler =
  lh_json :: bool
  lh_service :: string

record logger =
  lg_handlers :: "log_handler list"
  lg_propagate :: bool

record logging_state =
  ls_root :: "log_handler list"
  ls_level :: int
  ls_loggers :: "string \<Rightarrow> logger"

text \<open>\<open>getattr(logging, name, logging.INFO)\<close> for the names of levels.\<close>

definition level_of :: "string \<Rightarrow> int" where
  "level_of name =
     (case dict_get [(''CRITICAL'', 50), (''FATAL'', 50), (''ERROR'', 40), (''WARNING'', 30), (''WARN'', 30), (''INFO'', 20),
        (''DEBUG'', 10), (''NOTSET'', 0)] name of Some l \<Rightarrow> l | None \<Rightarrow> 20)"

definition uvicorn_loggers :: "string list" where
  "uvicorn_loggers = [''uvicorn'', ''uvicorn.error'', ''uvicorn.access'']"

definition configure_logging :: "settings \<Rightarrow> string \<Rightarrow> logging_state \<Rightarrow> logging_state" where
  "configure_logging cfg service st =
     (let handler = \<lparr>lh_json = (log_format cfg = ''json''), lh_service = service\<rparr>;
          removed = fold remove1 (ls_root st) (ls_root st)
      in \<lparr>ls_root = removed @ [handler], ls_level = level_of (py_upper (log_level cfg)),
          ls_loggers = fold (\<lambda>name ls. ls(name := \<lparr>lg_handlers = [], lg_propagate = True\<rparr>)) uvicorn_loggers (ls_loggers st)\<rparr>)"

text \<open>A logger and its ancestors, nearest first, and the handlers a record of it reaches.\<close>

definition lineage_of :: "string \<Rightarrow> string list" where
  "lineage_of name =
     (let parts = py_split (CHR ''.'') name in rev (map (\<lambda>k. py_join (CHR ''.'') (take k parts)) [1..<length parts + 1]))"

fun handled_by :: "logging_state \<Rightarrow> string list \<Rightarrow> log_handler list" where
  "handled_by st [] = ls_root st"
| "handled_by st (name # names) =
     lg_handlers (ls_loggers st name) @ (if lg_propagate (ls_loggers st name) then handled_by st names else [])"

lemma fold_remove1_self [simp]: "fold remove1 xs xs = []"
  by (induction xs) simp_all

text \<open>Configuring again changes nothing more, so no line is ever emitted twice.\<close>

lemma configure_logging_idem: "configure_logging cfg service (configure_logging cfg service st) = configure_logging cfg service st"
  by (auto simp: configure_logging_def Let_def uvicorn_loggers_def)

text \<open>
  Whatever was installed before, a record of uvicorn goes through the one handler of the root,
  with its format and its request-id filter.
\<close>

lemma uvicorn_lines_formatted:
  assumes "name \<in> set uvicorn_loggers"
  shows "handled_by (configure_logging cfg service st) (lineage_of name) = [\<lparr>lh_json = (log_format cfg = ''json''), lh_service = service\<rparr>]"
proof -
  have "lineage_of name \<in> {[''uvicorn''], [''uvicorn.error'', ''uvicorn''], [''uvicorn.access'', ''uvicorn'']}"
    using assms by (auto simp: uvicorn_loggers_def lineage_of_def Let_def upt_rec)
  then show ?thesis by (auto simp: configure_logging_def uvicorn_loggers_def Let_def)
qed


end
