(* ===== verification/FleetService.thy ===== *)
theory FleetService
  imports FleetTracing FleetTelemetry
begin

text \<open>
  The application as \<open>main.py\<close> assembles it: the background tasks a process starts, the health and
  viewer routes, and the two middlewares around the routes. \<open>add_middleware\<close> puts each middleware
  around the ones added before, so a request meets the limiter first and the request-id layer
  second; the CORS layer of the framework is outside both. The tasks of the worker process
  (\<open>worker.py\<close>) are listed with them.
\<close>

section \<open>Background tasks\<close>

text \<open>The pruner's lock use, first delay and interval; the flush loop's interval, in seconds.\<close>

datatype background =
    RedisListener
  | PruneLoop bool nat nat
  | FlushLoop nat
  | SyncWorker
  | TimeoutLoop
  | HealthHeartbeat
  | StreamDepth

definition startup_tasks :: "settings \<Rightarrow> background list" where
  "startup_tasks cfg =
     (if websocket_backend cfg = ''redis'' then [RedisListener] else [])
   @ [PruneLoop (websocket_backend cfg = ''redis'') 300 1800]
   @ (if \<not> opt_redis_buffer cfg \<and> defer_writes_without_viewers cfg then [FlushLoop 600] else [])"

definition worker_main_tasks :: "background list" where
  "worker_main_tasks = [SyncWorker, PruneLoop True 0 86400, TimeoutLoop, HealthHeartbeat, StreamDepth]"

section \<open>Health and viewers\<close>

record health_response =
  he_status :: string
  he_database :: string
  he_version :: string
  he_optimizations :: "(string \<times> bool) list"

definition health_check :: "settings \<Rightarrow> bool \<Rightarrow> health_response" where
  "health_check cfg select_ok =
     (let db_status = (if select_ok then ''healthy'' else ''unhealthy'')
      in \<lparr>he_status = (if db_status = ''healthy'' then ''ok'' else ''degraded''), he_database = db_status,
          he_version = ''1.0.0'', he_optimizations = optimization_flags cfg\<rparr>)"

definition viewer_count :: "settings \<Rightarrow> string option \<Rightarrow> conn_mgr \<Rightarrow> json_obj result" where
  "viewer_count cfg x_api_key m =
     bindR (verify_api_key cfg x_api_key) (\<lambda>_. Inr [(''active_connections'', JNum (of_nat (connection_count m)))])"

section \<open>The middleware stack\<close>

text \<open>
  A limited request is answered with a JSON response, whose text \<open>dumps\<close> gives, sent past the
  request-id layer.
\<close>

definition response_messages :: "(json_obj \<Rightarrow> string) \<Rightarrow> http_response \<Rightarrow> asgi_message list" where
  "response_messages dumps r = [ResponseStart (hr_status r) (hr_headers r), ResponsePart (dumps (hr_content r))]"

definition app_stack ::
  "'r pipeline \<Rightarrow> (json_obj \<Rightarrow> string) \<Rightarrow> settings \<Rightarrow> scope \<Rightarrow> instant \<Rightarrow> string \<Rightarrow> string \<Rightarrow> rat \<Rightarrow> (string \<Rightarrow> app_run)
   \<Rightarrow> string \<Rightarrow> 'r limiter_state \<Rightarrow> traced \<times> 'r limiter_state"
where
  "app_stack pipe dumps cfg sc now member fresh_id elapsed app ctx st =
     (let lc = limiter_of_settings cfg;
          plain = \<lparr>tr_messages = ar_messages (app ctx), tr_raises = ar_raises (app ctx), tr_log = [], tr_context = ctx\<rparr>;
          (v, st') = (if opt_asgi_middleware cfg then rate_limit_call pipe cfg lc sc now member st
                      else if sc_type sc \<noteq> ''http'' then (PassOn, st)
                      else legacy_rate_limit_dispatch pipe cfg lc sc now member st)
      in (case v of
            Answer r \<Rightarrow> \<lparr>tr_messages = response_messages dumps r, tr_raises = False, tr_log = [], tr_context = ctx\<rparr>
          | PassOn \<Rightarrow>
              if opt_asgi_middleware cfg then request_id_call cfg sc fresh_id elapsed app ctx
              else if sc_type sc \<noteq> ''http'' then plain
              else legacy_request_id_dispatch cfg sc fresh_id elapsed app ctx, st'))"

section \<open>Lemmas\<close>

lemma limiter_flag [simp]: "limiter_of_settings (cfg\<lparr>opt_asgi_middleware := b\<rparr>) = limiter_of_settings cfg"
  by (simp add: limiter_of_settings_def)

lemma check_rate_limit_flag [simp]:
  "check_rate_limit pipe (cfg\<lparr>opt_asgi_middleware := b\<rparr>) = check_rate_limit pipe cfg"
  by (intro ext) (simp add: check_rate_limit_def)

lemma rate_limit_call_flag [simp]:
  "rate_limit_call pipe (cfg\<lparr>opt_asgi_middleware := b\<rparr>) = rate_limit_call pipe cfg"
  by (intro ext) (simp add: rate_limit_call_def split: option.splits)

lemma log_access_flag [simp]: "log_access (cfg\<lparr>opt_asgi_middleware := b\<rparr>) = log_access cfg"
  by (intro ext) (simp add: log_access_def)

lemma request_id_call_flag [simp]:
  "request_id_call (cfg\<lparr>opt_asgi_middleware := b\<rparr>) = request_id_call cfg"
  by (intro ext) (simp add: request_id_call_def)

lemma rate_limit_call_verdict:
  "rate_limit_call pipe cfg lc sc now member st = (Answer r, st') \<Longrightarrow>
   sc_type sc = ''http'' \<and> r = rate_limited_response (lc_window_seconds lc)"
  by (auto simp: rate_limit_call_def split: option.splits prod.splits if_splits)

text \<open>Either way of building the stack comes to this.\<close>

lemma app_stack_eq:
  assumes "sc_type sc = ''http'' \<longrightarrow> app_ok (app (request_id_of sc fresh_id))"
  shows "app_stack pipe dumps cfg sc now member fresh_id elapsed app ctx st =
     (case rate_limit_call pipe cfg (limiter_of_settings cfg) sc now member st of (v, st') \<Rightarrow>
        (case v of Answer r \<Rightarrow> \<lparr>tr_messages = response_messages dumps r, tr_raises = False, tr_log = [], tr_context = ctx\<rparr>
         | PassOn \<Rightarrow> request_id_call cfg sc fresh_id elapsed app ctx, st'))"
proof (cases "sc_type sc = ''http''")
  case True
  obtain v st' where v: "rate_limit_call pipe cfg (limiter_of_settings cfg) sc now member st = (v, st')" by fastforce
  have "request_id_call cfg sc fresh_id elapsed app ctx = legacy_request_id_dispatch cfg sc fresh_id elapsed app ctx"
    using assms True by (intro request_id_legacy) simp_all
  then show ?thesis using True v legacy_rate_limit_equivalent [OF True, of pipe cfg "limiter_of_settings cfg" now member st]
    by (cases v) (simp_all add: app_stack_def)
next
  case False
  then show ?thesis by (simp add: app_stack_def Let_def rate_limit_call_def request_id_call_def)
qed

section \<open>Properties\<close>



text \<open>
  Nothing is left in a buffer that no task empties. Under every configuration, a process whose
  ingest can leave readings in the deferred buffer starts the flush loop; one that publishes to
  Redis Streams with the \<open>redis\<close> backend starts the listener that brings the messages back to
  its own clients; with \<open>direct\<close> nothing is ever published and no listener runs. The pruner
  always runs, locked exactly when instances share Redis.
\<close>

theorem startup_drains_buffers:
  "(pending (snd (ingest cfg dump_dt viewers now data st)) \<noteq> pending st \<longrightarrow> FlushLoop 600 \<in> set (startup_tasks cfg))
   \<and> (pending (snd (ingest_batch cfg dump_dt viewers now datas st)) \<noteq> pending st \<longrightarrow> FlushLoop 600 \<in> set (startup_tasks cfg))
   \<and> (websocket_backend cfg = ''redis'' \<longrightarrow> RedisListener \<in> set (startup_tasks cfg))
   \<and> (websocket_backend cfg = ''direct'' \<longrightarrow> RedisListener \<notin> set (startup_tasks cfg)
        \<and> snd (broadcast cfg dumps xadd_ok msg stream m) = [] \<and> snd (broadcast_batch cfg dumps xadd_ok msgs stream m) = [])
   \<and> (\<exists>locked. PruneLoop locked 300 1800 \<in> set (startup_tasks cfg) \<and> (locked \<longleftrightarrow> websocket_backend cfg = ''redis''))"
  by (auto simp: startup_tasks_def ingest_def ingest_batch_def broadcast_def broadcast_batch_def announce_def buffer_rows_def Let_def
      split: sum.splits prod.splits if_splits)

definition deferring_settings :: settings where
  "deferring_settings = direct_settings\<lparr>defer_writes_without_viewers := True\<rparr>"

theorem startup_drains_buffers_witness:
  "pending (snd (ingest deferring_settings (\<lambda>d. []) 0 50 (sample_reading 40) empty_ingest)) = [(sample_reading 40, 40)]
   \<and> FlushLoop 600 \<in> set (startup_tasks deferring_settings)"
proof -
  have p: "pending (snd (ingest deferring_settings (\<lambda>d. []) 0 50 (sample_reading 40) empty_ingest)) = [(sample_reading 40, 40)]"
    by (simp add: ingest_def resolve_timestamp_def to_utc_def in_datetime_range_def sample_reading_def seconds_def
        deferring_settings_def direct_settings_def default_settings_def announce_def buffer_rows_def empty_ingest_def)
  then show ?thesis
    using startup_drains_buffers [of deferring_settings "\<lambda>d. []" 0 50 "sample_reading 40" empty_ingest "[]"
        "\<lambda>_. ()" True JNull None new_manager "[]"]
    by (simp add: empty_ingest_def)
qed

end
