(* ===== verification/FleetBenchmark.thy ===== *)
theory FleetBenchmark
  imports FleetService
begin

text \<open>
  The benchmark harness (\<open>scripts/benchmark_matrix.py\<close>): samples and their statistics, the
  experiments, the wait for the stack to come up as asked, the arms of an experiment with
  their refusal of failed runs, and what the report claims. The stack under measurement is
  outside: what a workload run measures and what \<open>/health\<close> answers are inputs. Times are exact
  rationals.
\<close>

section \<open>Samples\<close>

record sample =
  sa_successful :: nat
  sa_failed :: nat
  sa_duration_s :: rat
  sa_latencies_ms :: "rat list"
  sa_errors :: "(string \<times> nat) list"

definition empty_sample :: sample where
  "empty_sample = \<lparr>sa_successful = 0, sa_failed = 0, sa_duration_s = 0, sa_latencies_ms = [], sa_errors = []\<rparr>"

definition record_error :: "string \<Rightarrow> sample \<Rightarrow> sample" where
  "record_error reason s =
     s\<lparr>sa_failed := sa_failed s + 1,
       sa_errors := dict_set reason ((case dict_get (sa_errors s) reason of Some n \<Rightarrow> n | None \<Rightarrow> 0) + 1) (sa_errors s)\<rparr>"

definition rps :: "sample \<Rightarrow> rat" where
  "rps s = (if sa_duration_s s > 0 then of_nat (sa_successful s) / sa_duration_s s else 0)"

definition pct :: "rat \<Rightarrow> sample \<Rightarrow> rat" where
  "pct q s =
     (if sa_latencies_ms s = [] then 0
      else let ordered = sort (sa_latencies_ms s);
               idx = min \<lfloor>of_nat (length ordered) * q\<rfloor> (int (length ordered) - 1)
           in ordered ! nat idx)"

definition p50 :: "sample \<Rightarrow> rat" where "p50 = pct (50 / 100)"
definition p95 :: "sample \<Rightarrow> rat" where "p95 = pct (95 / 100)"
definition p99 :: "sample \<Rightarrow> rat" where "p99 = pct (99 / 100)"

definition mean_latency :: "sample \<Rightarrow> rat" where
  "mean_latency s =
     (if sa_latencies_ms s \<noteq> [] then sum_list (sa_latencies_ms s) / of_nat (length (sa_latencies_ms s)) else 0)"

definition median_sample :: "sample list \<Rightarrow> sample result" where
  "median_sample samples =
     (if samples = [] then Inl IndexError else Inr (sort_key p99 samples ! (length samples div 2)))"

definition pct_change :: "rat \<Rightarrow> rat \<Rightarrow> rat" where
  "pct_change baseline optimized = (if baseline = 0 then 0 else (baseline - optimized) / baseline * 100)"

definition pct_increase :: "rat \<Rightarrow> rat \<Rightarrow> rat" where
  "pct_increase baseline optimized = (if baseline = 0 then 0 else (optimized - baseline) / baseline * 100)"

section \<open>Workloads\<close>

text \<open>
  \<open>_drive\<close>: the outcomes of the requests in the order they finish, and the wall-clock time. A
  request ends with a status, its body's beginning and the time it took, or with an exception.
\<close>

datatype outcome_of_request = Replied int string rat | Raised string

fun drive_one :: "outcome_of_request \<Rightarrow> sample \<Rightarrow> sample" where
  "drive_one (Replied status body elapsed) s =
     (if status = 200 then s\<lparr>sa_successful := sa_successful s + 1, sa_latencies_ms := sa_latencies_ms s @ [elapsed]\<rparr>
      else record_error (''HTTP '' @ int_str status @ '': '' @ body) s)"
| "drive_one (Raised what) s = record_error what s"

definition drive :: "outcome_of_request list \<Rightarrow> rat \<Rightarrow> sample" where
  "drive outcomes duration = (fold drive_one outcomes empty_sample)\<lparr>sa_duration_s := duration\<rparr>"

text \<open>
  \<open>workload_worker_drain\<close>: the posts that went wrong, and the row counts read until the deadline;
  the loop stops at the first that reaches what was sent.
\<close>

fun drain_polls :: "nat \<Rightarrow> nat \<Rightarrow> nat list \<Rightarrow> nat" where
  "drain_polls expected persisted [] = persisted"
| "drain_polls expected persisted (n # ns) = (if n \<ge> expected then n else drain_polls expected n ns)"

definition worker_drain :: "nat \<Rightarrow> nat \<Rightarrow> string list \<Rightarrow> nat list \<Rightarrow> rat \<Rightarrow> sample" where
  "worker_drain rows batch_size failures polls duration =
     (let s = fold record_error failures empty_sample;
          expected = max (rows div batch_size) 1 * batch_size;
          persisted = drain_polls expected 0 polls;
          s1 = s\<lparr>sa_duration_s := duration, sa_successful := persisted\<rparr>;
          s2 = (if persisted < expected
                then record_error (''worker drained only '' @ nat_str persisted @ ''/'' @ nat_str expected @ '' rows in 180s'') s1
                else s1)
      in s2\<lparr>sa_latencies_ms := sa_latencies_ms s2 @ [duration * 1000]\<rparr>)"

text \<open>\<open>workload_ws_fanout\<close>: per client, the frames it received and whether it ended in an exception.\<close>

definition ws_fanout :: "(nat \<times> bool) list \<Rightarrow> rat \<Rightarrow> sample" where
  "ws_fanout clients duration =
     empty_sample\<lparr>sa_failed := length (filter snd clients), sa_duration_s := duration,
       sa_successful := sum_list (map fst clients)\<rparr>"

section \<open>Experiments\<close>

record bench_experiment =
  ex_key :: string
  ex_flag :: string
  ex_title :: string
  ex_claim :: string
  ex_workload :: string
  ex_baseline_label :: string
  ex_optimized_label :: string
  ex_metric :: string
  ex_total :: nat
  ex_concurrency :: nat
  ex_services :: "string list"
  ex_seed_rows :: nat
  ex_throughput_unit :: string
  ex_scale_label :: string

definition new_experiment :: "string \<Rightarrow> string \<Rightarrow> string \<Rightarrow> string \<Rightarrow> string \<Rightarrow> string \<Rightarrow> string \<Rightarrow> bench_experiment" where
  "new_experiment key flag title claim workload baseline_label optimized_label =
     \<lparr>ex_key = key, ex_flag = flag, ex_title = title, ex_claim = claim, ex_workload = workload,
      ex_baseline_label = baseline_label, ex_optimized_label = optimized_label, ex_metric = ''latency'', ex_total = 600,
      ex_concurrency = 50, ex_services = [''backend''], ex_seed_rows = 0, ex_throughput_unit = ''msg/s'',
      ex_scale_label = ''concurrency''\<rparr>"

definition EXPERIMENTS :: "bench_experiment list" where
  "EXPERIMENTS =
    [(new_experiment ''redis_buffer'' ''OPT_REDIS_BUFFER'' ''Redis Stream ingest buffer''
        ''Decoupling the write path from PostgreSQL with a Redis Stream'' ''ingest''
        ''Synchronous INSERT on request path'' ''XADD to Redis Stream, worker persists'')
       \<lparr>ex_total := 800, ex_services := [''backend'', ''worker'']\<rparr>,
     (new_experiment ''read_cache'' ''OPT_READ_CACHE'' ''Redis read-through cache''
        ''Caching computed fleet status behind a 10s TTL'' ''read_status''
        ''Recompute window-function query per request'' ''Redis cache hit'')\<lparr>ex_seed_rows := 20000\<rparr>,
     (new_experiment ''analytics_cache'' ''OPT_READ_CACHE'' ''Redis cache on analytics aggregation''
        ''Caching multi-aggregate analytics behind a 10s TTL'' ''read_analytics''
        ''Recompute all aggregations per request'' ''Redis cache hit'')\<lparr>ex_total := 400, ex_seed_rows := 20000\<rparr>,
     (new_experiment ''asgi_middleware'' ''OPT_ASGI_MIDDLEWARE'' ''Pure ASGI middleware''
        ''Replacing two BaseHTTPMiddleware layers with pure ASGI middleware'' ''health''
        ''Starlette BaseHTTPMiddleware (task + anyio streams)'' ''Pure ASGI send-wrapper'')\<lparr>ex_total := 2000\<rparr>,
     (new_experiment ''batch_insert'' ''OPT_BATCH_INSERT'' ''Worker bulk INSERT''
        ''Persisting worker batches as one multi-row INSERT'' ''worker_drain''
        ''One INSERT + COMMIT per row'' ''One multi-row INSERT per batch'')
       \<lparr>ex_metric := ''throughput'', ex_total := 10000, ex_services := [''backend'', ''worker''],
        ex_throughput_unit := ''rows/s persisted'', ex_scale_label := ''a 10,000-row burst''\<rparr>,
     (new_experiment ''bounded_fanout'' ''OPT_BOUNDED_FANOUT'' ''Bounded-queue WebSocket fan-out''
        ''Bounded per-client queues with drop-oldest backpressure'' ''ws_fanout''
        ''asyncio.create_task per client per message'' ''Bounded queue + dedicated sender task'')
       \<lparr>ex_metric := ''throughput'', ex_total := 300, ex_concurrency := 15, ex_scale_label := ''300 concurrent WebSocket clients''\<rparr>]"

section \<open>The stack\<close>

text \<open>
  \<open>wait_for_health\<close>: the answers to the polls made before the deadline, \<open>None\<close> for a request that
  raised. Running out of them is the deadline.
\<close>

definition flags_match :: "(string \<times> bool) list \<Rightarrow> (string \<times> bool) list \<Rightarrow> bool" where
  "flags_match expected actual = list_all (\<lambda>(k, v). dict_get actual k = Some v) expected"

definition ready_reply :: "(string \<times> bool) list \<Rightarrow> (int \<times> health_response) option \<Rightarrow> bool" where
  "ready_reply expected reply =
     (case reply of None \<Rightarrow> False
      | Some (status, body) \<Rightarrow>
          status = 200 \<and> he_database body = ''healthy'' \<and> flags_match expected (he_optimizations body))"

fun wait_for_health :: "(string \<times> bool) list \<Rightarrow> (int \<times> health_response) option list \<Rightarrow> unit result" where
  "wait_for_health expected [] = Inl RuntimeError"
| "wait_for_health expected (reply # replies) =
     (if ready_reply expected reply then Inr () else wait_for_health expected replies)"

definition restart_env :: "bench_experiment \<Rightarrow> bool \<Rightarrow> (string \<times> string) list" where
  "restart_env ex flag_value = [(ex_flag ex, if flag_value then ''true'' else ''false'')]"

definition restart_with :: "bench_experiment \<Rightarrow> bool \<Rightarrow> (int \<times> health_response) option list \<Rightarrow> unit result" where
  "restart_with ex flag_value replies = wait_for_health [(py_lower (ex_flag ex), flag_value)] replies"

text \<open>The warm-up pass takes this many requests and is discarded.\<close>

definition warmup_total :: "bench_experiment \<Rightarrow> nat" where
  "warmup_total ex = max (ex_total ex div 4) 20"

definition run_refused :: "sample \<Rightarrow> bool" where
  "run_refused s \<longleftrightarrow>
     (let attempted = sa_successful s + sa_failed s
      in attempted \<noteq> 0 \<and> of_nat (sa_successful s) / of_nat attempted < (95 / 100 :: rat))"

fun run_arm :: "sample list \<Rightarrow> sample list result" where
  "run_arm [] = Inr []"
| "run_arm (s # ss) = (if run_refused s then Inl RuntimeError else bindR (run_arm ss) (\<lambda>rs. Inr (s # rs)))"

section \<open>An experiment\<close>

text \<open>
  The rounds alternate the two arms. \<open>replies b i\<close> is what the health polls after the restart of
  round \<open>i\<close> with the flag at \<open>b\<close> answer, and \<open>sampled b i\<close> the sample of its one measured run.
\<close>

fun experiment_rounds ::
  "bench_experiment \<Rightarrow> (bool \<Rightarrow> nat \<Rightarrow> (int \<times> health_response) option list) \<Rightarrow> (bool \<Rightarrow> nat \<Rightarrow> sample) \<Rightarrow> nat list
   \<Rightarrow> sample list \<Rightarrow> sample list \<Rightarrow> (sample list \<times> sample list) result"
where
  "experiment_rounds ex replies sampled [] baseline optimized = Inr (baseline, optimized)"
| "experiment_rounds ex replies sampled (i # is) baseline optimized =
     bindR (restart_with ex False (replies False i)) (\<lambda>_.
     bindR (run_arm [sampled False i]) (\<lambda>bs.
     bindR (restart_with ex True (replies True i)) (\<lambda>_.
     bindR (run_arm [sampled True i]) (\<lambda>os.
       experiment_rounds ex replies sampled is (baseline @ bs) (optimized @ os)))))"

record arm_summary =
  as_p50_ms :: rat
  as_p95_ms :: rat
  as_p99_ms :: rat
  as_mean_ms :: rat
  as_rps :: rat
  as_successful :: nat
  as_failed :: nat
  as_p99_runs_ms :: "rat list"
  as_rps_runs :: "rat list"

definition summarize :: "sample \<Rightarrow> sample list \<Rightarrow> arm_summary" where
  "summarize chosen all_samples =
     \<lparr>as_p50_ms = py_round 2 (p50 chosen), as_p95_ms = py_round 2 (p95 chosen), as_p99_ms = py_round 2 (p99 chosen),
      as_mean_ms = py_round 2 (mean_latency chosen), as_rps = py_round 1 (rps chosen),
      as_successful = sa_successful chosen, as_failed = sa_failed chosen,
      as_p99_runs_ms = map (\<lambda>s. py_round 2 (p99 s)) all_samples, as_rps_runs = map (\<lambda>s. py_round 1 (rps s)) all_samples\<rparr>"

record bench_record =
  br_experiment :: bench_experiment
  br_repeats :: nat
  br_headline_metric :: string
  br_headline_delta_pct :: rat
  br_baseline :: arm_summary
  br_optimized :: arm_summary
  br_p50_pct :: rat
  br_p95_pct :: rat
  br_p99_pct :: rat
  br_mean_pct :: rat
  br_rps_pct :: rat

definition headline_delta :: "bench_experiment \<Rightarrow> sample \<Rightarrow> sample \<Rightarrow> rat" where
  "headline_delta ex base opt =
     (if ex_metric ex = ''throughput'' then pct_increase (rps base) (rps opt) else pct_change (p99 base) (p99 opt))"

definition run_experiment ::
  "bench_experiment \<Rightarrow> (bool \<Rightarrow> nat \<Rightarrow> (int \<times> health_response) option list) \<Rightarrow> (bool \<Rightarrow> nat \<Rightarrow> sample) \<Rightarrow> nat \<Rightarrow> bench_record result"
where
  "run_experiment ex replies sampled repeats =
     bindR (experiment_rounds ex replies sampled [0..<repeats] [] []) (\<lambda>(bs, os).
     bindR (median_sample bs) (\<lambda>base.
     bindR (median_sample os) (\<lambda>opt.
       Inr \<lparr>br_experiment = ex, br_repeats = repeats,
            br_headline_metric = (if ex_metric ex = ''throughput'' then ''throughput'' else ''p99 latency''),
            br_headline_delta_pct = py_round 1 (headline_delta ex base opt),
            br_baseline = summarize base bs, br_optimized = summarize opt os,
            br_p50_pct = py_round 1 (pct_change (p50 base) (p50 opt)), br_p95_pct = py_round 1 (pct_change (p95 base) (p95 opt)),
            br_p99_pct = py_round 1 (pct_change (p99 base) (p99 opt)),
            br_mean_pct = py_round 1 (pct_change (mean_latency base) (mean_latency opt)),
            br_rps_pct = py_round 1 (pct_increase (rps base) (rps opt))\<rparr>)))"

section \<open>What the report says\<close>

definition arrow :: "bench_record \<Rightarrow> string" where
  "arrow r = (if br_headline_delta_pct r > 0 then ''faster'' else ''slower'')"

datatype resume_line =
    Skipped string rat
  | RaisedThroughput string rat rat rat string string
  | CutLatency string rat rat rat nat

definition resume_line_of :: "bench_record \<Rightarrow> resume_line" where
  "resume_line_of r =
     (let delta = br_headline_delta_pct r; ex = br_experiment r
      in if abs delta < 5 then Skipped (ex_title ex) delta
         else if br_headline_metric r = ''throughput''
         then RaisedThroughput (ex_claim ex) (abs delta) (as_rps (br_baseline r)) (as_rps (br_optimized r))
                (ex_throughput_unit ex) (ex_scale_label ex)
         else CutLatency (ex_claim ex) (abs delta) (as_p99_ms (br_baseline r)) (as_p99_ms (br_optimized r)) (ex_concurrency ex))"

text \<open>
  \<open>main\<close>: the experiments selected; an experiment that raises is reported and left out. The exit
  code and the records, given whether a key is set and which experiments were asked for.
\<close>

definition selected_experiments :: "string list \<Rightarrow> bench_experiment list" where
  "selected_experiments keys = filter (\<lambda>e. keys = [] \<or> ex_key e \<in> set keys) EXPERIMENTS"

fun collect_records :: "bench_record result list \<Rightarrow> bench_record list" where
  "collect_records [] = []"
| "collect_records (Inl e # rs) = collect_records rs"
| "collect_records (Inr r # rs) = r # collect_records rs"

definition bench_main :: "string \<Rightarrow> string list \<Rightarrow> (bench_experiment \<Rightarrow> bench_record result) \<Rightarrow> int \<times> bench_record list" where
  "bench_main api_key keys run =
     (if api_key = [] then (2, [])
      else let records = collect_records (map run (selected_experiments keys))
           in if records = [] then (1, []) else (0, records))"

section \<open>Lemmas\<close>

text \<open>Order statistics: how many elements lie below, and at or below, the element at an index.\<close>

lemma sorted_nth_counts:
  fixes xs :: "'a::linorder list"
  assumes so: "sorted xs" and i: "i < length xs"
  shows "length (filter (\<lambda>x. x < xs ! i) xs) \<le> i" "i < length (filter (\<lambda>x. x \<le> xs ! i) xs)"
proof -
  have "filter (\<lambda>x. x < xs ! i) (drop i xs) = []"
    using so by (auto simp: filter_empty_conv in_set_conv_nth not_less less_diff_conv add.commute intro!: sorted_nth_mono)
  then have "filter (\<lambda>x. x < xs ! i) xs = filter (\<lambda>x. x < xs ! i) (take i xs)"
    by (metis append_Nil2 append_take_drop_id filter_append)
  then show "length (filter (\<lambda>x. x < xs ! i) xs) \<le> i" by (metis length_filter_le length_take min.cobounded2 order_trans)
  have "filter (\<lambda>x. x \<le> xs ! i) (take (Suc i) xs) = take (Suc i) xs"
    using so i by (auto simp: filter_id_conv in_set_conv_nth less_Suc_eq_le intro!: sorted_nth_mono)
  moreover have "filter (\<lambda>x. x \<le> xs ! i) xs
      = filter (\<lambda>x. x \<le> xs ! i) (take (Suc i) xs) @ filter (\<lambda>x. x \<le> xs ! i) (drop (Suc i) xs)"
    by (metis append_take_drop_id filter_append)
  ultimately have "length (take (Suc i) xs) \<le> length (filter (\<lambda>x. x \<le> xs ! i) xs)"
    by (metis length_append le_add1)
  then show "i < length (filter (\<lambda>x. x \<le> xs ! i) xs)" using i by simp
qed

lemma length_filter_sort_key: "length (filter P (sort_key f xs)) = length (filter P xs)"
  by (metis mset_filter mset_sort size_mset)

lemma map_sort_key: "map f (sort_key f xs) = sort (map f xs)"
  by (rule properties_for_sort [symmetric]) simp_all

lemma sort_key_nth_counts:
  fixes f :: "'a \<Rightarrow> 'b::linorder"
  assumes "i < length xs"
  defines "m \<equiv> sort_key f xs ! i"
  shows "m \<in> set xs" "length (filter (\<lambda>x. f x < f m) xs) \<le> i" "i < length (filter (\<lambda>x. f x \<le> f m) xs)"
proof -
  have m: "sort (map f xs) ! i = f m" using assms by (simp flip: map_sort_key)
  have count: "length (filter (\<lambda>y. P y) (sort (map f xs))) = length (filter (\<lambda>x. P (f x)) xs)" for P
    by (simp add: length_filter_sort_key filter_map comp_def)
  show "m \<in> set xs" using assms by (metis length_sort nth_mem set_sort)
  show "length (filter (\<lambda>x. f x < f m) xs) \<le> i" "i < length (filter (\<lambda>x. f x \<le> f m) xs)"
    using sorted_nth_counts [of "sort (map f xs)" i] assms(1) by (simp_all add: m count)
qed

lemma wait_for_health_iff:
  "wait_for_health expected replies = Inr () \<longleftrightarrow> (\<exists>reply \<in> set replies. ready_reply expected reply)"
  by (induction replies) auto

lemma run_arm_one: "run_arm [s] = (if run_refused s then Inl RuntimeError else Inr [s])"
  by simp

text \<open>A round is good when the stack came up with the flag as asked and the run was not refused.\<close>

definition round_ok ::
  "bench_experiment \<Rightarrow> (bool \<Rightarrow> nat \<Rightarrow> (int \<times> health_response) option list) \<Rightarrow> (bool \<Rightarrow> nat \<Rightarrow> sample) \<Rightarrow> nat \<Rightarrow> bool \<Rightarrow> bool"
where
  "round_ok ex replies sampled i b \<longleftrightarrow>
     (\<exists>reply \<in> set (replies b i). ready_reply [(py_lower (ex_flag ex), b)] reply) \<and> \<not> run_refused (sampled b i)"

lemma experiment_rounds_iff:
  "experiment_rounds ex replies sampled is bs os = Inr (bs', os') \<longleftrightarrow>
     (\<forall>i \<in> set is. \<forall>b. round_ok ex replies sampled i b)
     \<and> bs' = bs @ map (sampled False) is \<and> os' = os @ map (sampled True) is"
proof (induction "is" arbitrary: bs os)
  case Nil
  show ?case by auto
next
  case (Cons i "is")
  have wait: "restart_with ex b (replies b i) = Inr u \<longleftrightarrow> (\<exists>reply \<in> set (replies b i). ready_reply [(py_lower (ex_flag ex), b)] reply)"
    for b u unfolding restart_with_def using wait_for_health_iff by (metis old.unit.exhaust)
  show ?case
    by (auto simp: bindR_eq_Inr wait Cons.IH round_ok_def all_bool_eq simp del: run_arm.simps simp: run_arm_one split: if_splits)
qed

lemma experiment_flags:
  "map ex_flag EXPERIMENTS = [''OPT_REDIS_BUFFER'', ''OPT_READ_CACHE'', ''OPT_READ_CACHE'', ''OPT_ASGI_MIDDLEWARE'',
     ''OPT_BATCH_INSERT'', ''OPT_BOUNDED_FANOUT'']"
  by (simp add: EXPERIMENTS_def new_experiment_def)

lemma lower_flags [simp]:
  "py_lower ''OPT_REDIS_BUFFER'' = ''opt_redis_buffer''" "py_lower ''OPT_READ_CACHE'' = ''opt_read_cache''"
  "py_lower ''OPT_ASGI_MIDDLEWARE'' = ''opt_asgi_middleware''" "py_lower ''OPT_BATCH_INSERT'' = ''opt_batch_insert''"
  "py_lower ''OPT_BOUNDED_FANOUT'' = ''opt_bounded_fanout''"
  by code_simp+

section \<open>Properties\<close>

text \<open>
  The percentiles of a run are order statistics. A percentile of a run with latencies is one of
  them; at most the fraction \<open>q\<close> of the requests was faster, and for \<open>q\<close> below one more than that
  fraction was at least as fast. A run without latencies has percentile 0.
\<close>

theorem percentile_exact:
  assumes "0 \<le> q"
  shows "if sa_latencies_ms s = [] then pct q s = 0
    else pct q s \<in> set (sa_latencies_ms s)
      \<and> of_nat (length (filter (\<lambda>x. x < pct q s) (sa_latencies_ms s))) \<le> q * of_nat (length (sa_latencies_ms s))
      \<and> (q < 1 \<longrightarrow> q * of_nat (length (sa_latencies_ms s)) < of_nat (length (filter (\<lambda>x. x \<le> pct q s) (sa_latencies_ms s))))"
proof (cases "sa_latencies_ms s = []")
  case True
  then show ?thesis by (simp add: pct_def)
next
  case False
  let ?l = "sa_latencies_ms s"
  let ?n = "length ?l"
  define k where "k = nat (min \<lfloor>of_nat ?n * q\<rfloor> (int ?n - 1))"
  have n: "0 < ?n" using False by simp
  have p: "pct q s = sort_key (\<lambda>x. x) ?l ! k" using False by (simp add: pct_def k_def Let_def)
  have fl: "0 \<le> \<lfloor>of_nat ?n * q\<rfloor>" using assms by simp
  have k: "k < ?n" unfolding k_def using n fl by linarith
  have "int k \<le> \<lfloor>of_nat ?n * q\<rfloor>" unfolding k_def using n fl by linarith
  then have kq: "of_nat k \<le> q * of_nat ?n" by (simp add: le_floor_iff mult.commute)
  have kq1: "q * of_nat ?n < of_nat k + 1" if "q < 1"
  proof -
    have "of_nat ?n * q < of_nat ?n" using that n by simp
    then have "\<lfloor>of_nat ?n * q\<rfloor> < int ?n" by (simp add: floor_less_iff)
    then have "int k = \<lfloor>of_nat ?n * q\<rfloor>" using fl by (simp add: k_def)
    then have "of_nat k = (of_int \<lfloor>of_nat ?n * q\<rfloor> :: rat)" by (metis of_int_of_nat_eq)
    then show ?thesis using floor_correct [of "of_nat ?n * q"] by (simp add: mult.commute)
  qed
  note c = sort_key_nth_counts [OF k, of "\<lambda>x. x", folded p]
  have "of_nat (length (filter (\<lambda>x. x < pct q s) ?l)) \<le> (of_nat k :: rat)" using c(2) by simp
  moreover have "of_nat k + 1 \<le> (of_nat (length (filter (\<lambda>x. x \<le> pct q s) ?l)) :: rat)"
    using c(3) by (metis Suc_leI of_nat_Suc of_nat_mono add.commute)
  ultimately show ?thesis using False c(1) kq kq1 by fastforce
qed

definition four_runs :: sample where
  "four_runs = empty_sample\<lparr>sa_successful := 4, sa_latencies_ms := [30, 10, 40, 20]\<rparr>"

theorem percentile_exact_witness:
  "pct (50 / 100) four_runs \<in> set (sa_latencies_ms four_runs)
   \<and> of_nat (length (filter (\<lambda>x. x < pct (50 / 100) four_runs) (sa_latencies_ms four_runs))) \<le> (2 :: rat)"
  using percentile_exact [of "50 / 100" four_runs] by (simp add: four_runs_def split: if_splits)

text \<open>The run in the middle, by p99.\<close>

definition median_run :: "sample list \<Rightarrow> sample \<Rightarrow> bool" where
  "median_run ss m \<longleftrightarrow> m \<in> set ss
     \<and> 2 * length (filter (\<lambda>s. p99 s < p99 m) ss) \<le> length ss \<and> length ss < 2 * length (filter (\<lambda>s. p99 s \<le> p99 m) ss)"

lemma median_sample_run: "ss \<noteq> [] \<Longrightarrow> \<exists>m. median_sample ss = Inr m \<and> median_run ss m"
  using sort_key_nth_counts [of "length ss div 2" ss p99] by (auto simp: median_sample_def median_run_def)

lemma rps_nonneg: "0 \<le> rps s"
  by (simp add: rps_def)

lemma headline_positive:
  assumes "0 < p99 base"
  shows "0 < headline_delta ex base opt \<longleftrightarrow>
    (if ex_metric ex = ''throughput'' then 0 < rps base \<and> rps base < rps opt else p99 opt < p99 base)"
  using assms rps_nonneg [of base]
  by (auto simp: headline_delta_def pct_increase_def pct_change_def zero_less_mult_iff zero_less_divide_iff)

text \<open>
  C33: A benchmark report rests on what it says it rests on. An experiment produces a report exactly
  when there is at least one round and, in every round and for both settings of the flag, the
  stack was seen healthy with the flag at that setting before the run, and the run was not
  refused for failing more than one request in twenty. The figures reported for an arm are
  those of one of its own runs whose p99 is the median of all its runs, and the headline is
  positive exactly when the optimised run was better.
\<close>

theorem benchmark_report_sound:
  fixes sampled :: "bool \<Rightarrow> nat \<Rightarrow> sample" and n :: nat
  defines "runs \<equiv> \<lambda>b. map (sampled b) [0..<n]"
  shows "((\<exists>r. run_experiment ex replies sampled n = Inr r) \<longleftrightarrow> 0 < n \<and> (\<forall>i < n. \<forall>b. round_ok ex replies sampled i b))
    \<and> (\<forall>r. run_experiment ex replies sampled n = Inr r \<longrightarrow>
         (\<exists>base opt. median_run (runs False) base \<and> median_run (runs True) opt
            \<and> br_baseline r = summarize base (runs False) \<and> br_optimized r = summarize opt (runs True)
            \<and> br_headline_delta_pct r = py_round 1 (headline_delta ex base opt)
            \<and> (0 < p99 base \<longrightarrow> (0 < headline_delta ex base opt \<longleftrightarrow>
                 (if ex_metric ex = ''throughput'' then 0 < rps base \<and> rps base < rps opt else p99 opt < p99 base)))))"
proof -
  have rounds: "experiment_rounds ex replies sampled [0..<n] [] [] = Inr (bs, os) \<longleftrightarrow>
      (\<forall>i < n. \<forall>b. round_ok ex replies sampled i b) \<and> bs = runs False \<and> os = runs True" for bs os
    by (auto simp: experiment_rounds_iff runs_def)
  have med: "\<exists>m. median_sample (runs b) = Inr m \<and> median_run (runs b) m" if "0 < n" for b
    using that by (intro median_sample_run) (simp add: runs_def)
  have nomed: "0 < n" if "median_sample (runs b) = Inr m" for b m
    using that by (simp add: median_sample_def runs_def split: if_splits)
  have ret: "\<exists>r. run_experiment ex replies sampled n = Inr r" if "0 < n" "\<forall>i < n. \<forall>b. round_ok ex replies sampled i b"
    using med [OF that(1), of False] med [OF that(1), of True] rounds [of "runs False" "runs True"] that(2)
    by (auto simp: run_experiment_def)
  have run: "0 < n \<and> (\<forall>i < n. \<forall>b. round_ok ex replies sampled i b) \<and>
      (\<exists>base opt. median_run (runs False) base \<and> median_run (runs True) opt
         \<and> br_baseline r = summarize base (runs False) \<and> br_optimized r = summarize opt (runs True)
         \<and> br_headline_delta_pct r = py_round 1 (headline_delta ex base opt))"
    if r: "run_experiment ex replies sampled n = Inr r" for r
  proof -
    from r obtain base opt where ok: "\<forall>i < n. \<forall>b. round_ok ex replies sampled i b"
      and m: "median_sample (runs False) = Inr base" "median_sample (runs True) = Inr opt"
      and f: "br_baseline r = summarize base (runs False)" "br_optimized r = summarize opt (runs True)"
        "br_headline_delta_pct r = py_round 1 (headline_delta ex base opt)"
      by (auto simp: run_experiment_def bindR_eq_Inr rounds)
    have n: "0 < n" by (rule nomed [OF m(1)])
    show ?thesis using med [OF n, of False] med [OF n, of True] m f ok n by auto
  qed
  show ?thesis using ret run headline_positive by blast
qed

definition good_run :: sample where
  "good_run = empty_sample\<lparr>sa_successful := 20, sa_failed := 1, sa_duration_s := 2, sa_latencies_ms := [7, 5]\<rparr>"

theorem benchmark_report_sound_witness:
  "\<exists>r. run_experiment (EXPERIMENTS ! 0)
         (\<lambda>b i. [None, Some (200, health_check (direct_settings\<lparr>opt_redis_buffer := b\<rparr>) True)]) (\<lambda>b i. good_run) 3 = Inr r"
proof -
  have flag: "ex_flag (EXPERIMENTS ! 0) = ''OPT_REDIS_BUFFER''" by (simp add: EXPERIMENTS_def new_experiment_def)
  have "round_ok (EXPERIMENTS ! 0) (\<lambda>b i. [None, Some (200, health_check (direct_settings\<lparr>opt_redis_buffer := b\<rparr>) True)])
      (\<lambda>b i. good_run) i b" for i b
    by (simp add: round_ok_def ready_reply_def health_check_def flags_match_def optimization_flags_def flag
        run_refused_def good_run_def empty_sample_def)
  then show ?thesis
    using benchmark_report_sound [of "EXPERIMENTS ! 0"
        "\<lambda>b i. [None, Some (200, health_check (direct_settings\<lparr>opt_redis_buffer := b\<rparr>) True)]" "\<lambda>b i. good_run" 3, THEN conjunct1]
    by simp
qed

text \<open>
  The two arms of an experiment are never the same configuration. For each experiment, whatever
  the settings of the backend it talks to, the reply of its health route is accepted for exactly
  one setting of the experiment's flag while the database answers, and for none while it does
  not.
\<close>

theorem arms_measure_different_stacks:
  assumes "ex \<in> set EXPERIMENTS"
  shows "if select_ok then (\<exists>!b. ready_reply [(py_lower (ex_flag ex), b)] (Some (200, health_check cfg select_ok)))
    else (\<forall>b. \<not> ready_reply [(py_lower (ex_flag ex), b)] (Some (200, health_check cfg select_ok)))"
proof -
  have "py_lower (ex_flag ex) \<in> fst ` set (optimization_flags cfg)"
  proof -
    have "ex_flag ex \<in> set (map ex_flag EXPERIMENTS)" using assms by simp
    then have "ex_flag ex \<in> {''OPT_REDIS_BUFFER'', ''OPT_READ_CACHE'', ''OPT_ASGI_MIDDLEWARE'', ''OPT_BATCH_INSERT'', ''OPT_BOUNDED_FANOUT''}"
      unfolding experiment_flags by simp
    then show ?thesis by (elim insertE) (simp_all add: optimization_flags_def)
  qed
  then obtain v where "dict_get (optimization_flags cfg) (py_lower (ex_flag ex)) = Some v"
    by (metis map_of_eq_None_iff not_None_eq)
  then show ?thesis by (auto simp: ready_reply_def health_check_def flags_match_def)
qed

theorem arms_measure_different_stacks_witness:
  "\<exists>!b. ready_reply [(py_lower (ex_flag (EXPERIMENTS ! 3)), b)] (Some (200, health_check direct_settings True))"
  using arms_measure_different_stacks [of "EXPERIMENTS ! 3" True direct_settings] by (simp add: EXPERIMENTS_def)

end
