(* ===== verification/FleetReport.thy ===== *)
theory FleetReport
  imports FleetBenchmark
begin

text \<open>
  The text of the benchmark report: \<open>render_markdown\<close> and \<open>render_resume_lines\<close> of
  \<open>benchmark_matrix.py\<close>, with the formatting of numbers they use. Text is its UTF-8 encoding; the
  \<open>repr\<close> of a list of floats is a parameter.
\<close>

section \<open>Formatted numbers\<close>

text \<open>\<open>f"{x:.nf}"\<close> and \<open>f"{x:+.nf}"\<close>.\<close>

definition magnitude :: "nat \<Rightarrow> rat \<Rightarrow> string" where
  "magnitude n x =
     (let k = nat (round_half_even (\<bar>x\<bar> * 10 ^ n))
      in if n = 0 then nat_str k else nat_str (k div 10 ^ n) @ CHR ''.'' # pad_left n (nat_str (k mod 10 ^ n)))"

definition fixed :: "nat \<Rightarrow> rat \<Rightarrow> string" where
  "fixed n x = (if x < 0 then ''-'' else []) @ magnitude n x"

definition signed :: "nat \<Rightarrow> rat \<Rightarrow> string" where
  "signed n x = (if x < 0 then ''-'' else ''+'') @ magnitude n x"

text \<open>Reading a number printed that way.\<close>

definition read_magnitude :: "string \<Rightarrow> rat option" where
  "read_magnitude s =
     (case py_split (CHR ''.'') s of
        [i] \<Rightarrow> map_option of_nat (read_nat i)
      | [i, f] \<Rightarrow> (case (read_nat i, read_nat f) of
                    (Some a, Some b) \<Rightarrow> Some (of_nat a + of_nat b / 10 ^ length f) | _ \<Rightarrow> None)
      | _ \<Rightarrow> None)"

definition read_fixed :: "string \<Rightarrow> rat option" where
  "read_fixed s =
     (case s of
        [] \<Rightarrow> None
      | c # cs \<Rightarrow> if c = CHR ''-'' then map_option uminus (read_magnitude cs)
                  else if c = CHR ''+'' then read_magnitude cs else read_magnitude s)"

section \<open>The report\<close>

definition em_dash :: string where "em_dash = [CHR 0xE2, CHR 0x80, CHR 0x94]"
definition ellipsis :: string where "ellipsis = [CHR 0xE2, CHR 0x80, CHR 0xA6]"

definition newline :: string where "newline = [CHR 0x0A]"

record report_meta =
  me_host :: string
  me_repeats :: int
  me_generated :: string

definition report_head :: "report_meta \<Rightarrow> string list" where
  "report_head meta =
     [''# Optimization Benchmarks'' @ newline,
      ''Every optimization in this system sits behind an `OPT_*` flag. Each row ''
      @ ''below was produced by running the same workload twice '' @ em_dash @ '' once with the ''
      @ ''flag off (the naive implementation) and once with it on '' @ em_dash @ '' restarting ''
      @ ''the affected services in between.'' @ newline,
      ''- **Host:** '' @ me_host meta @ newline
      @ ''- **Repeats:** '' @ int_str (me_repeats meta) @ '' interleaved round'' @ (if me_repeats meta \<noteq> 1 then ''s'' else []) @ '' per ''
      @ ''experiment; the reported figure is the median run'' @ newline
      @ ''- **Generated:** '' @ me_generated meta @ newline,
      ''> Runs are interleaved (off, on, off, on'' @ ellipsis @ '') so background load on the ''
      @ ''host biases both arms equally. The per-run spread is listed under each ''
      @ ''experiment; treat any delta smaller than that spread as noise.'' @ newline,
      ''## Summary'' @ newline,
      ''| Optimization | Workload | Metric | Baseline | Optimized | Change |'',
      ''| :--- | :--- | :--- | ---: | ---: | ---: |'']"

definition summary_figure :: "bench_record \<Rightarrow> arm_summary \<Rightarrow> string" where
  "summary_figure r a =
     (if br_headline_metric r = ''throughput''
      then fixed 0 (as_rps a) @ '' '' @ ex_throughput_unit (br_experiment r)
      else fixed 1 (as_p99_ms a) @ '' ms'')"

definition summary_row :: "bench_record \<Rightarrow> string" where
  "summary_row r =
     (let ex = br_experiment r
      in ''| '' @ ex_title ex @ '' | `'' @ ex_workload ex @ ''` | '' @ br_headline_metric r @ '' | ''
         @ summary_figure r (br_baseline r) @ '' | '' @ summary_figure r (br_optimized r) @ '' | **''
         @ fixed 1 \<bar>br_headline_delta_pct r\<bar> @ ''% '' @ arrow r @ ''** |'')"

definition latency_row :: "string \<Rightarrow> rat \<Rightarrow> rat \<Rightarrow> rat \<Rightarrow> string" where
  "latency_row label b opt delta =
     ''| '' @ label @ '' latency | '' @ fixed 1 b @ '' ms | '' @ fixed 1 opt @ '' ms | '' @ signed 1 delta @ ''% |''"

definition detail_lines :: "(rat list \<Rightarrow> string) \<Rightarrow> bench_record \<Rightarrow> string list" where
  "detail_lines list_repr r =
     (let ex = br_experiment r; is_throughput = (br_headline_metric r = ''throughput''); unit = ex_throughput_unit ex;
          b = br_baseline r; opt = br_optimized r
      in [''### '' @ ex_title ex @ ''  (`'' @ ex_flag ex @ ''`)'' @ newline,
          ex_claim ex @ ''.'' @ newline,
          (if is_throughput
           then ''Workload `'' @ ex_workload ex @ ''` '' @ em_dash @ '' '' @ ex_scale_label ex @ ''.'' @ newline
           else ''Workload `'' @ ex_workload ex @ ''` '' @ em_dash @ '' '' @ nat_str (ex_total ex) @ '' requests at ''
                @ ''concurrency '' @ nat_str (ex_concurrency ex) @ ''.'' @ newline),
          ''| | Baseline | Optimized | Change |'',
          ''| :--- | ---: | ---: | ---: |'',
          ''| _implementation_ | '' @ ex_baseline_label ex @ '' | '' @ ex_optimized_label ex @ '' | |'']
         @ (if is_throughput then []
            else [latency_row ''p50'' (as_p50_ms b) (as_p50_ms opt) (br_p50_pct r),
                  latency_row ''p95'' (as_p95_ms b) (as_p95_ms opt) (br_p95_pct r),
                  latency_row ''p99'' (as_p99_ms b) (as_p99_ms opt) (br_p99_pct r),
                  latency_row ''mean'' (as_mean_ms b) (as_mean_ms opt) (br_mean_pct r)])
         @ [''| throughput | '' @ fixed 0 (as_rps b) @ '' '' @ unit @ '' | '' @ fixed 0 (as_rps opt) @ '' '' @ unit @ '' | ''
              @ signed 1 (br_rps_pct r) @ ''% |'',
            ''| failed | '' @ nat_str (as_failed b) @ '' | '' @ nat_str (as_failed opt) @ '' | |'',
            (if is_throughput
             then newline @ ''Per-run spread ('' @ unit @ '') '' @ em_dash @ '' baseline `'' @ list_repr (as_rps_runs b) @ ''`, ''
                  @ ''optimized `'' @ list_repr (as_rps_runs opt) @ ''`.'' @ newline
             else newline @ ''Per-run p99 spread (ms) '' @ em_dash @ '' baseline `'' @ list_repr (as_p99_runs_ms b) @ ''`, ''
                  @ ''optimized `'' @ list_repr (as_p99_runs_ms opt) @ ''`.'' @ newline)])"

definition report_lines :: "(rat list \<Rightarrow> string) \<Rightarrow> report_meta \<Rightarrow> bench_record list \<Rightarrow> string list" where
  "report_lines list_repr meta records =
     report_head meta @ map summary_row records @ [newline @ ''## Detail'' @ newline] @ concat (map (detail_lines list_repr) records)"

definition render_markdown :: "(rat list \<Rightarrow> string) \<Rightarrow> report_meta \<Rightarrow> bench_record list \<Rightarrow> string" where
  "render_markdown list_repr meta records = py_join (CHR 0x0A) (report_lines list_repr meta records)"

text \<open>The claims: a change under five percent is skipped without the blank line after it.\<close>

definition resume_text :: "resume_line \<Rightarrow> string list" where
  "resume_text l =
     (case l of
        Skipped title delta \<Rightarrow>
          [''  [skip] '' @ title @ '': '' @ signed 1 delta @ ''% '' @ em_dash @ '' within noise, '' @ ''do not claim this one.'']
      | RaisedThroughput claim amount b opt unit scale_label \<Rightarrow>
          [''  * '' @ claim @ '' raised throughput '' @ fixed 0 amount @ ''% ('' @ fixed 0 b @ '' -> '' @ fixed 0 opt @ '' ''
           @ unit @ '') on '' @ scale_label @ ''.'', []]
      | CutLatency claim amount b opt concurrency \<Rightarrow>
          [''  * '' @ claim @ '' cut p99 latency '' @ fixed 0 amount @ ''% ('' @ fixed 0 b @ ''ms -> '' @ fixed 0 opt
           @ ''ms) at concurrency '' @ nat_str concurrency @ ''.'', []])"

definition render_resume_lines :: "bench_record list \<Rightarrow> string" where
  "render_resume_lines records =
     py_join (CHR 0x0A)
       ([[], replicate 72 (CHR ''=''), ''  RESUME-READY CLAIMS'', replicate 72 (CHR ''=''), []]
        @ concat (map (resume_text \<circ> resume_line_of) records))"

section \<open>Lemmas: numbers read back\<close>

lemma round_half_even_nonneg: "0 \<le> (x :: rat) \<Longrightarrow> 0 \<le> round_half_even x"
  using round_half_even_mono [of 0 x] round_half_even_int [of 0, where 'a = rat] by (simp del: round_half_even_int)

lemma round_half_even_minus: "round_half_even (- x :: rat) = - round_half_even x"
proof (cases "x = of_int \<lfloor>x\<rfloor>")
  case True
  then obtain k where "x = of_int k" by blast
  then show ?thesis using round_half_even_int [of "- k", where 'a = rat] by simp
next
  case False
  then have f: "\<lfloor>- x\<rfloor> = - \<lfloor>x\<rfloor> - 1" by (simp add: floor_minus ceiling_altdef)
  have e: "even (- \<lfloor>x\<rfloor> - 1) \<longleftrightarrow> \<not> even \<lfloor>x\<rfloor>" by simp
  show ?thesis unfolding round_half_even_def f Let_def using e by auto
qed

lemma py_round_abs:
  "py_round n (x :: rat) = (if x < 0 then - 1 else 1) * (of_nat (nat (round_half_even (\<bar>x\<bar> * 10 ^ n))) / 10 ^ n)"
proof -
  have "round_half_even (x * 10 ^ n) = - round_half_even (- x * 10 ^ n)"
    using round_half_even_minus [of "x * 10 ^ n"] by simp
  then show ?thesis using round_half_even_nonneg [of "\<bar>x\<bar> * 10 ^ n"] by (auto simp: py_round_def)
qed

lemma digits_no_dot: "list_all is_digit s \<Longrightarrow> CHR ''.'' \<notin> set s"
  by (auto simp: list_all_iff is_digit_def Let_def)

lemma split_at_dot:
  assumes "CHR ''.'' \<notin> set a" "CHR ''.'' \<notin> set b"
  shows "py_split (CHR ''.'') a = [a]" "py_split (CHR ''.'') (a @ CHR ''.'' # b) = [a, b]"
  using assms py_split_join [of "[a]" "CHR ''.''"] py_split_join [of "[a, b]" "CHR ''.''"] by simp_all

lemma read_magnitude_magnitude:
  "read_magnitude (magnitude n x) = Some (of_nat (nat (round_half_even (\<bar>x\<bar> * 10 ^ n))) / 10 ^ n)"
proof -
  let ?k = "nat (round_half_even (\<bar>x\<bar> * 10 ^ n))"
  note dot = digits_no_dot [OF nat_str_digits]
  show ?thesis
  proof (cases "n = 0")
    case True
    then show ?thesis using split_at_dot(1) [OF dot dot, of ?k] by (simp add: magnitude_def read_magnitude_def)
  next
    case False
    let ?f = "pad_left n (nat_str (?k mod 10 ^ n))"
    have len: "length ?f = n" using length_nat_str [of "?k mod 10 ^ n" n] False by (simp add: pad_left_def)
    have f: "list_all is_digit ?f" "read_nat ?f = Some (?k mod 10 ^ n)"
      using nat_str_digits [of "?k mod 10 ^ n"] read_nat_padded [of _ "?k mod 10 ^ n"]
      by (simp_all add: pad_left_def list_all_iff set_replicate_conv_if is_digit_def [of "CHR ''0''"])
    have "(of_nat (?k div 10 ^ n) + of_nat (?k mod 10 ^ n) / 10 ^ n :: rat) = of_nat ?k / 10 ^ n"
    proof -
      have "of_nat (?k div 10 ^ n) * of_nat (10 ^ n) + of_nat (?k mod 10 ^ n) = (of_nat ?k :: rat)"
        by (simp only: div_mult_mod_eq flip: of_nat_mult of_nat_add)
      then show ?thesis by (simp add: field_simps)
    qed
    then show ?thesis
      using split_at_dot(2) [OF dot digits_no_dot [OF f(1)]] False len f(2)
      by (simp add: magnitude_def read_magnitude_def Let_def)
  qed
qed

lemma magnitude_head: "\<exists>c cs. magnitude n x = c # cs \<and> is_digit c"
proof -
  have "\<exists>c cs. nat_str k @ ys = c # cs \<and> is_digit c" for k ys using nat_str_head [of k] by auto
  from this [of _ "[]"] this show ?thesis by (auto simp: magnitude_def Let_def)
qed

text \<open>What \<open>f"{x:.nf}"\<close> prints reads back as \<open>round(x, n)\<close>.\<close>

theorem read_fixed_fixed: "read_fixed (fixed n x) = Some (py_round n x)" "read_fixed (signed n x) = Some (py_round n x)"
proof -
  obtain c cs where m: "magnitude n x = c # cs" "is_digit c" using magnitude_head by blast
  then have "c \<noteq> CHR ''-''" "c \<noteq> CHR ''+''" by (auto simp: is_digit_def Let_def)
  with m(1) read_magnitude_magnitude [of n x] show "read_fixed (fixed n x) = Some (py_round n x)"
    "read_fixed (signed n x) = Some (py_round n x)"
    by (auto simp: read_fixed_def fixed_def signed_def py_round_abs)
qed

section \<open>The summary table\<close>

lemma py_round_abs_idem: "py_round n \<bar>py_round n (x :: rat)\<bar> = \<bar>py_round n x\<bar>"
proof -
  have "\<bar>of_int k / 10 ^ n\<bar> * 10 ^ n = (of_int \<bar>k\<bar> :: rat)" for k by (simp add: abs_divide)
  then show ?thesis unfolding py_round_def [of n x] by (simp add: py_round_def abs_divide del: of_int_abs)
qed

lemma magnitude_chars: "c \<in> set (magnitude n x) \<Longrightarrow> is_digit c \<or> c = CHR ''.''"
  using nat_str_digits by (auto simp: magnitude_def pad_left_def Let_def list_all_iff set_replicate_conv_if
      is_digit_def [of "CHR ''0''"] split: if_splits)

lemma fixed_no_bar: "CHR ''|'' \<notin> set (fixed n x)"
  using magnitude_chars [of "CHR ''|''" n x] by (auto simp: fixed_def is_digit_def)

lemma experiments_no_bar:
  "ex \<in> set EXPERIMENTS \<Longrightarrow> CHR ''|'' \<notin> set (ex_title ex) \<and> CHR ''|'' \<notin> set (ex_workload ex) \<and> CHR ''|'' \<notin> set (ex_throughput_unit ex)"
  by (auto simp: EXPERIMENTS_def new_experiment_def)

lemma run_experiment_record:
  assumes "run_experiment ex replies sampled repeats = Inr r"
  shows "br_experiment r = ex" "br_headline_metric r = ''throughput'' \<or> br_headline_metric r = ''p99 latency''"
    "\<exists>delta. br_headline_delta_pct r = py_round 1 delta"
  using assms by (auto simp: run_experiment_def bindR_eq_Inr split: if_splits)

text \<open>
  The summary of the report is a table: the row of an experiment that completed has six cells,
  and the change printed in the last one reads back as the record's headline change, to the
  digit, with the word that goes with its sign.
\<close>

theorem summary_row_reads_back:
  assumes "ex \<in> set EXPERIMENTS" "run_experiment ex replies sampled repeats = Inr r"
  shows "\<exists>c1 c2 c3 c4 c5 f. py_split (CHR ''|'') (summary_row r) =
      [[], c1, c2, c3, c4, c5, '' **'' @ f @ ''% '' @ arrow r @ ''** '', []] \<and> read_fixed f = Some \<bar>br_headline_delta_pct r\<bar>"
proof -
  note rr = run_experiment_record [OF assms(2)]
  let ?c = "[[], '' '' @ ex_title ex @ '' '', '' `'' @ ex_workload ex @ ''` '', '' '' @ br_headline_metric r @ '' '',
    '' '' @ summary_figure r (br_baseline r) @ '' '', '' '' @ summary_figure r (br_optimized r) @ '' '',
    '' **'' @ fixed 1 \<bar>br_headline_delta_pct r\<bar> @ ''% '' @ arrow r @ ''** '', []]"
  have nb: "CHR ''|'' \<notin> set (br_headline_metric r)" "CHR ''|'' \<notin> set (arrow r)" using rr(2) by (auto simp: arrow_def)
  have figs: "CHR ''|'' \<notin> set (summary_figure r a)" for a
    using experiments_no_bar [OF assms(1)] by (auto simp: summary_figure_def rr(1) fixed_no_bar)
  have "summary_row r = py_join (CHR ''|'') ?c" by (simp add: summary_row_def rr(1))
  moreover have "\<forall>w \<in> set ?c. CHR ''|'' \<notin> set w"
    using experiments_no_bar [OF assms(1)] by (simp add: nb figs fixed_no_bar)
  ultimately have "py_split (CHR ''|'') (summary_row r) = ?c" using py_split_join [of ?c "CHR ''|''"] by simp
  moreover have "read_fixed (fixed 1 \<bar>br_headline_delta_pct r\<bar>) = Some \<bar>br_headline_delta_pct r\<bar>"
    using rr(3) by (auto simp: read_fixed_fixed py_round_abs_idem)
  ultimately show ?thesis by blast
qed

end
