(* ===== verification/FleetStress.thy ===== *)
theory FleetStress
  imports FleetBenchmark FleetEndToEnd
begin

text \<open>
  The stress test (\<open>scripts/stress_test.py\<close>): its results and their statistics, the payloads it
  and the benchmark harness generate, the bookkeeping of its six tests over what the stack
  answers, and the run with its summary. Times are exact rationals; random draws and answers
  are arguments. The printed lines are not modelled.
\<close>

section \<open>Results\<close>

record test_result =
  tr_name :: string
  tr_total_requests :: nat
  tr_successful :: nat
  tr_failed :: nat
  tr_latencies_ms :: "rat list"
  tr_duration_s :: rat
  tr_errors :: "string list"

definition new_result :: "string \<Rightarrow> test_result" where
  "new_result name =
     \<lparr>tr_name = name, tr_total_requests = 0, tr_successful = 0, tr_failed = 0, tr_latencies_ms = [],
      tr_duration_s = 0, tr_errors = []\<rparr>"

definition tr_rps :: "test_result \<Rightarrow> rat" where
  "tr_rps r = (if tr_duration_s r > 0 then of_nat (tr_successful r) / tr_duration_s r else 0)"

text \<open>\<open>statistics.median\<close>: the middle element, or the mean of the two in the middle.\<close>

definition median :: "rat list \<Rightarrow> rat" where
  "median xs =
     (let s = sort xs; n = length xs
      in if odd n then s ! (n div 2) else (s ! (n div 2 - 1) + s ! (n div 2)) / 2)"

definition tr_p50 :: "test_result \<Rightarrow> rat" where
  "tr_p50 r = (if tr_latencies_ms r \<noteq> [] then median (tr_latencies_ms r) else 0)"

definition tr_p95 :: "test_result \<Rightarrow> rat" where
  "tr_p95 r =
     (if tr_latencies_ms r = [] then 0
      else let sorted_l = sort (tr_latencies_ms r);
               idx = nat \<lfloor>of_nat (length sorted_l) * (95 / 100 :: rat)\<rfloor>
           in sorted_l ! min idx (length sorted_l - 1))"

definition tr_p99 :: "test_result \<Rightarrow> rat" where
  "tr_p99 r =
     (if tr_latencies_ms r = [] then 0
      else let sorted_l = sort (tr_latencies_ms r);
               idx = nat \<lfloor>of_nat (length sorted_l) * (99 / 100 :: rat)\<rfloor>
           in sorted_l ! min idx (length sorted_l - 1))"

definition tr_avg :: "test_result \<Rightarrow> rat" where
  "tr_avg r =
     (if tr_latencies_ms r \<noteq> [] then sum_list (tr_latencies_ms r) / of_nat (length (tr_latencies_ms r)) else 0)"

section \<open>Payloads\<close>

text \<open>
  What \<open>random\<close> answers for one payload, in the order of the calls; the same function stands in
  both scripts.
\<close>

record payload_draws =
  pd_robot_id :: int
  pd_battery :: rat
  pd_temperature :: rat
  pd_speed :: rat
  pd_status :: string
  pd_mission_id :: int
  pd_mission_type :: string
  pd_mission_progress :: rat
  pd_battery_health :: rat
  pd_motor_health :: rat
  pd_sensor_health :: rat
  pd_network_health :: rat
  pd_x :: rat
  pd_y :: rat

definition draws_ok :: "payload_draws \<Rightarrow> bool" where
  "draws_ok d \<longleftrightarrow>
     1 \<le> pd_robot_id d \<and> pd_robot_id d \<le> 200
   \<and> 20 \<le> pd_battery d \<and> pd_battery d \<le> 100 \<and> 25 \<le> pd_temperature d \<and> pd_temperature d \<le> 70
   \<and> 0 \<le> pd_speed d \<and> pd_speed d \<le> 5 / 2
   \<and> pd_status d \<in> set [''ACTIVE'', ''CHARGING'', ''LOW POWER'', ''OVERHEATING'']
   \<and> 1000 \<le> pd_mission_id d \<and> pd_mission_id d \<le> 9999
   \<and> pd_mission_type d \<in> set [''PATROL'', ''DELIVERY'', ''INSPECTION'']
   \<and> 0 \<le> pd_mission_progress d \<and> pd_mission_progress d \<le> 100
   \<and> 70 \<le> pd_battery_health d \<and> pd_battery_health d \<le> 100 \<and> 70 \<le> pd_motor_health d \<and> pd_motor_health d \<le> 100
   \<and> 70 \<le> pd_sensor_health d \<and> pd_sensor_health d \<le> 100 \<and> 70 \<le> pd_network_health d \<and> pd_network_health d \<le> 100
   \<and> - 50 \<le> pd_x d \<and> pd_x d \<le> 50 \<and> - 50 \<le> pd_y d \<and> pd_y d \<le> 50"

definition make_payload :: "int option \<Rightarrow> payload_draws \<Rightarrow> telemetry_create" where
  "make_payload robot_id d =
     (let rid = (case robot_id of Some i \<Rightarrow> if i \<noteq> 0 then i else pd_robot_id d | None \<Rightarrow> pd_robot_id d)
      in \<lparr>tc_robot_id = rid, tc_battery = py_round 2 (pd_battery d), tc_temperature = py_round 2 (pd_temperature d),
          tc_speed = py_round 2 (pd_speed d), tc_timestamp = None, tc_status = Some (pd_status d),
          tc_mission_id = Some (''M-'' @ int_str (pd_mission_id d)), tc_mission_type = Some (pd_mission_type d),
          tc_mission_progress = Some (py_round 1 (pd_mission_progress d)), tc_mission_start_time = None,
          tc_battery_health = Some (py_round 1 (pd_battery_health d)), tc_motor_health = Some (py_round 1 (pd_motor_health d)),
          tc_sensor_health = Some (py_round 1 (pd_sensor_health d)), tc_network_health = Some (py_round 1 (pd_network_health d)),
          tc_x = Some (py_round 2 (pd_x d)), tc_y = Some (py_round 2 (pd_y d))\<rparr>)"

definition make_telemetry_payload :: "int option \<Rightarrow> payload_draws \<Rightarrow> telemetry_create" where
  "make_telemetry_payload robot_id d = make_payload robot_id d"

section \<open>HTTP tests\<close>

text \<open>
  A request is answered with a status, its body (or the exception reading it raises, only read
  when the status is not 200) and the time it took, or it raises. A refusal whose body cannot
  be read is counted twice, by the branch and by the handler.
\<close>

datatype http_reply = Answered int "string + string" rat | Unanswered string

definition note_exception :: "string \<Rightarrow> test_result \<Rightarrow> test_result" where
  "note_exception message r =
     r\<lparr>tr_total_requests := tr_total_requests r + 1, tr_failed := tr_failed r + 1, tr_errors := tr_errors r @ [message]\<rparr>"

fun http_one :: "http_reply \<Rightarrow> test_result \<Rightarrow> test_result" where
  "http_one (Answered status body elapsed) r =
     (let r1 = r\<lparr>tr_total_requests := tr_total_requests r + 1\<rparr>
      in if status = 200 then r1\<lparr>tr_successful := tr_successful r1 + 1, tr_latencies_ms := tr_latencies_ms r1 @ [elapsed]\<rparr>
         else let r2 = r1\<lparr>tr_failed := tr_failed r1 + 1\<rparr>
              in case body of
                   Inr text \<Rightarrow> r2\<lparr>tr_errors := tr_errors r2 @ [''HTTP '' @ int_str status @ '': '' @ take 100 text]\<rparr>
                 | Inl what \<Rightarrow> note_exception (take 100 what) r2)"
| "http_one (Unanswered what) r = note_exception (take 100 what) r"

definition http_test :: "string \<Rightarrow> http_reply list \<Rightarrow> rat \<Rightarrow> test_result" where
  "http_test name replies duration = (fold http_one replies (new_result name))\<lparr>tr_duration_s := duration\<rparr>"

definition test_single_telemetry :: "nat \<Rightarrow> http_reply list \<Rightarrow> rat \<Rightarrow> test_result" where
  "test_single_telemetry concurrency replies duration =
     http_test (''Single POST /telemetry (concurrency='' @ nat_str concurrency @ '')'') replies duration"

definition test_batch_telemetry :: "nat \<Rightarrow> nat \<Rightarrow> http_reply list \<Rightarrow> rat \<Rightarrow> test_result" where
  "test_batch_telemetry concurrency batch_size replies duration =
     http_test (''Batch POST /telemetry/batch (concurrency='' @ nat_str concurrency @ '', batch='' @ nat_str batch_size @ '')'')
       replies duration"

definition test_get_endpoint :: "string \<Rightarrow> nat \<Rightarrow> string option \<Rightarrow> http_reply list \<Rightarrow> rat \<Rightarrow> test_result" where
  "test_get_endpoint path concurrency name replies duration =
     http_test (if truthy_str name then the name else ''GET '' @ path @ '' (concurrency='' @ nat_str concurrency @ '')'')
       replies duration"

text \<open>The mixed load: the endpoint a roll selects, and the count of one answer; a refusal leaves no error.\<close>

definition mixed_target :: "rat \<Rightarrow> string \<times> string" where
  "mixed_target roll =
     (if roll < 6 / 10 then (''POST'', ''/api/v1/telemetry'')
      else if roll < 8 / 10 then (''GET'', ''/api/v1/robots/status'') else (''GET'', ''/api/v1/analytics/fleet''))"

fun mixed_one :: "http_reply \<Rightarrow> test_result \<Rightarrow> test_result" where
  "mixed_one (Answered status body elapsed) r =
     (let r1 = r\<lparr>tr_total_requests := tr_total_requests r + 1\<rparr>
      in if status = 200 then r1\<lparr>tr_successful := tr_successful r1 + 1, tr_latencies_ms := tr_latencies_ms r1 @ [elapsed]\<rparr>
         else r1\<lparr>tr_failed := tr_failed r1 + 1\<rparr>)"
| "mixed_one (Unanswered what) r = note_exception (take 80 what) r"

definition test_sustained_load :: "nat \<Rightarrow> nat \<Rightarrow> http_reply list \<Rightarrow> rat \<Rightarrow> test_result" where
  "test_sustained_load duration_s concurrency replies duration =
     (fold mixed_one replies
        (new_result (''Sustained mixed load ('' @ nat_str duration_s @ ''s, concurrency='' @ nat_str concurrency @ '')'')))
       \<lparr>tr_duration_s := duration\<rparr>"

section \<open>WebSocket clients\<close>

text \<open>
  What one client's \<open>receive\<close> gave before the end of the test; after that, or instead, an exception
  may have ended the client, which is counted as failed and as successful.
\<close>

datatype ws_event = WsText string | WsClosed | WsError | WsOther | WsTimeout

fun ws_count :: "ws_event list \<Rightarrow> nat" where
  "ws_count [] = 0"
| "ws_count (WsText data # es) = (if data \<noteq> ''ping'' then 1 else 0) + ws_count es"
| "ws_count (WsClosed # es) = 0"
| "ws_count (WsError # es) = 0"
| "ws_count (WsOther # es) = ws_count es"
| "ws_count (WsTimeout # es) = ws_count es"

definition ws_client :: "nat \<times> ws_event list \<times> string option \<Rightarrow> test_result \<times> nat list \<Rightarrow> test_result \<times> nat list" where
  "ws_client c s =
     (case (c, s) of ((client_id, events, ended_by), (r, counts)) \<Rightarrow>
        let r' = (case ended_by of
                    None \<Rightarrow> r
                  | Some what \<Rightarrow> r\<lparr>tr_errors := tr_errors r @ [''Client '' @ nat_str client_id @ '': '' @ take 80 what],
                                    tr_failed := tr_failed r + 1\<rparr>)
        in (r'\<lparr>tr_successful := tr_successful r' + 1\<rparr>, counts @ [ws_count events]))"

definition test_websocket :: "nat \<Rightarrow> (ws_event list \<times> string option) list \<Rightarrow> rat \<Rightarrow> test_result \<times> nat list" where
  "test_websocket duration_s clients duration =
     (case fold ws_client (zip [0..<length clients] clients)
             (new_result (''WebSocket ('' @ nat_str (length clients) @ '' clients, '' @ nat_str duration_s @ ''s)''), []) of
        (r, counts) \<Rightarrow> (r\<lparr>tr_duration_s := duration, tr_total_requests := length clients\<rparr>, counts))"

section \<open>Database write verification\<close>

datatype post_reply = PostStatus int | PostRaised string
datatype page_reply = GotPage int "string + json_obj list" | GetRaised string

definition lists_robot :: "int \<Rightarrow> json_obj list \<Rightarrow> bool" where
  "lists_robot unique_id page = list_ex (\<lambda>r. dict_get r ''robot_id'' = Some (JNum (of_int unique_id))) page"

definition verification_error :: "string \<Rightarrow> test_result \<Rightarrow> test_result" where
  "verification_error what r = note_exception (''DB verification error: '' @ take 80 what) r"

definition count_page :: "int \<Rightarrow> page_reply \<Rightarrow> test_result \<Rightarrow> test_result" where
  "count_page unique_id reply r =
     (case reply of
        GetRaised what \<Rightarrow> verification_error what r
      | GotPage status body \<Rightarrow>
          (let r1 = r\<lparr>tr_total_requests := tr_total_requests r + 1\<rparr>
           in if status = 200 then
                (case body of
                   Inl what \<Rightarrow> verification_error what r1
                 | Inr page \<Rightarrow>
                     if lists_robot unique_id page then r1\<lparr>tr_successful := tr_successful r1 + 1\<rparr>
                     else r1\<lparr>tr_failed := tr_failed r1 + 1\<rparr>)
              else r1\<lparr>tr_failed := tr_failed r1 + 1\<rparr>))"

definition test_db_write_verification :: "int \<Rightarrow> post_reply \<Rightarrow> page_reply \<Rightarrow> rat \<Rightarrow> test_result" where
  "test_db_write_verification unique_id post page duration =
     (let r = new_result ''DB Write Verification (end-to-end)''
      in case post of
           PostRaised what \<Rightarrow> (verification_error what r)\<lparr>tr_duration_s := duration\<rparr>
         | PostStatus status \<Rightarrow>
             (let r1 = r\<lparr>tr_total_requests := tr_total_requests r + 1\<rparr>
              in if status = 200
                 then (count_page unique_id page (r1\<lparr>tr_successful := tr_successful r1 + 1\<rparr>))\<lparr>tr_duration_s := duration\<rparr>
                 else r1\<lparr>tr_failed := tr_failed r1 + 1\<rparr>))"

section \<open>The run\<close>

datatype stress_test =
    Single nat nat
  | Batch nat nat nat
  | GetPath string nat nat string
  | Sockets nat nat
  | Mixed nat nat
  | Verify

definition get_sweep :: "string \<Rightarrow> string \<Rightarrow> stress_test list" where
  "get_sweep path label =
     map (\<lambda>conc. GetPath path conc (conc * 2) (label @ '' (concurrency='' @ nat_str conc @ '')'')) [1, 10, 50, 500, 1500, 2000]"

definition test_plan :: "stress_test list" where
  "test_plan =
     map (\<lambda>conc. Single conc (conc * 2)) [1, 10, 50, 100, 500, 1500, 2000]
     @ map (\<lambda>conc. Batch conc (conc * 2) 50) [1, 10, 50, 100, 500]
     @ get_sweep ''/api/v1/robots/status'' ''GET /robots/status''
     @ get_sweep ''/api/v1/analytics/fleet'' ''GET /analytics/fleet''
     @ map (\<lambda>clients. Sockets clients 10) [5, 20, 50, 500, 1500, 2000]
     @ [Mixed 30 50, Verify]"

text \<open>
  What the stack answers each test of the plan, and how long the test takes. The run is
  abandoned when \<open>/health\<close> raises or does not call the database healthy.
\<close>

record stack_answers =
  sk_health :: "string option option"
  sk_http :: "stress_test \<Rightarrow> http_reply list"
  sk_clients :: "stress_test \<Rightarrow> (ws_event list \<times> string option) list"
  sk_unique_id :: int
  sk_post :: post_reply
  sk_page :: page_reply
  sk_duration :: "stress_test \<Rightarrow> rat"

definition run_test :: "stack_answers \<Rightarrow> stress_test \<Rightarrow> test_result" where
  "run_test a t =
     (case t of
        Single conc num_requests \<Rightarrow> test_single_telemetry conc (sk_http a t) (sk_duration a t)
      | Batch conc num_batches batch_size \<Rightarrow> test_batch_telemetry conc batch_size (sk_http a t) (sk_duration a t)
      | GetPath path conc num_requests name \<Rightarrow> test_get_endpoint path conc (Some name) (sk_http a t) (sk_duration a t)
      | Sockets num_clients duration_s \<Rightarrow> fst (test_websocket duration_s (sk_clients a t) (sk_duration a t))
      | Mixed duration_s concurrency \<Rightarrow> test_sustained_load duration_s concurrency (sk_http a t) (sk_duration a t)
      | Verify \<Rightarrow> test_db_write_verification (sk_unique_id a) (sk_post a) (sk_page a) (sk_duration a t))"

definition run_all_tests :: "stack_answers \<Rightarrow> test_result list option" where
  "run_all_tests a = (if sk_health a = Some (Some ''healthy'') then Some (map (run_test a) test_plan) else None)"

definition sum_total :: "test_result list \<Rightarrow> nat" where "sum_total rs = sum_list (map tr_total_requests rs)"
definition sum_ok :: "test_result list \<Rightarrow> nat" where "sum_ok rs = sum_list (map tr_successful rs)"
definition sum_fail :: "test_result list \<Rightarrow> nat" where "sum_fail rs = sum_list (map tr_failed rs)"

definition sampled_errors :: "test_result list \<Rightarrow> string list" where
  "sampled_errors rs = concat (map (\<lambda>r. take 5 (tr_errors r)) rs)"

definition best_throughput :: "test_result list \<Rightarrow> test_result list" where
  "best_throughput rs =
     take 5 (sort_key (\<lambda>r. - tr_rps r)
       (filter (\<lambda>r. tr_rps r > 0 \<and> \<not> py_contains ''WebSocket'' (tr_name r) \<and> \<not> py_contains ''Verification'' (tr_name r)) rs))"

section \<open>Lemmas: statistics\<close>

lemma rank_index:
  fixes q :: rat
  assumes "0 < n" "0 \<le> q" "q \<le> 1"
  shows "min (nat \<lfloor>of_nat n * q\<rfloor>) (n - 1) < n" "1 / 2 \<le> q \<Longrightarrow> n div 2 \<le> min (nat \<lfloor>of_nat n * q\<rfloor>) (n - 1)"
proof -
  show "min (nat \<lfloor>of_nat n * q\<rfloor>) (n - 1) < n" using assms(1) by simp
  assume "1 / 2 \<le> q"
  then have "of_nat n * (1 / 2) \<le> of_nat n * q" by (intro mult_left_mono) simp_all
  moreover have "of_nat (n div 2) \<le> (of_nat n * (1 / 2) :: rat)"
    using of_nat_mono [of "n div 2 * 2" n, where 'a = rat] by simp
  ultimately have "of_nat (n div 2) \<le> of_nat n * q" by linarith
  then have "int (n div 2) \<le> \<lfloor>of_nat n * q\<rfloor>" by (simp add: le_floor_iff)
  then have "nat (int (n div 2)) \<le> nat \<lfloor>of_nat n * q\<rfloor>" by (rule nat_mono)
  moreover have "n div 2 \<le> n - 1" using assms(1) by linarith
  ultimately show "n div 2 \<le> min (nat \<lfloor>of_nat n * q\<rfloor>) (n - 1)" by simp
qed

lemma rank_mono:
  fixes q p :: rat
  assumes "p \<le> q"
  shows "min (nat \<lfloor>of_nat n * p\<rfloor>) (n - 1) \<le> min (nat \<lfloor>of_nat n * q\<rfloor>) (n - 1)"
proof -
  have "of_nat n * p \<le> of_nat n * q" using assms by (simp add: mult_left_mono)
  then have "\<lfloor>of_nat n * p\<rfloor> \<le> \<lfloor>of_nat n * q\<rfloor>" by (rule floor_mono)
  then have "nat \<lfloor>of_nat n * p\<rfloor> \<le> nat \<lfloor>of_nat n * q\<rfloor>" by (rule nat_mono)
  then show ?thesis by simp
qed

lemma median_between:
  assumes "xs \<noteq> []"
  shows "sort xs ! 0 \<le> median xs" "median xs \<le> sort xs ! (length xs div 2)"
proof -
  let ?s = "sort xs" and ?m = "length xs div 2"
  have le: "?s ! i \<le> ?s ! j" if "i \<le> j" "j < length xs" for i j
    using that by (simp add: sorted_nth_mono)
  have m: "?m < length xs" "?m - 1 < length xs" using assms by (cases xs; simp)+
  show "?s ! 0 \<le> median xs" "median xs \<le> ?s ! ?m"
    using le [of 0 ?m] le [of 0 "?m - 1"] le [of "?m - 1" ?m] m by (simp_all add: median_def Let_def)
qed

text \<open>
  The latency figures of a test are ordered as their names promise: the smallest latency,
  p50, p95, p99 and the largest latency, and each percentile is a latency that was measured.
\<close>

theorem latency_figures_ordered:
  assumes "tr_latencies_ms r \<noteq> []"
  shows "Min (set (tr_latencies_ms r)) \<le> tr_p50 r \<and> tr_p50 r \<le> tr_p95 r \<and> tr_p95 r \<le> tr_p99 r
    \<and> tr_p99 r \<le> Max (set (tr_latencies_ms r)) \<and> {tr_p95 r, tr_p99 r} \<subseteq> set (tr_latencies_ms r)"
proof -
  let ?xs = "tr_latencies_ms r" and ?n = "length (tr_latencies_ms r)"
  let ?i = "\<lambda>q::rat. min (nat \<lfloor>of_nat ?n * q\<rfloor>) (?n - 1)"
  have n: "0 < ?n" using assms by simp
  have le: "sort ?xs ! i \<le> sort ?xs ! j" if "i \<le> j" "j < ?n" for i j
    using that by (simp add: sorted_nth_mono)
  have mem: "sort ?xs ! i \<in> set ?xs" if "i < ?n" for i using that by (metis length_sort nth_mem set_sort)
  have p: "tr_p50 r = median ?xs" "tr_p95 r = sort ?xs ! ?i (95 / 100)" "tr_p99 r = sort ?xs ! ?i (99 / 100)"
    using assms by (simp_all add: tr_p50_def tr_p95_def tr_p99_def)
  have i: "?n div 2 \<le> ?i (95 / 100)" "?i (95 / 100) \<le> ?i (99 / 100)" "?i (95 / 100) < ?n" "?i (99 / 100) < ?n"
    using rank_index [OF n, of "95 / 100"] rank_index [OF n, of "99 / 100"] rank_mono [of "95 / 100" "99 / 100" ?n] by simp_all
  have "Min (set ?xs) \<le> sort ?xs ! 0" using mem [OF n] by simp
  moreover have "sort ?xs ! ?i (99 / 100) \<le> Max (set ?xs)" using mem [OF i(4)] by simp
  ultimately show ?thesis
    using median_between [OF assms] le [OF i(1,3)] le [OF i(2,4)] mem [OF i(3)] mem [OF i(4)] by (simp add: p)
qed

section \<open>Lemmas: bookkeeping\<close>

definition balanced :: "test_result \<Rightarrow> bool" where
  "balanced r \<longleftrightarrow> tr_successful r + tr_failed r = tr_total_requests r"

fun good_reply :: "http_reply \<Rightarrow> bool" where
  "good_reply (Answered status body elapsed) = (status = 200)"
| "good_reply (Unanswered what) = False"

lemma balanced_new [simp]: "balanced (new_result name)"
  by (simp add: balanced_def new_result_def)

lemma new_result_fields [simp]:
  "tr_name (new_result name) = name" "tr_total_requests (new_result name) = 0" "tr_successful (new_result name) = 0"
  "tr_failed (new_result name) = 0" "tr_latencies_ms (new_result name) = []" "tr_duration_s (new_result name) = 0"
  "tr_errors (new_result name) = []"
  by (simp_all add: new_result_def)

lemma balanced_pass [simp]:
  "balanced (r\<lparr>tr_total_requests := Suc n, tr_successful := Suc m\<rparr>) = balanced (r\<lparr>tr_total_requests := n, tr_successful := m\<rparr>)"
  "balanced (r\<lparr>tr_total_requests := Suc n, tr_failed := Suc m\<rparr>) = balanced (r\<lparr>tr_total_requests := n, tr_failed := m\<rparr>)"
  by (simp_all add: balanced_def)

lemma balanced_note [simp]: "balanced (note_exception what r) = balanced r"
  by (simp add: balanced_def note_exception_def)

lemma balanced_duration [simp]: "balanced (r\<lparr>tr_duration_s := d\<rparr>) = balanced r"
  by (simp add: balanced_def)

lemma balanced_errors [simp]: "balanced (r\<lparr>tr_errors := es\<rparr>) = balanced r"
  by (simp add: balanced_def)

lemma http_one_step:
  "balanced r \<Longrightarrow> balanced (http_one x r)"
  "tr_successful (http_one x r) = tr_successful r + (if good_reply x then 1 else 0)"
  "length (tr_latencies_ms (http_one x r)) = length (tr_latencies_ms r) + (if good_reply x then 1 else 0)"
  "tr_total_requests r + 1 \<le> tr_total_requests (http_one x r)"
  by (cases x; auto simp: balanced_def note_exception_def Let_def split: sum.splits)+

lemma mixed_one_step:
  "balanced r \<Longrightarrow> balanced (mixed_one x r)"
  "tr_successful (mixed_one x r) = tr_successful r + (if good_reply x then 1 else 0)"
  "length (tr_latencies_ms (mixed_one x r)) = length (tr_latencies_ms r) + (if good_reply x then 1 else 0)"
  "tr_total_requests r + 1 \<le> tr_total_requests (mixed_one x r)"
  by (cases x; auto simp: balanced_def note_exception_def Let_def)+

text \<open>What a loop over replies adds up to, given what one step does.\<close>

locale reply_counter =
  fixes one :: "http_reply \<Rightarrow> test_result \<Rightarrow> test_result"
  assumes keeps: "balanced r \<Longrightarrow> balanced (one x r)"
    and ok: "tr_successful (one x r) = tr_successful r + (if good_reply x then 1 else 0)"
    and lat: "length (tr_latencies_ms (one x r)) = length (tr_latencies_ms r) + (if good_reply x then 1 else 0)"
    and tot: "tr_total_requests r + 1 \<le> tr_total_requests (one x r)"
begin

lemma fold_balanced: "balanced r \<Longrightarrow> balanced (fold one xs r)"
  by (induction xs arbitrary: r) (simp_all add: keeps)

lemma fold_counts:
  "tr_successful (fold one xs r) = tr_successful r + length (filter good_reply xs)"
  "length (tr_latencies_ms (fold one xs r)) = length (tr_latencies_ms r) + length (filter good_reply xs)"
  by (induction xs arbitrary: r) (simp_all add: ok lat)

lemma fold_total: "tr_total_requests r + length xs \<le> tr_total_requests (fold one xs r)"
proof (induction xs arbitrary: r)
  case (Cons x xs)
  from Cons.IH [of "one x r"] tot [of r x] show ?case by simp
qed simp

end

interpretation http_loop: reply_counter http_one
  by unfold_locales (rule http_one_step, assumption?)+

interpretation mixed_loop: reply_counter mixed_one
  by unfold_locales (rule mixed_one_step, assumption?)+


lemma http_test_counts:
  "balanced (http_test name replies d)"
  "tr_successful (http_test name replies d) = length (filter good_reply replies)"
  "length (tr_latencies_ms (http_test name replies d)) = length (filter good_reply replies)"
  "length replies \<le> tr_total_requests (http_test name replies d)"
  using http_loop.fold_balanced [of "new_result name" replies] http_loop.fold_counts [of replies "new_result name"]
    http_loop.fold_total [of "new_result name" replies]
  by (simp_all add: http_test_def)

lemma sustained_counts:
  "balanced (test_sustained_load s c replies d)"
  "tr_successful (test_sustained_load s c replies d) = length (filter good_reply replies)"
  "length (tr_latencies_ms (test_sustained_load s c replies d)) = length (filter good_reply replies)"
  "length replies \<le> tr_total_requests (test_sustained_load s c replies d)"
  unfolding test_sustained_load_def
  using mixed_loop.fold_balanced [OF balanced_new, of replies] mixed_loop.fold_counts [of replies]
  by (simp_all add: order_trans [OF _ mixed_loop.fold_total])

text \<open>A status page that answers 200 but cannot be read is counted twice in the total and once as failed.\<close>

definition unreadable :: "post_reply \<Rightarrow> page_reply \<Rightarrow> nat" where
  "unreadable post page =
     (case (post, page) of (PostStatus p, GotPage s (Inl what)) \<Rightarrow> if p = 200 \<and> s = 200 then 1 else 0 | _ \<Rightarrow> 0)"

lemma verification_counts:
  "tr_successful (test_db_write_verification uid post page d) + tr_failed (test_db_write_verification uid post page d)
     + unreadable post page = tr_total_requests (test_db_write_verification uid post page d)"
  by (cases post; cases page)
    (auto simp: unreadable_def split: sum.splits simp: test_db_write_verification_def verification_error_def count_page_def note_exception_def Let_def)

text \<open>Failed clients are also counted as successful, so the books of the WebSocket test do not close.\<close>

definition dropped :: "(ws_event list \<times> string option) list \<Rightarrow> nat" where
  "dropped clients = length (filter (\<lambda>c. snd c \<noteq> None) clients)"

lemma ws_clients_counts:
  fixes cs :: "(nat \<times> ws_event list \<times> string option) list"
  assumes "fold ws_client cs (r, counts) = (r', counts')"
  shows "tr_successful r' = tr_successful r + length cs" "tr_failed r' = tr_failed r + dropped (map snd cs)"
    "counts' = counts @ map (\<lambda>c. ws_count (fst (snd c))) cs"
proof -
  have "tr_successful r' = tr_successful r + length cs \<and> tr_failed r' = tr_failed r + dropped (map snd cs)
      \<and> counts' = counts @ map (\<lambda>c. ws_count (fst (snd c))) cs"
    using assms
  proof (induction cs arbitrary: r counts)
    case (Cons c cs)
    obtain r1 counts1 where step: "ws_client c (r, counts) = (r1, counts1)" by fastforce
    then have "tr_successful r1 = tr_successful r + 1" "tr_failed r1 = tr_failed r + dropped [snd c]"
      "counts1 = counts @ [ws_count (fst (snd c))]"
      by (cases c; auto simp: ws_client_def dropped_def Let_def split: option.splits)+
    with Cons.IH [of r1 counts1] Cons.prems step show ?case by (simp add: dropped_def)
  qed (simp add: dropped_def)
  then show "tr_successful r' = tr_successful r + length cs" "tr_failed r' = tr_failed r + dropped (map snd cs)"
    "counts' = counts @ map (\<lambda>c. ws_count (fst (snd c))) cs" by simp_all
qed

lemma websocket_counts:
  "tr_total_requests (fst (test_websocket s clients d)) = length clients"
  "tr_successful (fst (test_websocket s clients d)) = length clients"
  "tr_failed (fst (test_websocket s clients d)) = dropped clients"
  "snd (test_websocket s clients d) = map (ws_count \<circ> fst) clients"
proof -
  let ?cs = "zip [0..<length clients] clients"
  let ?name = "''WebSocket ('' @ nat_str (length clients) @ '' clients, '' @ nat_str s @ ''s)''"
  obtain r' counts' where run: "fold ws_client ?cs (new_result ?name, []) = (r', counts')" by fastforce
  note c = ws_clients_counts [OF run]
  have snds: "map snd ?cs = clients" by simp
  have counts: "counts' = map (ws_count \<circ> fst) clients"
    using c(3) by (simp add: comp_def flip: map_map [of "\<lambda>c. ws_count (fst c)" snd, unfolded comp_def snds])
  show "tr_total_requests (fst (test_websocket s clients d)) = length clients"
    "tr_successful (fst (test_websocket s clients d)) = length clients"
    "tr_failed (fst (test_websocket s clients d)) = dropped clients"
    "snd (test_websocket s clients d) = map (ws_count \<circ> fst) clients"
    using c(1,2) snds counts run by (simp_all add: test_websocket_def)
qed

definition dropped_in :: "stack_answers \<Rightarrow> stress_test \<Rightarrow> nat" where
  "dropped_in a t = (case t of Sockets n s \<Rightarrow> dropped (sk_clients a t) | _ \<Rightarrow> 0)"

definition unread_in :: "stack_answers \<Rightarrow> stress_test \<Rightarrow> nat" where
  "unread_in a t = (case t of Verify \<Rightarrow> unreadable (sk_post a) (sk_page a) | _ \<Rightarrow> 0)"

lemma run_test_books:
  "tr_successful (run_test a t) + tr_failed (run_test a t) + unread_in a t = tr_total_requests (run_test a t) + dropped_in a t"
  using http_test_counts(1) sustained_counts(1) verification_counts
  by (cases t) (simp_all add: run_test_def dropped_in_def unread_in_def balanced_def test_single_telemetry_def test_batch_telemetry_def
      test_get_endpoint_def websocket_counts)

text \<open>
  The books of the stress test. An HTTP or mixed test reports exactly the replies with status
  200 as successful, with one latency each, and every request at least once in its total; over a
  whole run the successes and failures of the summary differ from the total by exactly the
  WebSocket clients that ended in an exception, which the script counts on both sides, and a
  status page that could not be read, whose request it counts twice.
\<close>

theorem stress_books:
  "tr_successful (http_test name replies d) = length (filter good_reply replies)
   \<and> length (tr_latencies_ms (http_test name replies d)) = tr_successful (http_test name replies d)
   \<and> length replies \<le> tr_total_requests (http_test name replies d)
   \<and> tr_successful (test_sustained_load s c replies d) = length (filter good_reply replies)
   \<and> length (tr_latencies_ms (test_sustained_load s c replies d)) = tr_successful (test_sustained_load s c replies d)
   \<and> (run_all_tests a = Some rs \<longrightarrow>
        sum_ok rs + sum_fail rs + unreadable (sk_post a) (sk_page a) = sum_total rs + sum_list (map (dropped_in a) test_plan))"
proof -
  have "sum_list (map (\<lambda>t. tr_successful (run_test a t)) test_plan) + sum_list (map (\<lambda>t. tr_failed (run_test a t)) test_plan)
      + sum_list (map (unread_in a) test_plan) = sum_list (map (\<lambda>t. tr_total_requests (run_test a t)) test_plan) + sum_list (map (dropped_in a) test_plan)"
    by (simp add: run_test_books flip: sum_list_addf)
  moreover have "sum_list (map (unread_in a) test_plan) = unreadable (sk_post a) (sk_page a)"
    by (simp add: test_plan_def get_sweep_def unread_in_def)
  ultimately have "run_all_tests a = Some rs \<longrightarrow>
      sum_ok rs + sum_fail rs + unreadable (sk_post a) (sk_page a) = sum_total rs + sum_list (map (dropped_in a) test_plan)"
    by (auto simp: run_all_tests_def sum_ok_def sum_fail_def sum_total_def comp_def)
  then show ?thesis using http_test_counts sustained_counts by simp
qed


theorem latency_figures_ordered_witness:
  "tr_p50 ((new_result ''GET /health'')\<lparr>tr_latencies_ms := [3, 1, 2]\<rparr>) \<le> tr_p95 ((new_result ''GET /health'')\<lparr>tr_latencies_ms := [3, 1, 2]\<rparr>)"
  using latency_figures_ordered [of "(new_result ''GET /health'')\<lparr>tr_latencies_ms := [3, 1, 2]\<rparr>"] by simp

text \<open>A stack that answers nothing but its health check.\<close>

definition silent_stack :: stack_answers where
  "silent_stack = \<lparr>sk_health = Some (Some ''healthy''), sk_http = (\<lambda>t. []), sk_clients = (\<lambda>t. [([], Some ''refused'')]),
     sk_unique_id = 9000, sk_post = PostStatus 200, sk_page = GotPage 200 (Inl ''bad JSON''), sk_duration = (\<lambda>t. 1)\<rparr>"

theorem stress_books_witness:
  "\<exists>rs. run_all_tests silent_stack = Some rs \<and> sum_ok rs + sum_fail rs = sum_total rs + 5"
proof -
  obtain rs where rs: "run_all_tests silent_stack = Some rs" by (simp add: run_all_tests_def silent_stack_def)
  have "sum_list (map (dropped_in silent_stack) test_plan) = 6"
    by (simp add: test_plan_def get_sweep_def dropped_in_def dropped_def silent_stack_def)
  moreover have "unreadable (sk_post silent_stack) (sk_page silent_stack) = 1"
    by (simp add: unreadable_def silent_stack_def)
  ultimately show ?thesis
    using stress_books [of "''t''" "[]" 1 1 1 silent_stack rs] rs by auto
qed

section \<open>The write verification against the backend\<close>

lemma make_payload_id: "0 < uid \<Longrightarrow> tc_robot_id (make_payload (Some uid) d) = uid"
  by (simp add: make_payload_def Let_def)

text \<open>Every generated payload fits its columns.\<close>

lemma payload_storable:
  assumes "draws_ok d" "0 < uid" "int4 uid"
  shows "telemetry_row_ok (new_row i (make_payload (Some uid) d) ts)"
proof -
  have "length (int_str (pd_mission_id d)) \<le> Suc 4"
    using assms(1) by (intro length_int_str) (simp_all add: draws_ok_def)
  then show ?thesis
    using assms by (auto simp: draws_ok_def telemetry_row_ok_def new_row_def make_payload_def fits_def Let_def)
qed

lemma ingest_direct_row:
  assumes "\<not> opt_redis_buffer cfg" "\<not> defer_writes_without_viewers cfg \<or> 0 < viewers" "roster_wf (robots (tdb st))"
    and "tc_timestamp data = None" "telemetry_row_ok (new_row (next_id (tdb st)) data now)"
    and run: "ingest cfg dump_dt viewers now data st = (r, st')"
  shows "\<exists>ack. r = Inr ack" "new_row (next_id (tdb st)) data now \<in> set (readings (tdb st'))" "roster_wf (robots (tdb st'))"
proof -
  let ?row = "new_row (next_id (tdb st)) data now"
  have "roster_wf (mark_seen now [(t_robot_id ?row, t_timestamp ?row)] (robots (tdb st)))"
    using mark_seen_laws [OF _ assms(3)] by simp
  moreover have "r = Inr [(''message'', JStr ''Telemetry received''), (''id'', JNum (of_int (t_id ?row)))]"
    "readings (tdb st') = readings (tdb st) @ [?row]"
    "robots (tdb st') = mark_seen now [(t_robot_id ?row, t_timestamp ?row)] (robots (tdb st))"
    using assms by (auto simp: ingest_def resolve_timestamp_def telemetry_insert_def add_row_def announce_def Let_def)
  ultimately show "\<exists>ack. r = Inr ack" "?row \<in> set (readings (tdb st'))" "roster_wf (robots (tdb st'))" by simp_all
qed

lemma lists_robot_page:
  "lists_robot uid (map status_json l) \<longleftrightarrow> uid \<in> set (map rs_robot_id l)"
  by (auto simp: lists_robot_def list_ex_iff status_json_def)



lemma fleet_list_length:
  assumes "scan_ok scan" "scan_ok scan2" "0 < fleet_history_per_robot cfg" "roster_wf (robots db)"
  shows "length (fleet_list scan scan2 cfg dbnow now db) \<le> length (robots db) + length (readings db)"
proof -
  let ?a = "r_id ` {r \<in> set (robots db). r_is_active r}"
    and ?b = "t_robot_id ` {r \<in> set (readings db). in_window dbnow (fleet_window_minutes cfg) r}"
  have "length (fleet_list scan scan2 cfg dbnow now db) = length (map rs_robot_id (fleet_list scan scan2 cfg dbnow now db))" by simp
  also have "\<dots> = card (expected_ids dbnow cfg db)" using fleet_list_described [OF assms, of dbnow now] by simp
  also have "\<dots> \<le> card ?a + card ?b" unfolding expected_ids_def by (rule card_Un_le)
  also have "card ?a \<le> card (set (robots db))" by (rule order_trans [OF card_image_le]) (auto intro: card_mono)
  also have "\<dots> \<le> length (robots db)" by (rule card_length)
  also have "card ?b \<le> card (set (readings db))" by (rule order_trans [OF card_image_le]) (auto intro: card_mono)
  also have "\<dots> \<le> length (readings db)" by (rule card_length)
  finally show ?thesis by simp
qed

definition sample_draws :: payload_draws where
  "sample_draws = \<lparr>pd_robot_id = 3, pd_battery = 50, pd_temperature = 30, pd_speed = 1, pd_status = ''ACTIVE'',
     pd_mission_id = 1234, pd_mission_type = ''PATROL'', pd_mission_progress = 10, pd_battery_health = 90, pd_motor_health = 90,
     pd_sensor_health = 90, pd_network_health = 90, pd_x = 0, pd_y = 0\<rparr>"

definition uncached_settings :: settings where
  "uncached_settings = direct_settings\<lparr>opt_read_cache := False\<rparr>"


end
