(* ===== verification/FleetBenchStack.thy ===== *)
theory FleetBenchStack
  imports FleetStress
begin

text \<open>
  The stack side of the benchmark harness: the docker and database commands it issues, the seeding
  of the telemetry table, the request each workload sends, and a measured run against the rate
  limiter of the backend it measures.
\<close>

section \<open>Stack control\<close>

text \<open>\<open>{**os.environ, **env}\<close>: the command line and the environment of a compose call.\<close>

definition compose :: "string list \<Rightarrow> (string \<times> string) list \<Rightarrow> (string \<times> string) list \<Rightarrow> string list \<times> (string \<times> string) list" where
  "compose args env environ = ([''docker'', ''compose''] @ args, fold (\<lambda>(k, v). dict_set k v) env environ)"

definition psql_args :: "string \<Rightarrow> string list" where
  "psql_args sql = [''exec'', ''-T'', ''db'', ''psql'', ''-U'', ''postgres'', ''-d'', ''robotfleet'', ''-tAc'', sql]"

text \<open>The count is the last line of what psql printed; anything else counts as an empty table.\<close>

definition telemetry_row_count :: "string \<Rightarrow> int" where
  "telemetry_row_count stdout =
     (let out = py_strip stdout
      in if out = [] then 0
         else (case py_int (last (py_split (CHR 0x0A) out)) of None \<Rightarrow> 0 | Some n \<Rightarrow> n))"

text \<open>
  \<open>seed_telemetry\<close>: the batches it posts, and whether one of the counts read until the deadline is
  at least nine tenths of what was asked for. It returns either way.
\<close>

definition seed_batches :: "nat \<Rightarrow> nat \<Rightarrow> nat" where
  "seed_batches rows batch_size = max (rows div batch_size) 1"

fun seed_wait :: "nat \<Rightarrow> int list \<Rightarrow> bool" where
  "seed_wait rows [] = False"
| "seed_wait rows (n # ns) = (if of_int n \<ge> of_nat rows * (9 / 10 :: rat) then True else seed_wait rows ns)"

section \<open>Workloads against the limiter\<close>

definition bench_payload :: "int option \<Rightarrow> payload_draws \<Rightarrow> telemetry_create" where
  "bench_payload robot_id d = make_payload robot_id d"

text \<open>The request a workload of \<open>WORKLOADS\<close> repeats.\<close>

definition workload_route :: "string \<Rightarrow> (string \<times> string) option" where
  "workload_route w =
     dict_get [(''ingest'', (''POST'', ''/api/v1/telemetry'')), (''ingest_batch'', (''POST'', ''/api/v1/telemetry/batch'')),
       (''read_status'', (''GET'', ''/api/v1/robots/status'')), (''read_analytics'', (''GET'', ''/api/v1/analytics/fleet'')),
       (''health'', (''GET'', ''/'')), (''ws_fanout'', (''POST'', ''/api/v1/telemetry/batch'')),
       (''worker_drain'', (''POST'', ''/api/v1/telemetry/batch''))] w"

definition client_scope :: "string \<Rightarrow> string \<times> string \<Rightarrow> scope" where
  "client_scope ip route =
     \<lparr>sc_type = ''http'', sc_method = fst route, sc_path = snd route, sc_client = Some ip, sc_header = (\<lambda>h. None)\<rparr>"

text \<open>A request that passes the limiter is answered 200 by the application.\<close>

fun answered :: "verdict \<Rightarrow> rat \<Rightarrow> outcome_of_request" where
  "answered PassOn elapsed = Replied 200 [] elapsed"
| "answered (Answer r) elapsed = Replied (hr_status r) [] elapsed"

text \<open>
  The measured run of an arm: the warm-up and the run post from the harness's address, at the given
  times, to a stack whose limiter is in some state; the warm-up's answers are discarded.
\<close>

definition measured_run ::
  "'r pipeline \<Rightarrow> settings \<Rightarrow> limiter_cfg \<Rightarrow> 'r limiter_state \<Rightarrow> string \<Rightarrow> string \<times> string
   \<Rightarrow> (instant \<times> string) list \<Rightarrow> (instant \<times> string) list \<Rightarrow> rat \<Rightarrow> rat \<Rightarrow> sample"
where
  "measured_run pipe cfg lc st ip route warmup requests elapsed duration =
     (let verdicts = mw_run pipe cfg lc st (map (\<lambda>(now, member). (client_scope ip route, now, member)) (warmup @ requests))
      in drive (map (\<lambda>v. answered v elapsed) (drop (length warmup) verdicts)) duration)"

section \<open>Lemmas\<close>

text \<open>The flag of an arm reaches the stack, whatever the caller's environment says.\<close>

lemma compose_env_get:
  "distinct (map fst env) \<Longrightarrow> dict_get (snd (compose args env environ)) k = (case dict_get env k of Some v \<Rightarrow> Some v | None \<Rightarrow> dict_get environ k)"
proof (induction env arbitrary: environ)
  case (Cons p env)
  obtain k' v' where p: "p = (k', v')" by fastforce
  have "dict_get (snd (compose args env (dict_set k' v' environ))) k =
      (case dict_get env k of Some v \<Rightarrow> Some v | None \<Rightarrow> dict_get (dict_set k' v' environ) k)"
    using Cons p by simp
  moreover have "k' = k \<Longrightarrow> map_of env k = None" using Cons.prems p by (auto simp: map_of_eq_None_iff)
  ultimately show ?case by (auto simp: compose_def p split: option.splits)
qed (simp add: compose_def)

lemma compose_flag:
  "dict_get (snd (compose args (restart_env ex flag_value) environ)) (ex_flag ex) = Some (if flag_value then ''true'' else ''false'')"
  by (simp add: compose_env_get restart_env_def)

lemma row_count_printed: "telemetry_row_count (int_str n) = n"
proof -
  have "CHR 0x0A \<notin> set (int_str n)" using int_str_no_space [of n] by (auto simp: list_all_iff py_isspace_def)
  moreover have "int_str n \<noteq> []" using py_int_int_str [of n] by (auto simp: py_int_def py_strip_none)
  ultimately show ?thesis by (simp add: telemetry_row_count_def py_strip_none int_str_no_space py_split_no_sep Let_def)
qed

lemma record_errors: "sa_failed (fold record_error es s) = sa_failed s + length es"
  "sa_successful (fold record_error es s) = sa_successful s"
  by (induction es arbitrary: s) (simp_all add: record_error_def)

lemma drive_one_counts:
  "sa_successful (fold drive_one os s) = sa_successful s + length (filter (\<lambda>q. \<exists>b e. q = Replied 200 b e) os)"
  "sa_failed (fold drive_one os s) = sa_failed s + length (filter (\<lambda>q. \<not> (\<exists>b e. q = Replied 200 b e)) os)"
proof (induction os arbitrary: s)
  case (Cons q os)
  { case 1 show ?case using Cons(1) by (cases q) (auto simp: record_error_def) }
  { case 2 show ?case using Cons(2) by (cases q) (auto simp: record_error_def) }
qed simp_all

text \<open>
  Requests of one address that all fall into one window: a refused request is remembered like an
  admitted one, so the first ones up to the budget pass and no other.
\<close>

lemma mw_run_one_window:
  assumes mem: "rate_limit_backend cfg = ''memory''" and ch: "charged lc sc = Some (b, ip)"
    and inside: "\<forall>(now, m) \<in> set reqs. T - seconds (lc_window_seconds lc) < now \<and> now \<le> T"
    and earlier: "case memory_windows st (b @ '':'' @ ip) of None \<Rightarrow> earlier = [] | Some ts \<Rightarrow> ts = earlier"
    and recent: "\<forall>t \<in> set earlier. T - seconds (lc_window_seconds lc) < t"
  shows "mw_run pipe cfg lc st (map (\<lambda>(now, m). (sc, now, m)) reqs) =
    map (\<lambda>i. if int (length earlier + i) < budget lc b then PassOn else Answer (rate_limited_response (lc_window_seconds lc)))
      [0..<length reqs]"
  using inside earlier recent
proof (induction reqs arbitrary: st earlier)
  case (Cons r reqs)
  obtain now m where r: "r = (now, m)" by fastforce
  let ?w = "lc_window_seconds lc" and ?k = "b @ '':'' @ ip"
  have b: "sc_type sc = ''http''" "rate_limit_bucket (sc_method sc) (sc_path sc) = Some b"
    "client_ip_from_scope sc (lc_trusted_proxy_count lc) = ip"
    using ch by (auto simp: charged_def split: if_splits)
  have all_fresh: "filter (\<lambda>t. now - seconds ?w < t) earlier = earlier"
    using Cons.prems(1,3) r by (auto simp: filter_id_conv)
  have ts: "(case memory_windows st ?k of Some ts \<Rightarrow> ts | None \<Rightarrow> []) = earlier"
    using Cons.prems(2) by (auto split: option.splits)
  let ?st = "st\<lparr>memory_windows := (memory_windows st)(?k \<mapsto> earlier @ [now])\<rparr>"
  have check: "check_rate_limit pipe cfg ip (budget lc b) ?w b now m st = (int (length earlier) < budget lc b, ?st)"
    using mem ts all_fresh by (simp add: check_rate_limit_def check_rate_limit_memory_def Let_def)
  have step: "rate_limit_call pipe cfg lc sc now m st =
      (if int (length earlier) < budget lc b then PassOn else Answer (rate_limited_response ?w), ?st)"
    using b check by (simp add: rate_limit_call_def)
  have "mw_run pipe cfg lc ?st (map (\<lambda>(now, m). (sc, now, m)) reqs) =
      map (\<lambda>i. if int (length (earlier @ [now]) + i) < budget lc b then PassOn else Answer (rate_limited_response ?w)) [0..<length reqs]"
    by (rule Cons.IH) (use Cons.prems r in auto)
  moreover have "[0..<length (r # reqs)] = 0 # map Suc [0..<length reqs]"
    by (simp add: map_Suc_upt upt_conv_Cons del: upt_Suc)
  ultimately show ?case by (simp add: r step comp_def)
qed simp

lemma answered_200: "(\<exists>b e. answered v elapsed = Replied 200 b e) \<longleftrightarrow> v = PassOn \<or> (\<exists>r. v = Answer r \<and> hr_status r = 200)"
  by (cases v) auto

lemma post_charged:
  "path \<in> {''/api/v1/telemetry'', ''/api/v1/telemetry/batch''} \<Longrightarrow> lc_trusted_proxy_count lc = 0 \<Longrightarrow>
   charged lc (client_scope ip (''POST'', path)) = Some (''ingest'', ip)"
  by (auto simp: charged_def client_scope_def rate_limit_bucket_def py_endswith_def client_ip_from_scope_def)

lemma count_below: "length (filter (\<lambda>i. int (k + i) < B) [a..<a + n]) = min n (nat B - k - a)"
proof (induction n)
  case (Suc n)
  have "int (k + (a + n)) < B \<longleftrightarrow> n < nat B - k - a" by linarith
  with Suc show ?case by auto
qed simp

lemma measured_counts:
  fixes pipe :: "'r pipeline" and st :: "'r limiter_state" and elapsed duration :: rat
  assumes mem: "rate_limit_backend cfg = ''memory''" and "lc_trusted_proxy_count lc = 0"
    and "path \<in> {''/api/v1/telemetry'', ''/api/v1/telemetry/batch''}"
    and "\<forall>(now, m) \<in> set (warmup @ requests). T - seconds (lc_window_seconds lc) < now \<and> now \<le> T"
    and "memory_windows st (''ingest:'' @ ip) = None"
  defines "s \<equiv> measured_run pipe cfg lc st ip (''POST'', path) warmup requests elapsed duration"
  shows "sa_successful s = min (length requests) (nat (lc_max_requests lc) - length warmup)"
    and "sa_successful s + sa_failed s = length requests"
proof -
  let ?w = "length warmup" and ?n = "length requests" and ?B = "lc_max_requests lc"
  let ?v = "\<lambda>i. if int i < ?B then PassOn else Answer (rate_limited_response (lc_window_seconds lc))"
  have "mw_run pipe cfg lc st (map (\<lambda>(now, m). (client_scope ip (''POST'', path), now, m)) (warmup @ requests)) =
      map ?v [0..<?w + ?n]"
    using mw_run_one_window [OF mem post_charged [OF assms(3,2)] assms(4), where st = st and earlier = "[]" and pipe = pipe] assms(5) by (simp add: budget_def)
  then have s: "s = drive (map (\<lambda>v. answered v elapsed) (map ?v [?w..<?w + ?n])) duration"
    by (simp add: s_def measured_run_def Let_def drop_map)
  have ok: "(\<exists>b e. answered (?v i) elapsed = Replied 200 b e) \<longleftrightarrow> int i < ?B" for i
    unfolding answered_200 by (simp add: rate_limited_response_def)
  have "sa_successful s = length (filter (\<lambda>i. int i < ?B) [?w..<?w + ?n])"
    unfolding s drive_def by (simp add: drive_one_counts filter_map comp_def ok empty_sample_def)
  then show "sa_successful s = min ?n (nat ?B - ?w)" using count_below [of 0 ?B ?w ?n] by simp
  have "sa_failed s = length (filter (\<lambda>i. \<not> int i < ?B) [?w..<?w + ?n])"
    unfolding s drive_def by (simp add: drive_one_counts filter_map comp_def ok empty_sample_def rate_limited_response_def)
  with \<open>sa_successful s = length _\<close> sum_length_filter_compl [of "\<lambda>i. int i < ?B" "[?w..<?w + ?n]"]
  show "sa_successful s + sa_failed s = ?n" by simp
qed

lemma refused_ratio:
  assumes "sa_successful s + sa_failed s = attempts" and "0 < attempts"
  shows "run_refused s \<longleftrightarrow> 20 * sa_successful s < 19 * attempts"
proof -
  have "run_refused s \<longleftrightarrow> of_nat (sa_successful s) / of_nat attempts < (19 / 20 :: rat)"
    using assms by (simp add: run_refused_def Let_def)
  also have "\<dots> \<longleftrightarrow> 20 * of_nat (sa_successful s) < (19 * of_nat attempts :: rat)"
    using assms(2) by (simp add: divide_less_eq mult.commute)
  also have "\<dots> \<longleftrightarrow> 20 * sa_successful s < 19 * attempts"
    by (metis (no_types, lifting) of_nat_less_iff of_nat_mult of_nat_numeral)
  finally show ?thesis .
qed

text \<open>
  What the drain counts as attempts are rows persisted plus posts refused: 130 of 200 posts of
  fifty rows may be refused and the run is still accepted.
\<close>

lemma drain_accepts_losses:
  "\<not> run_refused (worker_drain 10000 50 (replicate 130 ''HTTP 429'') [3500] 180)"
proof -
  let ?s = "fold record_error (replicate 130 ''HTTP 429'') empty_sample"
  have "sa_failed ?s = 130" unfolding record_errors by (simp add: empty_sample_def)
  then show ?thesis by (simp add: worker_drain_def Let_def run_refused_def record_error_def del: fold_replicate)
qed

section \<open>The budget an ingest benchmark needs\<close>




end
