(* ===== verification/FleetWorker.thy ===== *)
theory FleetWorker
  imports FleetTelemetry
begin

text \<open>
  The background worker (\<open>backend/app/worker.py\<close>): turning stream entries into rows, the roster
  update, \<open>process_batch\<close> in its two modes, one iteration of the Redis-to-database loop, the
  stream-depth report and the turn of the timeout scanner's loop. What orjson, Python's \<open>str\<close> and
  \<open>datetime.fromisoformat\<close>, the database driver and Redis answer are parameters.
\<close>

section \<open>Decoding an entry\<close>

text \<open>
  \<open>loads\<close> is \<open>None\<close> for \<open>JSONDecodeError\<close>; \<open>str_of\<close> is \<open>str\<close> on a value that is not a string;
  \<open>fromiso\<close> is \<open>None\<close> for \<open>ValueError\<close>.
\<close>

record 'w codec =
  loads :: "'w \<Rightarrow> json option"
  str_of :: "json \<Rightarrow> string"
  fromiso :: "string \<Rightarrow> pydt option"

record insert_dict =
  i_robot_id :: json
  i_battery :: json
  i_temperature :: json
  i_speed :: json
  i_status :: json
  i_mission_id :: json
  i_mission_type :: json
  i_mission_progress :: json
  i_mission_start_time :: "pydt option"
  i_battery_health :: json
  i_motor_health :: json
  i_sensor_health :: json
  i_network_health :: json
  i_x :: json
  i_y :: json
  i_timestamp :: pydt

definition get_or :: "json_obj \<Rightarrow> string \<Rightarrow> json \<Rightarrow> json" where
  "get_or d k v = (case dict_get d k of Some x \<Rightarrow> x | None \<Rightarrow> v)"

definition z_to_offset :: "string \<Rightarrow> string" where
  "z_to_offset s = py_replace ''Z'' ''+00:00'' s"

definition py_str :: "'w codec \<Rightarrow> json \<Rightarrow> string" where
  "py_str cd j = (case j of JStr s \<Rightarrow> s | _ \<Rightarrow> str_of cd j)"

definition payload_to_insert_dict :: "'w codec \<Rightarrow> instant \<Rightarrow> json \<Rightarrow> insert_dict result" where
  "payload_to_insert_dict cd now decoded =
     (case decoded of
        JObj p \<Rightarrow>
          (let ts_raw = (if get_truthy p ''timestamp'' then get_or p ''timestamp'' JNull else JStr (isoformat now));
               ts = (case fromiso cd (z_to_offset (py_str cd ts_raw)) of Some t \<Rightarrow> t | None \<Rightarrow> utc_dt now);
               mst = (case get_or p ''mission_start_time'' JNull of
                        JStr s \<Rightarrow> fromiso cd (z_to_offset s)
                      | _ \<Rightarrow> None)
           in Inr \<lparr>i_robot_id = get_or p ''robot_id'' (JNum 0),
                   i_battery = get_or p ''battery'' (JNum 0),
                   i_temperature = get_or p ''temperature'' (JNum 0),
                   i_speed = get_or p ''speed'' (JNum 0),
                   i_status = get_or p ''status'' (JStr ''UNKNOWN''),
                   i_mission_id = get_or p ''mission_id'' JNull,
                   i_mission_type = get_or p ''mission_type'' JNull,
                   i_mission_progress = get_or p ''mission_progress'' JNull,
                   i_mission_start_time = mst,
                   i_battery_health = get_or p ''battery_health'' JNull,
                   i_motor_health = get_or p ''motor_health'' JNull,
                   i_sensor_health = get_or p ''sensor_health'' JNull,
                   i_network_health = get_or p ''network_health'' JNull,
                   i_x = get_or p ''x'' JNull,
                   i_y = get_or p ''y'' JNull,
                   i_timestamp = ts\<rparr>)
      | _ \<Rightarrow> Inl AttributeError)"

text \<open>\<open>"battery" in decoded\<close>: a key, an element or a substring; a number or \<open>None\<close> raises.\<close>

definition has_battery :: "json \<Rightarrow> bool result" where
  "has_battery decoded =
     (case decoded of
        JObj p \<Rightarrow> Inr (dict_get p ''battery'' \<noteq> None)
      | JArr xs \<Rightarrow> Inr (JStr ''battery'' \<in> set xs)
      | JStr s \<Rightarrow> Inr (py_contains ''battery'' s)
      | _ \<Rightarrow> Inl TypeError)"

text \<open>
  A stream entry: its identifier and its fields, \<open>None\<close> for no fields at all, otherwise the
  \<open>payload\<close> field, where \<open>None\<close> stands for an absent or empty one.
\<close>

type_synonym 'w entry = "string \<times> 'w option option"

fun decode_entries :: "'w codec \<Rightarrow> instant \<Rightarrow> 'w entry list \<Rightarrow> insert_dict list result" where
  "decode_entries cd now [] = Inr []"
| "decode_entries cd now ((msg_id, flds) # es) =
     (case Option.bind flds (\<lambda>p. p) of
        None \<Rightarrow> decode_entries cd now es
      | Some payload_raw \<Rightarrow>
          (case loads cd payload_raw of
             None \<Rightarrow> decode_entries cd now es
           | Some decoded \<Rightarrow>
               bindR (has_battery decoded)
                 (\<lambda>b. if b then bindR (payload_to_insert_dict cd now decoded)
                                 (\<lambda>d. bindR (decode_entries cd now es) (\<lambda>ds. Inr (d # ds)))
                       else decode_entries cd now es)))"

section \<open>The roster\<close>

text \<open>\<open>a > b\<close> on datetimes: comparing a naive with an aware one raises \<open>TypeError\<close>.\<close>

definition dt_gt :: "pydt \<Rightarrow> pydt \<Rightarrow> bool result" where
  "dt_gt a b = (if (utcoffset a = None) = (utcoffset b = None) then Inr (dt_instant a > dt_instant b) else Inl TypeError)"

fun latest_dts :: "(int \<times> pydt) list \<Rightarrow> (int \<times> pydt) list \<Rightarrow> (int \<times> pydt) list result" where
  "latest_dts d [] = Inr d"
| "latest_dts d ((rid, ts) # rows) =
     (case dict_get d rid of
        None \<Rightarrow> latest_dts (dict_set rid ts d) rows
      | Some ts' \<Rightarrow> bindR (dt_gt ts ts') (\<lambda>gt. latest_dts (if gt then dict_set rid ts d else d) rows))"

definition register_robots :: "instant \<Rightarrow> (int \<times> pydt) list \<Rightarrow> robot list \<Rightarrow> robot list result" where
  "register_robots dbnow rows t =
     bindR (latest_dts [] rows) (\<lambda>d. Inr (mark_seen dbnow (map (\<lambda>(rid, ts). (rid, dt_instant ts)) d) t))"

section \<open>process\_batch\<close>

text \<open>
  The driver and the server bind a dictionary to a row, or refuse it. \<open>bind\<close> leaves the
  identifier to the sequence.
\<close>

type_synonym row_bind = "insert_dict \<Rightarrow> telemetry_row result"

fun bind_all :: "row_bind \<Rightarrow> insert_dict list \<Rightarrow> telemetry_row list result" where
  "bind_all bind [] = Inr []"
| "bind_all bind (d # ds) = bindR (bind d) (\<lambda>r. bindR (bind_all bind ds) (\<lambda>rs. Inr (r # rs)))"

definition keyed :: "insert_dict list \<Rightarrow> telemetry_row list \<Rightarrow> (int \<times> pydt) list" where
  "keyed ds rs = zip (map t_robot_id rs) (map i_timestamp ds)"

text \<open>The one-transaction mode: any exception leaves the tables as they were.\<close>

definition write_batch :: "row_bind \<Rightarrow> instant \<Rightarrow> insert_dict list \<Rightarrow> tele_db \<Rightarrow> tele_db result" where
  "write_batch bind dbnow ds db =
     bindR (bind_all bind ds) (\<lambda>rs.
       bindR (register_robots dbnow (keyed ds rs) (robots db)) (\<lambda>t.
         Inr ((fold add_row rs db)\<lparr>robots := t\<rparr>)))"

text \<open>The row-by-row mode: each row is committed on its own, the roster at the end.\<close>

fun write_rows :: "row_bind \<Rightarrow> insert_dict list \<Rightarrow> tele_db \<Rightarrow> telemetry_row list result \<times> tele_db" where
  "write_rows bind [] db = (Inr [], db)"
| "write_rows bind (d # ds) db =
     (case bind d of
        Inl e \<Rightarrow> (Inl e, db)
      | Inr r \<Rightarrow> (case write_rows bind ds (add_row r db) of
          (Inl e, db') \<Rightarrow> (Inl e, db')
        | (Inr rs, db') \<Rightarrow> (Inr (r # rs), db')))"

definition write_row_by_row :: "row_bind \<Rightarrow> instant \<Rightarrow> insert_dict list \<Rightarrow> tele_db \<Rightarrow> unit result \<times> tele_db" where
  "write_row_by_row bind dbnow ds db =
     (case write_rows bind ds db of
        (Inl e, db') \<Rightarrow> (Inl e, db')
      | (Inr rs, db') \<Rightarrow>
          (case register_robots dbnow (keyed ds rs) (robots db') of
             Inl e \<Rightarrow> (Inl e, db')
           | Inr t \<Rightarrow> (Inr (), db'\<lparr>robots := t\<rparr>)))"

definition process_batch ::
  "settings \<Rightarrow> 'w codec \<Rightarrow> row_bind \<Rightarrow> instant \<Rightarrow> 'w entry list \<Rightarrow> tele_db \<Rightarrow> string list result \<times> tele_db"
where
  "process_batch cfg cd bind now stream_messages db =
     (case decode_entries cd now stream_messages of
        Inl e \<Rightarrow> (Inl e, db)
      | Inr insert_dicts \<Rightarrow>
          if insert_dicts = [] then (Inr (map fst stream_messages), db)
          else if opt_batch_insert cfg then
            (case write_batch bind now insert_dicts db of
               Inl e \<Rightarrow> (Inl e, db)
             | Inr db' \<Rightarrow> (Inr (map fst stream_messages), db'))
          else
            (case write_row_by_row bind now insert_dicts db of
               (Inl e, db') \<Rightarrow> (Inl e, db')
             | (Inr _, db') \<Rightarrow> (Inr (map fst stream_messages), db')))"

section \<open>The loop\<close>

text \<open>
  What Redis answers in one iteration of \<open>redis_to_db_sync_worker\<close>: reading the consumer's own
  pending entries, XAUTOCLAIM (whether it claimed any), reading new entries, and XACK; \<open>None\<close>
  and \<open>False\<close> are exceptions.
\<close>

record 'w redis_answers =
  read_own :: "'w entry list option"
  autoclaim :: "bool option"
  read_new :: "'w entry list option"
  xack_ok :: bool

record worker_state =
  w_db :: tele_db
  w_acked :: "string list"
  w_retry_delay :: rat

text \<open>The entries this iteration works on: \<open>None\<close> an exception, \<open>Some None\<close> the \<open>continue\<close>.\<close>

definition fetch :: "'w redis_answers \<Rightarrow> 'w entry list option option" where
  "fetch a =
     (case read_own a of
        None \<Rightarrow> None
      | Some own \<Rightarrow>
          if own \<noteq> [] then Some (Some own)
          else if autoclaim a = Some True then Some None
          else (case read_new a of None \<Rightarrow> None | Some new \<Rightarrow> Some (Some new)))"

definition failed_iteration :: "worker_state \<Rightarrow> worker_state" where
  "failed_iteration st = st\<lparr>w_retry_delay := min 30 (w_retry_delay st * 2)\<rparr>"

definition sync_iteration ::
  "settings \<Rightarrow> 'w codec \<Rightarrow> row_bind \<Rightarrow> instant \<Rightarrow> 'w redis_answers \<Rightarrow> worker_state \<Rightarrow> worker_state"
where
  "sync_iteration cfg cd bind now a st =
     (case fetch a of
        None \<Rightarrow> failed_iteration st
      | Some None \<Rightarrow> st
      | Some (Some entries) \<Rightarrow>
          if entries = [] then st
          else (case process_batch cfg cd bind now entries (w_db st) of
             (Inl e, db) \<Rightarrow> failed_iteration (st\<lparr>w_db := db\<rparr>)
           | (Inr ids, db) \<Rightarrow>
               (let st' = st\<lparr>w_db := db, w_retry_delay := 2\<rparr>
                in if xack_ok a then st'\<lparr>w_acked := w_acked st @ ids\<rparr> else failed_iteration st')))"

text \<open>
  \<open>report_stream_depth\<close>: the two gauges it sets, and whether it warns that the stream is at nine
  tenths of its cap. \<open>xlen\<close> and \<open>xpending\<close> answer \<open>None\<close> when they raise.
\<close>

definition report_depth :: "settings \<Rightarrow> nat option \<Rightarrow> nat option \<Rightarrow> (nat \<times> nat \<times> bool) option" where
  "report_depth cfg xlen xpending =
     (case xlen of
        None \<Rightarrow> None
      | Some n \<Rightarrow> Some (n, (case xpending of Some k \<Rightarrow> k | None \<Rightarrow> 0),
                       (of_nat n :: rat) \<ge> of_int (telemetry_stream_maxlen cfg) * (9 / 10)))"

text \<open>
  A turn of \<open>timeout_worker_loop\<close>: the scan runs when the lock is taken, and the lock is released
  whether the scan succeeds or raises.
\<close>

definition timeout_turn ::
  "(robot_command list \<Rightarrow> robot_command list) \<Rightarrow> instant \<Rightarrow> instant \<Rightarrow> bool option \<Rightarrow> cmd_db \<Rightarrow> bool \<Rightarrow> cmd_db \<times> bool"
where
  "timeout_turn scan now dbnow acquire db lock =
     (case acquire of
        None \<Rightarrow> (db, lock)
      | Some got \<Rightarrow> if got then (snd (scan_for_timeouts scan now dbnow db), False) else (db, lock))"

section \<open>Dates on the wire\<close>

lemma py_startswith_Cons: "py_startswith (x # s) (y # p) \<longleftrightarrow> x = y \<and> py_startswith s p"
  by (auto simp: py_startswith_def)

lemma py_replace_tail:
  assumes "old \<noteq> []" "hd old \<notin> set body"
  shows "py_replace old new (body @ old) = body @ new"
  using assms(2)
proof (induction body)
  case Nil
  then show ?case using assms(1) by (cases old) (simp_all add: py_startswith_def)
next
  case (Cons x body)
  then show ?case using assms(1) by (cases old) (auto simp: py_startswith_Cons)
qed

definition iso_char :: "char \<Rightarrow> bool" where
  "iso_char ch \<longleftrightarrow> is_digit ch \<or> ch \<in> set ''-:T.''"

lemma pad_left_iso: "list_all iso_char (pad_left w (nat_str n))"
  using nat_str_digits [of n] by (auto simp: pad_left_def iso_char_def list_all_iff is_digit_def)

lemma isoformat_body: "\<exists>body. isoformat t = body @ ''+00:00'' \<and> list_all iso_char body"
proof -
  have [simp]: "iso_char (CHR ''-'')" "iso_char (CHR '':'')" "iso_char (CHR ''T'')" "iso_char (CHR ''.'')"
    by (simp_all add: iso_char_def)
  define p where "p = (\<lambda>w i. pad_left w (nat_str (nat i)))"
  have [simp]: "list_all iso_char (p w i)" for w i by (simp only: p_def pad_left_iso)
  obtain y m d where c: "civil_of_days (t div 1000000 div 86400) = (y, m, d)"
    by (cases "civil_of_days (t div 1000000 div 86400)")
  define us where "us = t mod 1000000"
  define r where "r = t div 1000000 mod 86400"
  let ?body = "p 4 y @ ''-'' @ p 2 m @ ''-'' @ p 2 d @ ''T'' @ p 2 (r div 3600) @ '':'' @ p 2 (r div 60 mod 60) @ '':''
      @ p 2 (r mod 60) @ (if us = 0 then '''' else ''.'' @ p 6 us)"
  have "isoformat t = ?body @ ''+00:00''"
    unfolding isoformat_def Let_def c prod.case us_def r_def p_def by (simp only: append_assoc)
  moreover have "list_all iso_char ?body" by (simp only: list_all_append list.pred_inject) simp
  ultimately show ?thesis by blast
qed

lemma z_to_offset_iso_z [simp]: "z_to_offset (iso_z t) = isoformat t"
proof -
  obtain body where b: "isoformat t = body @ ''+00:00''" "list_all iso_char body"
    using isoformat_body by blast
  have "CHR ''+'' \<notin> set body" "CHR ''Z'' \<notin> set body"
    using b(2) by (auto simp: list_all_iff iso_char_def is_digit_def)
  then have "iso_z t = body @ ''Z''" "z_to_offset (body @ ''Z'') = body @ ''+00:00''"
    using py_replace_tail [of "''+00:00''" body "''Z''"] py_replace_tail [of "''Z''" body "''+00:00''"]
    by (simp_all add: iso_z_def b(1) z_to_offset_def)
  with b(1) show ?thesis by simp
qed

lemma iso_z_nonempty: "iso_z t \<noteq> []"
proof
  assume "iso_z t = []"
  then have "isoformat t = z_to_offset []" using z_to_offset_iso_z [of t] by simp
  then show False using isoformat_body [of t] by (auto simp: z_to_offset_def)
qed

section \<open>What the driver promises\<close>

definition dict_of_row :: "telemetry_row \<Rightarrow> pydt option \<Rightarrow> pydt \<Rightarrow> insert_dict" where
  "dict_of_row r mst ts =
     \<lparr>i_robot_id = JNum (of_int (t_robot_id r)), i_battery = JNum (t_battery r), i_temperature = JNum (t_temperature r),
      i_speed = JNum (t_speed r), i_status = opt_json JStr (t_status r), i_mission_id = opt_json JStr (t_mission_id r),
      i_mission_type = opt_json JStr (t_mission_type r), i_mission_progress = opt_json JNum (t_mission_progress r),
      i_mission_start_time = mst, i_battery_health = opt_json JNum (t_battery_health r),
      i_motor_health = opt_json JNum (t_motor_health r), i_sensor_health = opt_json JNum (t_sensor_health r),
      i_network_health = opt_json JNum (t_network_health r), i_x = opt_json JNum (t_x r), i_y = opt_json JNum (t_y r),
      i_timestamp = ts\<rparr>"

text \<open>Values of the columns' types that fit them are stored as they are.\<close>

definition bind_ok :: "row_bind \<Rightarrow> bool" where
  "bind_ok bind \<longleftrightarrow>
     (\<forall>r mst ts. telemetry_row_ok r \<longrightarrow> map_option dt_instant mst = t_mission_start_time r \<longrightarrow>
        dt_instant ts = t_timestamp r \<longrightarrow> bind (dict_of_row r mst ts) = Inr (r\<lparr>t_id := 0\<rparr>))"

definition num_of :: "json \<Rightarrow> rat" where
  "num_of j = (case j of JNum q \<Rightarrow> q | _ \<Rightarrow> 0)"

definition opt_num :: "json \<Rightarrow> rat option" where
  "opt_num j = (case j of JNum q \<Rightarrow> Some q | _ \<Rightarrow> None)"

definition opt_str :: "json \<Rightarrow> string option" where
  "opt_str j = (case j of JStr s \<Rightarrow> Some s | _ \<Rightarrow> None)"

definition sample_bind :: row_bind where
  "sample_bind d =
     (let r = \<lparr>t_id = 0, t_robot_id = floor (num_of (i_robot_id d)), t_battery = num_of (i_battery d),
               t_temperature = num_of (i_temperature d), t_speed = num_of (i_speed d), t_status = opt_str (i_status d),
               t_mission_id = opt_str (i_mission_id d), t_mission_type = opt_str (i_mission_type d),
               t_mission_progress = opt_num (i_mission_progress d),
               t_mission_start_time = map_option dt_instant (i_mission_start_time d),
               t_battery_health = opt_num (i_battery_health d), t_motor_health = opt_num (i_motor_health d),
               t_sensor_health = opt_num (i_sensor_health d), t_network_health = opt_num (i_network_health d),
               t_x = opt_num (i_x d), t_y = opt_num (i_y d), t_timestamp = dt_instant (i_timestamp d)\<rparr>
      in if telemetry_row_ok r then Inr r else Inl DataError)"

lemma opt_json_read [simp]: "opt_num (opt_json JNum v) = v" "opt_str (opt_json JStr s) = s"
  by (cases v; simp add: opt_num_def opt_json_def) (cases s; simp add: opt_str_def opt_json_def)

lemma sample_bind_ok: "bind_ok sample_bind"
proof -
  have "sample_bind (dict_of_row r mst ts) = Inr (r\<lparr>t_id := 0\<rparr>)"
    if "telemetry_row_ok r" "map_option dt_instant mst = t_mission_start_time r" "dt_instant ts = t_timestamp r" for r mst ts
  proof -
    have "telemetry_row_ok (r\<lparr>t_id := 0\<rparr>)" using that(1) by (simp add: telemetry_row_ok_def)
    with that(2,3) show ?thesis
      by (cases r) (simp add: sample_bind_def dict_of_row_def num_of_def Let_def)
  qed
  then show ?thesis by (simp add: bind_ok_def)
qed

section \<open>Lemmas\<close>

lemma queued_payload_get [simp]:
  "dict_get (queued_payload dump_dt data ts) k =
     (if k = ''timestamp'' then Some (JStr (iso_z ts)) else dict_get (model_dump dump_dt data) k)"
  by (simp add: queued_payload_def to_iso_def opt_json_def)

lemma payload_dict_of_row:
  assumes iso: "fromiso cd (isoformat ts) = Some (utc_dt ts)"
    and mst: "\<And>d. tc_mission_start_time data = Some d \<Longrightarrow> fromiso cd (z_to_offset (dump_dt d)) = Some d"
  shows "payload_to_insert_dict cd now (JObj (queued_payload dump_dt data ts)) =
    Inr (dict_of_row (new_row i data ts) (tc_mission_start_time data) (utc_dt ts))"
proof -
  let ?p = "queued_payload dump_dt data ts"
  have gt: "get_truthy ?p ''timestamp''" "get_or ?p ''timestamp'' JNull = JStr (iso_z ts)"
    using iso_z_nonempty by (simp_all add: get_truthy_def get_or_def)
  have gm: "get_or ?p ''mission_start_time'' JNull = opt_json (\<lambda>t. JStr (dump_dt t)) (tc_mission_start_time data)"
    by (simp add: get_or_def model_dump_def)
  have m: "(case opt_json (\<lambda>t. JStr (dump_dt t)) (tc_mission_start_time data) of JStr s \<Rightarrow> fromiso cd (z_to_offset s) | _ \<Rightarrow> None)
      = tc_mission_start_time data"
    using mst by (cases "tc_mission_start_time data") (simp_all add: opt_json_def)
  show ?thesis
    unfolding payload_to_insert_dict_def json.case Let_def gt gm m
    by (simp add: gt py_str_def iso dict_of_row_def new_row_def get_or_def model_dump_def)
qed

lemma has_battery_queued: "has_battery (JObj (queued_payload dump_dt data ts)) = Inr True"
  by (simp add: has_battery_def model_dump_def)

lemma write_rows_bind_all:
  "write_rows bind ds db = (Inr rs, db') \<longleftrightarrow> bind_all bind ds = Inr rs \<and> db' = fold add_row rs db"
proof (induction ds arbitrary: rs db db')
  case (Cons d ds)
  show ?case
  proof (cases "bind d")
    case (Inr r)
    obtain x y where w: "write_rows bind ds (add_row r db) = (x, y)" by fastforce
    have "x = Inr zs \<Longrightarrow> bind_all bind ds = Inr zs \<and> y = fold add_row zs (add_row r db)" for zs
      using Cons.IH [where db = "add_row r db" and rs = zs and db' = y] w by simp
    moreover have "bind_all bind ds = Inr zs \<Longrightarrow> (x, y) = (Inr zs, fold add_row zs (add_row r db))" for zs
      using Cons.IH [where db = "add_row r db" and rs = zs and db' = "fold add_row zs (add_row r db)"] w by simp
    ultimately show ?thesis
      using Inr w by (cases x) (auto simp: bindR_eq_Inr)
  qed simp
qed auto

lemma robots_fold_add_row [simp]: "robots (fold add_row rs db) = robots db"
  by (induction rs arbitrary: db) (simp_all add: add_row_def)

lemma modes_agree:
  "write_row_by_row bind now ds db = (Inr (), db') \<longleftrightarrow> write_batch bind now ds db = Inr db'"
proof (cases "write_rows bind ds db")
  case (Pair r db1)
  show ?thesis
  proof (cases r)
    case (Inr rs)
    with Pair have w: "bind_all bind ds = Inr rs" "db1 = fold add_row rs db"
      using write_rows_bind_all [of bind ds db rs db1] by auto
    with Pair Inr show ?thesis
      by (cases "register_robots now (keyed ds rs) (robots db)") (auto simp: write_row_by_row_def write_batch_def)
  next
    case (Inl e)
    have "bind_all bind ds \<noteq> Inr rs" for rs
      using Pair Inl write_rows_bind_all [of bind ds db rs "fold add_row rs db"] by auto
    then obtain e' where "bind_all bind ds = Inl e'" by (cases "bind_all bind ds") auto
    with Pair Inl show ?thesis by (simp add: write_row_by_row_def write_batch_def)
  qed
qed

section \<open>Properties\<close>

definition row_payload :: "(pydt \<Rightarrow> string) \<Rightarrow> telemetry_create \<Rightarrow> instant \<Rightarrow> json" where
  "row_payload dump_dt data ts = JObj (queued_payload dump_dt data ts)"

text \<open>
  C8: The buffered path writes what the direct path writes. A reading queued by the API and
  taken from the stream by the worker ends, in one transaction, in exactly the tables the
  direct path produces for the same reading and resolved time: the same row under the next
  identifier and the same roster. This needs that Redis and orjson return what was queued,
  that \<open>fromisoformat\<close> reads back the times \<open>isoformat\<close> and pydantic write, and that the
  driver stores well-typed values.
\<close>

theorem worker_writes_what_direct_writes:
  assumes bind: "bind_ok bind" and wire: "loads cd w = Some (row_payload dump_dt data ts)"
    and iso: "fromiso cd (isoformat ts) = Some (utc_dt ts)"
    and mst: "\<And>d. tc_mission_start_time data = Some d \<Longrightarrow> fromiso cd (z_to_offset (dump_dt d)) = Some d"
    and direct: "telemetry_insert data ts db = Inr (row, db1)"
  shows "process_batch cfg cd bind now [(mid, Some (Some w))] db =
    (Inr [mid], db1\<lparr>robots := mark_seen now [(t_robot_id row, t_timestamp row)] (robots db1)\<rparr>)"
proof -
  define d where "d = dict_of_row (new_row (next_id db) data ts) (tc_mission_start_time data) (utc_dt ts)"
  let ?r = "(new_row (next_id db) data ts)\<lparr>t_id := 0\<rparr>"
  have dec: "decode_entries cd now [(mid, Some (Some w))] = Inr [d]"
    using payload_dict_of_row [OF iso mst, where now = now and i = "next_id db"]
    by (simp add: wire row_payload_def has_battery_queued d_def)
  have ok: "telemetry_row_ok (new_row (next_id db) data ts)" and row: "row = new_row (next_id db) data ts"
    and db1: "db1 = add_row row db"
    using direct by (auto simp: telemetry_insert_def Let_def split: if_splits)
  have "bind d = Inr ?r"
    using bind ok by (simp add: bind_ok_def d_def new_row_def)
  moreover have "add_row ?r db = db1"
    by (simp add: db1 row add_row_def)
  moreover have "register_robots now (keyed [d] [?r]) (robots db) =
      Inr (mark_seen now [(t_robot_id row, t_timestamp row)] (robots db))"
    by (simp add: register_robots_def keyed_def d_def dict_of_row_def row new_row_def)
  moreover have "robots db1 = robots db" by (simp add: db1 add_row_def)
  ultimately have "write_batch bind now [d] db = Inr (db1\<lparr>robots := mark_seen now [(t_robot_id row, t_timestamp row)] (robots db1)\<rparr>)"
    by (simp add: write_batch_def)
  moreover from this have "write_row_by_row bind now [d] db =
      (Inr (), db1\<lparr>robots := mark_seen now [(t_robot_id row, t_timestamp row)] (robots db1)\<rparr>)"
    by (simp only: modes_agree)
  ultimately show ?thesis
    unfolding process_batch_def dec by simp
qed

definition sample_codec :: "json codec" where
  "sample_codec = \<lparr>loads = Some, str_of = (\<lambda>j. []), fromiso = (\<lambda>s. if s = isoformat 90 then Some (utc_dt 90) else None)\<rparr>"

definition empty_tele :: tele_db where
  "empty_tele = \<lparr>readings = [], robots = [], next_id = 1\<rparr>"

lemma sample_insert: "telemetry_insert (sample_reading 90) 90 empty_tele =
    Inr (new_row 1 (sample_reading 90) 90, add_row (new_row 1 (sample_reading 90) 90) empty_tele)"
proof -
  have "telemetry_row_ok (new_row 1 (sample_reading 90) 90)"
    by (simp add: telemetry_row_ok_def new_row_def sample_reading_def int4_def fits_def)
  moreover have "next_id empty_tele = 1" by (simp add: empty_tele_def)
  ultimately show ?thesis by (simp add: telemetry_insert_def Let_def)
qed

theorem worker_writes_what_direct_writes_witness:
  "fst (process_batch (default_settings ''db'' ''k'') sample_codec sample_bind 100
     [(''1-0'', Some (Some (row_payload (\<lambda>d. []) (sample_reading 90) 90)))] empty_tele) = Inr [''1-0'']"
proof -
  have "loads sample_codec (row_payload (\<lambda>d. []) (sample_reading 90) 90) = Some (row_payload (\<lambda>d. []) (sample_reading 90) 90)"
    "fromiso sample_codec (isoformat 90) = Some (utc_dt 90)"
    by (simp_all add: sample_codec_def)
  from worker_writes_what_direct_writes [OF sample_bind_ok this _ sample_insert, of "default_settings ''db'' ''k''" 100 "''1-0''"]
  show ?thesis by (simp add: sample_reading_def)
qed

lemma process_batch_outcome:
  "(process_batch cfg cd bind now msgs db = (Inr ids, db') \<longleftrightarrow>
      ids = map fst msgs \<and>
      (\<exists>ds. decode_entries cd now msgs = Inr ds \<and>
         (if ds = [] then db' = db
          else \<exists>rs t. bind_all bind ds = Inr rs \<and> register_robots now (keyed ds rs) (robots db) = Inr t
                 \<and> db' = (fold add_row rs db)\<lparr>robots := t\<rparr>)))
   \<and> (opt_batch_insert cfg \<longrightarrow> process_batch cfg cd bind now msgs db = (Inl e, db') \<longrightarrow> db' = db)"
proof (cases "decode_entries cd now msgs")
  case (Inl e')
  then show ?thesis by (auto simp: process_batch_def)
next
  case (Inr ds)
  have wb: "write_batch bind now ds db = Inr x \<longleftrightarrow>
      (\<exists>rs t. bind_all bind ds = Inr rs \<and> register_robots now (keyed ds rs) (robots db) = Inr t
         \<and> x = (fold add_row rs db)\<lparr>robots := t\<rparr>)" for x
    by (auto simp: write_batch_def bindR_eq_Inr)
  have rr: "write_row_by_row bind now ds db = (Inr u, x) \<longleftrightarrow> write_batch bind now ds db = Inr x" for u x
    using modes_agree [of bind now ds db x] by simp
  have row: "(case write_row_by_row bind now ds db of (Inl e, x) \<Rightarrow> (Inl e, x) | (Inr _, x) \<Rightarrow> (Inr (map fst msgs), x)) = (Inr ids, db')
      \<longleftrightarrow> ids = map fst msgs \<and> write_batch bind now ds db = Inr db'"
    using rr by (cases "write_row_by_row bind now ds db"; cases "fst (write_row_by_row bind now ds db)") auto
  have "process_batch cfg cd bind now msgs db = (Inr ids, db') \<longleftrightarrow>
      ids = map fst msgs \<and> (if ds = [] then db' = db else write_batch bind now ds db = Inr db')"
    using row by (auto simp: process_batch_def Inr split: sum.splits)
  moreover have "opt_batch_insert cfg \<Longrightarrow> process_batch cfg cd bind now msgs db = (Inl e, db') \<Longrightarrow> db' = db"
    by (auto simp: process_batch_def Inr split: sum.splits if_splits)
  ultimately show ?thesis by (auto simp: Inr wb)
qed

text \<open>
  The outcome of a batch. On success the identifiers of all entries are returned, skipped
  ones included, and the tables gain exactly the bound telemetry rows in order; the
  one-transaction and the row-by-row mode succeed on the same batches with the same tables. In
  one-transaction mode an exception leaves the tables untouched.
\<close>

theorem process_batch_correct:
  "(process_batch cfg cd bind now msgs db = (Inr ids, db') \<longleftrightarrow>
      ids = map fst msgs \<and>
      (\<exists>ds. decode_entries cd now msgs = Inr ds \<and>
         (if ds = [] then db' = db
          else \<exists>rs t. bind_all bind ds = Inr rs \<and> register_robots now (keyed ds rs) (robots db) = Inr t
                 \<and> db' = (fold add_row rs db)\<lparr>robots := t\<rparr>)))
   \<and> (opt_batch_insert cfg \<longrightarrow> process_batch cfg cd bind now msgs db = (Inl e, db') \<longrightarrow> db' = db)"
  by (rule process_batch_outcome)

theorem process_batch_correct_witness:
  "process_batch (default_settings ''db'' ''k'') sample_codec sample_bind 100 [(''1-0'', None), (''2-0'', Some None)] empty_tele
     = (Inr [''1-0'', ''2-0''], empty_tele)"
  using process_batch_correct [of "default_settings ''db'' ''k''" sample_codec sample_bind 100 "[(''1-0'', None), (''2-0'', Some None)]"
      empty_tele "[''1-0'', ''2-0'']" empty_tele OtherError]
  by simp

text \<open>
  Delivery is at least once. An iteration of the worker acknowledges an entry only after a
  batch that contains it was processed successfully, so its row, if it has one, is stored; in
  one-transaction mode rows are stored without being acknowledged only when XACK itself
  failed, and then the same entries are delivered again. The retry delay stays between two
  and thirty seconds.
\<close>

theorem sync_acks_only_persisted:
  assumes "2 \<le> w_retry_delay st" and "w_retry_delay st \<le> 30" and "opt_batch_insert cfg"
    and "st' = sync_iteration cfg cd bind now a st"
  shows "(w_acked st' = w_acked st \<or>
          (\<exists>entries. fetch a = Some (Some entries) \<and> w_acked st' = w_acked st @ map fst entries
             \<and> process_batch cfg cd bind now entries (w_db st) = (Inr (map fst entries), w_db st')))
    \<and> (w_db st' \<noteq> w_db st \<longrightarrow> w_acked st' \<noteq> w_acked st \<or> \<not> xack_ok a)
    \<and> 2 \<le> w_retry_delay st' \<and> w_retry_delay st' \<le> 30"
proof (cases "\<exists>entries. fetch a = Some (Some entries) \<and> entries \<noteq> []")
  case False
  then show ?thesis
    using assms by (auto simp: sync_iteration_def failed_iteration_def split: option.splits)
next
  case True
  then obtain entries where f: "fetch a = Some (Some entries)" "entries \<noteq> []" by blast
  obtain r db where p: "process_batch cfg cd bind now entries (w_db st) = (r, db)" by fastforce
  show ?thesis
  proof (cases r)
    case (Inl e)
    have "db = w_db st" using process_batch_outcome p Inl assms(3) by blast
    with f p Inl assms show ?thesis by (auto simp: sync_iteration_def failed_iteration_def)
  next
    case (Inr ids)
    then have "ids = map fst entries"
      using p process_batch_outcome [of cfg cd bind now entries "w_db st" ids db] by simp
    with f p Inr assms show ?thesis
      by (auto simp: sync_iteration_def failed_iteration_def Let_def)
  qed
qed

theorem sync_acks_only_persisted_witness:
  "w_acked (sync_iteration (default_settings ''db'' ''k'') sample_codec sample_bind 100
      \<lparr>read_own = Some [(''1-0'', None)], autoclaim = None, read_new = None, xack_ok = True\<rparr>
      \<lparr>w_db = empty_tele, w_acked = [], w_retry_delay = 2\<rparr>) = [''1-0'']
   \<and> w_retry_delay (sync_iteration (default_settings ''db'' ''k'') sample_codec sample_bind 100
      \<lparr>read_own = Some [(''1-0'', None)], autoclaim = None, read_new = None, xack_ok = True\<rparr>
      \<lparr>w_db = empty_tele, w_acked = [], w_retry_delay = 2\<rparr>) \<le> 30"
proof
  show "w_retry_delay (sync_iteration (default_settings ''db'' ''k'') sample_codec sample_bind 100
      \<lparr>read_own = Some [(''1-0'', None)], autoclaim = None, read_new = None, xack_ok = True\<rparr>
      \<lparr>w_db = empty_tele, w_acked = [], w_retry_delay = 2\<rparr>) \<le> 30"
    using sync_acks_only_persisted [of "\<lparr>w_db = empty_tele, w_acked = [], w_retry_delay = 2\<rparr>" "default_settings ''db'' ''k''" _
        sample_codec sample_bind 100 "\<lparr>read_own = Some [(''1-0'', None)], autoclaim = None, read_new = None, xack_ok = True\<rparr>"]
    by (simp add: default_settings_def)
qed (simp add: sync_iteration_def fetch_def process_batch_def)

end
