(* ===== verification/FleetPipeline.thy ===== *)
theory FleetPipeline
  imports FleetWorker FleetService
begin

text \<open>
  The buffered ingest path as a whole: the API publishes accepted readings to a Redis stream, any
  number of workers read entries, write them to the database and acknowledge them, in any
  interleaving, with failures and crashes anywhere. Redis is a parameter. \<open>stream_ok\<close> states what
  its documentation promises of XADD with MAXLEN, of reading through a consumer group and of
  XACK, over a view of the server: the entries the stream holds, the identifiers acknowledged
  and the identifiers ever given out.
\<close>

section \<open>The stream server\<close>

text \<open>
  XADD and XACK answer \<open>False\<close> when the call raised; it may have been carried out or not. The reads
  of one iteration of the worker are one operation. MAXLEN trims approximately, the default of
  the client: the newest entries up to the bound are kept, older ones may be.
\<close>

record ('r, 'w) stream_server =
  ss_xadd :: "'r \<Rightarrow> 'w \<Rightarrow> int \<Rightarrow> bool \<times> 'r"
  ss_reads :: "'r \<Rightarrow> 'w redis_answers \<times> 'r"
  ss_xack :: "'r \<Rightarrow> string list \<Rightarrow> bool \<times> 'r"

record ('r, 'w) stream_view =
  sv_log :: "'r \<Rightarrow> (string \<times> 'w) list"
  sv_acked :: "'r \<Rightarrow> string set"
  sv_used :: "'r \<Rightarrow> string set"

definition trimmed :: "int \<Rightarrow> 'a list \<Rightarrow> 'a list \<Rightarrow> bool" where
  "trimmed n xs ys \<longleftrightarrow> (\<exists>k \<le> length xs - nat n. ys = drop k xs)"

definition appended :: "('r, 'w) stream_view \<Rightarrow> int \<Rightarrow> 'w \<Rightarrow> 'r \<Rightarrow> 'r \<Rightarrow> bool" where
  "appended view n w r r' \<longleftrightarrow>
     (\<exists>i. i \<notin> sv_used view r \<and> trimmed n (sv_log view r @ [(i, w)]) (sv_log view r')
        \<and> sv_acked view r' = sv_acked view r \<and> sv_used view r' = insert i (sv_used view r))"

definition same_view :: "('r, 'w) stream_view \<Rightarrow> 'r \<Rightarrow> 'r \<Rightarrow> bool" where
  "same_view view r r' \<longleftrightarrow> sv_log view r' = sv_log view r \<and> sv_acked view r' = sv_acked view r \<and> sv_used view r' = sv_used view r"

definition legit_entry :: "(string \<times> 'w) list \<Rightarrow> string set \<Rightarrow> 'w entry \<Rightarrow> bool" where
  "legit_entry entries used e \<longleftrightarrow> fst e \<in> used \<and> (\<forall>w. (fst e, w) \<in> set entries \<longrightarrow> snd e = Some (Some w))"

definition legit_answers :: "(string \<times> 'w) list \<Rightarrow> string set \<Rightarrow> 'w redis_answers \<Rightarrow> bool" where
  "legit_answers entries used a \<longleftrightarrow>
     (\<forall>es. read_own a = Some es \<or> read_new a = Some es \<longrightarrow> list_all (legit_entry entries used) es)"

definition stream_ok :: "('r, 'w) stream_server \<Rightarrow> ('r, 'w) stream_view \<Rightarrow> bool" where
  "stream_ok srv view \<longleftrightarrow>
     (\<forall>r w n ok r'. ss_xadd srv r w n = (ok, r') \<longrightarrow> appended view n w r r' \<or> \<not> ok \<and> same_view view r r')
   \<and> (\<forall>r a r'. ss_reads srv r = (a, r') \<longrightarrow> legit_answers (sv_log view r) (sv_used view r) a \<and> same_view view r r')
   \<and> (\<forall>r ids ok r'. ss_xack srv r ids = (ok, r') \<longrightarrow>
        sv_log view r' = sv_log view r \<and> sv_acked view r \<subseteq> sv_acked view r'
        \<and> sv_acked view r' \<subseteq> sv_acked view r \<union> set ids \<and> sv_used view r' = sv_used view r)"

section \<open>Workers and API interleaved\<close>

text \<open>Where a worker is in its iteration: before its reads, holding entries, or with a batch committed.\<close>

datatype 'w worker_pc = WIdle | WFetched "'w entry list" | WStored "string list"

record ('r, 'w) pipeline_state =
  pl_redis :: 'r
  pl_db :: tele_db
  pl_workers :: "'w worker_pc list"
  pl_accepted :: "(telemetry_create \<times> instant) list"

text \<open>
  One step: a reading is accepted and published; another message is, or is not, published (a
  reading whose XADD raised is answered all the same, the exception being swallowed); a worker
  reads (an iteration that ends at its reads stays idle), processes the batch, acknowledges it;
  or a worker dies and starts over.
\<close>

inductive pipe_step ::
  "('r, 'w) stream_server \<Rightarrow> settings \<Rightarrow> 'w codec \<Rightarrow> row_bind \<Rightarrow> (json \<Rightarrow> 'w) \<Rightarrow> (pydt \<Rightarrow> string)
   \<Rightarrow> ('r, 'w) pipeline_state \<Rightarrow> ('r, 'w) pipeline_state \<Rightarrow> bool"
  for srv cfg cd bind dumps dump_dt where
  accept: "resolve_timestamp cfg (tc_timestamp data) now = Inr ts \<Longrightarrow>
     ingest cfg dump_dt viewers now data st = (Inr ack, st') \<Longrightarrow> broadcasts st' = broadcasts st @ [p] \<Longrightarrow>
     broadcast cfg dumps True (JObj p) None m = (m', [(telemetry_stream, w)]) \<Longrightarrow>
     ss_xadd srv (pl_redis s) w (telemetry_stream_maxlen cfg) = (True, r') \<Longrightarrow>
     pipe_step srv cfg cd bind dumps dump_dt s (s\<lparr>pl_redis := r', pl_accepted := pl_accepted s @ [(data, ts)]\<rparr>)"
| other: "broadcast cfg dumps True msg None m = (m', [(telemetry_stream, w)]) \<Longrightarrow>
     ss_xadd srv (pl_redis s) w (telemetry_stream_maxlen cfg) = (ok, r') \<Longrightarrow>
     pipe_step srv cfg cd bind dumps dump_dt s (s\<lparr>pl_redis := r'\<rparr>)"
| read: "k < length (pl_workers s) \<Longrightarrow> pl_workers s ! k = WIdle \<Longrightarrow> ss_reads srv (pl_redis s) = (a, r') \<Longrightarrow>
     pc' = (case fetch a of Some (Some es) \<Rightarrow> if es = [] then WIdle else WFetched es | _ \<Rightarrow> WIdle) \<Longrightarrow>
     pipe_step srv cfg cd bind dumps dump_dt s (s\<lparr>pl_redis := r', pl_workers := (pl_workers s)[k := pc']\<rparr>)"
| process: "k < length (pl_workers s) \<Longrightarrow> pl_workers s ! k = WFetched es \<Longrightarrow>
     process_batch cfg cd bind now es (pl_db s) = (res, db') \<Longrightarrow>
     pc' = (case res of Inl e \<Rightarrow> WIdle | Inr ids \<Rightarrow> WStored ids) \<Longrightarrow>
     pipe_step srv cfg cd bind dumps dump_dt s (s\<lparr>pl_db := db', pl_workers := (pl_workers s)[k := pc']\<rparr>)"
| ack: "k < length (pl_workers s) \<Longrightarrow> pl_workers s ! k = WStored ids \<Longrightarrow> ss_xack srv (pl_redis s) ids = (ok, r') \<Longrightarrow>
     pipe_step srv cfg cd bind dumps dump_dt s (s\<lparr>pl_redis := r', pl_workers := (pl_workers s)[k := WIdle]\<rparr>)"
| crash: "k < length (pl_workers s) \<Longrightarrow>
     pipe_step srv cfg cd bind dumps dump_dt s (s\<lparr>pl_workers := (pl_workers s)[k := WIdle]\<rparr>)"

inductive_cases pipe_stepE: "pipe_step srv cfg cd bind dumps dump_dt s s'"

lemmas pipe_step_cases = pipe_stepE [consumes 1, case_names accept other read process ack crash]

text \<open>A worker's own steps without interference are an iteration of its loop.\<close>

lemma iteration_of_steps:
  assumes "fetch a = Some (Some es)" "es \<noteq> []"
  shows "sync_iteration cfg cd bind now a st =
    (case process_batch cfg cd bind now es (w_db st) of
       (Inl e, db') \<Rightarrow> failed_iteration (st\<lparr>w_db := db'\<rparr>)
     | (Inr ids, db') \<Rightarrow>
         (let st' = st\<lparr>w_db := db', w_retry_delay := 2\<rparr>
          in if xack_ok a then st'\<lparr>w_acked := w_acked st @ ids\<rparr> else failed_iteration st'))"
  using assms by (simp add: sync_iteration_def split: prod.splits sum.splits)

section \<open>Lemmas: a batch\<close>

lemma readings_add_row: "readings (add_row r db) = readings db @ [r\<lparr>t_id := next_id db\<rparr>]"
  by (simp add: add_row_def)

lemma readings_fold_add_row: "\<exists>xs. readings (fold add_row rs db) = readings db @ xs \<and> map (\<lambda>r. r\<lparr>t_id := 0\<rparr>) xs = map (\<lambda>r. r\<lparr>t_id := 0\<rparr>) rs"
proof (induction rs arbitrary: db)
  case (Cons r rs)
  obtain xs where "readings (fold add_row rs (add_row r db)) = readings (add_row r db) @ xs"
    "map (\<lambda>r. r\<lparr>t_id := 0\<rparr>) xs = map (\<lambda>r. r\<lparr>t_id := 0\<rparr>) rs" using Cons.IH by blast
  then show ?case by (intro exI [of _ "r\<lparr>t_id := next_id db\<rparr> # xs"]) (simp add: readings_add_row)
qed simp

lemma write_rows_mono: "write_rows bind ds db = (res, db') \<Longrightarrow> set (readings db) \<subseteq> set (readings db')"
proof (induction ds arbitrary: db res db')
  case (Cons d ds)
  show ?case
  proof (cases "bind d")
    case (Inr r)
    obtain x y where w: "write_rows bind ds (add_row r db) = (x, y)" by fastforce
    from Cons.IH [OF this] have "set (readings db) \<subseteq> set (readings y)" by (auto simp: add_row_def)
    with Cons.prems Inr w show ?thesis by (auto split: sum.splits)
  qed (use Cons.prems in simp)
qed simp

lemma process_batch_mono:
  assumes "process_batch cfg cd bind now es db = (res, db')"
  shows "set (readings db) \<subseteq> set (readings db')"
proof (cases "decode_entries cd now es")
  case (Inl e)
  with assms show ?thesis by (simp add: process_batch_def)
next
  case (Inr ds)
  have batch: "set (readings db) \<subseteq> set (readings x)" if "write_batch bind now ds db = Inr x" for x
  proof -
    from that obtain rs t where "x = (fold add_row rs db)\<lparr>robots := t\<rparr>" by (auto simp: write_batch_def bindR_eq_Inr)
    then show ?thesis using readings_fold_add_row [of rs db] by auto
  qed
  have rows: "set (readings db) \<subseteq> set (readings x)" if "write_row_by_row bind now ds db = (u, x)" for u x
    using that write_rows_mono [of bind ds db]
    by (cases "write_rows bind ds db") (auto simp: write_row_by_row_def split: sum.splits)
  show ?thesis using assms batch rows Inr
    by (cases "write_row_by_row bind now ds db") (auto simp: process_batch_def split: if_splits sum.splits)
qed

text \<open>A reading as the stream carries it, and what it takes for it to come through.\<close>

definition wire_of :: "(json \<Rightarrow> 'w) \<Rightarrow> (pydt \<Rightarrow> string) \<Rightarrow> telemetry_create \<Rightarrow> instant \<Rightarrow> 'w" where
  "wire_of dumps dump_dt data ts = dumps (row_payload dump_dt data ts)"

definition readable :: "'w codec \<Rightarrow> (json \<Rightarrow> 'w) \<Rightarrow> (pydt \<Rightarrow> string) \<Rightarrow> telemetry_create \<Rightarrow> instant \<Rightarrow> bool" where
  "readable cd dumps dump_dt data ts \<longleftrightarrow>
     telemetry_row_ok (new_row 0 data ts)
   \<and> loads cd (wire_of dumps dump_dt data ts) = Some (row_payload dump_dt data ts)
   \<and> fromiso cd (isoformat ts) = Some (utc_dt ts)
   \<and> (\<forall>d. tc_mission_start_time data = Some d \<longrightarrow> fromiso cd (z_to_offset (dump_dt d)) = Some d)"

definition stored :: "telemetry_create \<Rightarrow> instant \<Rightarrow> tele_db \<Rightarrow> bool" where
  "stored data ts db \<longleftrightarrow> (\<exists>i. new_row i data ts \<in> set (readings db))"

lemma new_row_times:
  "map_option dt_instant (tc_mission_start_time data) = t_mission_start_time (new_row i data ts)"
  "t_timestamp (new_row i data ts) = ts"
  by (simp_all add: new_row_def)

lemma new_row_of_id: "x\<lparr>t_id := 0\<rparr> = new_row 0 data ts \<Longrightarrow> x = new_row (t_id x) data ts"
  by (cases x) (simp add: new_row_def)

lemma stored_mono: "stored data ts db \<Longrightarrow> set (readings db) \<subseteq> set (readings db') \<Longrightarrow> stored data ts db'"
  by (auto simp: stored_def)

lemma decode_entries_tail:
  assumes "decode_entries cd now (e # es) = Inr ds"
  shows "\<exists>ds'. decode_entries cd now es = Inr ds' \<and> set ds' \<subseteq> set ds"
  using assms by (cases e) (auto simp: bindR_eq_Inr split: option.splits if_splits)

lemma decode_entries_mem:
  assumes "decode_entries cd now es = Inr ds" "(mid, Some (Some w)) \<in> set es" "loads cd w = Some j" "has_battery j = Inr True"
  shows "\<exists>d \<in> set ds. payload_to_insert_dict cd now j = Inr d"
  using assms(1,2)
proof (induction es arbitrary: ds)
  case (Cons e es)
  show ?case
  proof (cases "e = (mid, Some (Some w))")
    case True
    then show ?thesis using Cons.prems(1) assms(3,4) by (auto simp: bindR_eq_Inr)
  next
    case False
    obtain ds' where "decode_entries cd now es = Inr ds'" "set ds' \<subseteq> set ds"
      using decode_entries_tail [OF Cons.prems(1)] by blast
    then show ?thesis using Cons.IH [of ds'] Cons.prems(2) False by auto
  qed
qed simp

lemma bind_all_mem: "bind_all bind ds = Inr rs \<Longrightarrow> d \<in> set ds \<Longrightarrow> \<exists>r \<in> set rs. bind d = Inr r"
  by (induction ds arbitrary: rs) (auto simp: bindR_eq_Inr)

lemma process_batch_result:
  assumes "process_batch cfg cd bind now es db = (Inr ids, db')"
  shows "ids = map fst es" "\<exists>ds. decode_entries cd now es = Inr ds \<and>
    (ds = [] \<or> (\<exists>rs t. bind_all bind ds = Inr rs \<and> db' = (fold add_row rs db)\<lparr>robots := t\<rparr>))"
proof -
  obtain ds where ds: "decode_entries cd now es = Inr ds"
    using assms by (cases "decode_entries cd now es") (auto simp: process_batch_def)
  have row: "write_batch bind now ds db = Inr x" if "write_row_by_row bind now ds db = (Inr u, x)" for u x
    using that modes_agree [of bind now ds db x] by simp
  have "ids = map fst es \<and> (ds = [] \<or> write_batch bind now ds db = Inr db')"
    using assms ds row by (auto simp: process_batch_def split: if_splits sum.splits prod.splits)
  then show "ids = map fst es" "\<exists>ds. decode_entries cd now es = Inr ds \<and>
      (ds = [] \<or> (\<exists>rs t. bind_all bind ds = Inr rs \<and> db' = (fold add_row rs db)\<lparr>robots := t\<rparr>))"
    using ds by (auto simp: write_batch_def bindR_eq_Inr)
qed

lemma process_batch_stores:
  assumes b: "bind_ok bind" and run: "process_batch cfg cd bind now es db = (Inr ids, db')"
    and mem: "(mid, Some (Some (wire_of dumps dump_dt data ts))) \<in> set es" and ok: "readable cd dumps dump_dt data ts"
  shows "stored data ts db'"
proof -
  let ?d = "dict_of_row (new_row 0 data ts) (tc_mission_start_time data) (utc_dt ts)"
  obtain ds where ds: "decode_entries cd now es = Inr ds"
    and wr: "ds = [] \<or> (\<exists>rs t. bind_all bind ds = Inr rs \<and> db' = (fold add_row rs db)\<lparr>robots := t\<rparr>)"
    using process_batch_result(2) [OF run] by blast
  have "payload_to_insert_dict cd now (JObj (queued_payload dump_dt data ts)) = Inr ?d"
    using ok by (intro payload_dict_of_row) (simp_all add: readable_def)
  moreover have "\<exists>d \<in> set ds. payload_to_insert_dict cd now (JObj (queued_payload dump_dt data ts)) = Inr d"
    using decode_entries_mem [OF ds mem] ok has_battery_queued by (simp add: readable_def row_payload_def)
  ultimately have d: "?d \<in> set ds" by auto
  with wr obtain rs t where rs: "bind_all bind ds = Inr rs" "db' = (fold add_row rs db)\<lparr>robots := t\<rparr>" by auto
  have "bind ?d = Inr ((new_row 0 data ts)\<lparr>t_id := 0\<rparr>)"
    using b ok unfolding bind_ok_def readable_def by (metis dt_instant_utc new_row_times)
  then have "new_row 0 data ts \<in> set rs" using bind_all_mem [OF rs(1) d] by auto
  then have "new_row 0 data ts \<in> (\<lambda>r. r\<lparr>t_id := 0\<rparr>) ` set rs" by (metis imageI new_row_id)
  moreover obtain xs where xs: "readings (fold add_row rs db) = readings db @ xs"
    "map (\<lambda>r. r\<lparr>t_id := 0\<rparr>) xs = map (\<lambda>r. r\<lparr>t_id := 0\<rparr>) rs" using readings_fold_add_row by blast
  ultimately have "new_row 0 data ts \<in> (\<lambda>r. r\<lparr>t_id := 0\<rparr>) ` set xs" by (metis set_map)
  then obtain x where "x \<in> set (readings db')" "x\<lparr>t_id := 0\<rparr> = new_row 0 data ts"
    using xs(1) rs(2) by (force simp: eq_commute [of "new_row 0 data ts"])
  then show ?thesis using new_row_of_id unfolding stored_def by metis
qed

section \<open>Lemmas: the stream\<close>

text \<open>How far the workers are behind: the entries from the oldest unacknowledged one on.\<close>

definition backlog :: "('r, 'w) stream_view \<Rightarrow> 'r \<Rightarrow> nat" where
  "backlog view r = length (dropWhile (\<lambda>e. fst e \<in> sv_acked view r) (sv_log view r))"

lemma trimmed_sub: "trimmed n xs ys \<Longrightarrow> set ys \<subseteq> set xs"
  by (auto simp: trimmed_def dest: in_set_dropD)

lemma trimmed_keeps:
  assumes "trimmed n (xs @ [y]) ys" "int (length (dropWhile P xs)) < n"
  shows "y \<in> set ys" "x \<in> set xs \<Longrightarrow> \<not> P x \<Longrightarrow> x \<in> set ys"
proof -
  obtain k where k: "k \<le> length (xs @ [y]) - nat n" "ys = drop k (xs @ [y])"
    using assms(1) by (auto simp: trimmed_def)
  have "length xs = length (takeWhile P xs) + length (dropWhile P xs)"
    by (metis length_append takeWhile_dropWhile_id)
  then have "k \<le> length (takeWhile P xs)" using assms(2) k(1) by simp
  then have "ys = drop k (takeWhile P xs) @ dropWhile P xs @ [y]"
    unfolding k(2) by (metis append_assoc diff_is_0_eq drop0 drop_append takeWhile_dropWhile_id)
  then have sub: "set (dropWhile P xs) \<union> {y} \<subseteq> set ys" by auto
  then show "y \<in> set ys" by simp
  show "x \<in> set ys" if "x \<in> set xs" "\<not> P x"
  proof -
    have "x \<in> set (takeWhile P xs) \<or> x \<in> set (dropWhile P xs)"
      using that(1) by (metis Un_iff set_append takeWhile_dropWhile_id)
    then show ?thesis using that(2) sub set_takeWhileD by fast
  qed
qed

text \<open>An entry whose reading, if it carries a readable one, is in the table.\<close>

definition entry_stored :: "'w codec \<Rightarrow> (json \<Rightarrow> 'w) \<Rightarrow> (pydt \<Rightarrow> string) \<Rightarrow> tele_db \<Rightarrow> 'w \<Rightarrow> bool" where
  "entry_stored cd dumps dump_dt db w \<longleftrightarrow>
     (\<forall>data ts. readable cd dumps dump_dt data ts \<and> w = wire_of dumps dump_dt data ts \<longrightarrow> stored data ts db)"

definition outstanding ::
  "(json \<Rightarrow> 'w) \<Rightarrow> (pydt \<Rightarrow> string) \<Rightarrow> ('r, 'w) stream_view \<Rightarrow> 'r \<Rightarrow> telemetry_create \<Rightarrow> instant \<Rightarrow> bool" where
  "outstanding dumps dump_dt view r data ts \<longleftrightarrow>
     (\<exists>i. (i, wire_of dumps dump_dt data ts) \<in> set (sv_log view r) \<and> i \<notin> sv_acked view r)"

fun worker_ok ::
  "'w codec \<Rightarrow> (json \<Rightarrow> 'w) \<Rightarrow> (pydt \<Rightarrow> string) \<Rightarrow> tele_db \<Rightarrow> (string \<times> 'w) list \<Rightarrow> string set \<Rightarrow> 'w worker_pc \<Rightarrow> bool" where
  "worker_ok cd dumps dump_dt db entries used WIdle = True"
| "worker_ok cd dumps dump_dt db entries used (WFetched es) = list_all (legit_entry entries used) es"
| "worker_ok cd dumps dump_dt db entries used (WStored ids) =
     (\<forall>i \<in> set ids. i \<in> used \<and> (\<forall>w. (i, w) \<in> set entries \<longrightarrow> entry_stored cd dumps dump_dt db w))"

definition pipe_inv ::
  "'w codec \<Rightarrow> (json \<Rightarrow> 'w) \<Rightarrow> (pydt \<Rightarrow> string) \<Rightarrow> ('r, 'w) stream_view \<Rightarrow> ('r, 'w) pipeline_state \<Rightarrow> bool" where
  "pipe_inv cd dumps dump_dt view s \<longleftrightarrow>
     (\<forall>data ts. (data, ts) \<in> set (pl_accepted s) \<longrightarrow> readable cd dumps dump_dt data ts \<longrightarrow>
        stored data ts (pl_db s) \<or> outstanding dumps dump_dt view (pl_redis s) data ts)
   \<and> (\<forall>i w. (i, w) \<in> set (sv_log view (pl_redis s)) \<longrightarrow> i \<in> sv_used view (pl_redis s))
   \<and> (\<forall>i. i \<in> sv_acked view (pl_redis s) \<longrightarrow> i \<in> sv_used view (pl_redis s))
   \<and> (\<forall>i w. (i, w) \<in> set (sv_log view (pl_redis s)) \<longrightarrow> i \<in> sv_acked view (pl_redis s) \<longrightarrow>
        entry_stored cd dumps dump_dt (pl_db s) w)
   \<and> (\<forall>pc \<in> set (pl_workers s). worker_ok cd dumps dump_dt (pl_db s) (sv_log view (pl_redis s)) (sv_used view (pl_redis s)) pc)"

lemma entry_stored_mono:
  "entry_stored cd dumps dump_dt db w \<Longrightarrow> set (readings db) \<subseteq> set (readings db') \<Longrightarrow> entry_stored cd dumps dump_dt db' w"
  unfolding entry_stored_def using stored_mono by blast

lemma worker_ok_mono:
  "worker_ok cd dumps dump_dt db entries used pc \<Longrightarrow> set (readings db) \<subseteq> set (readings db') \<Longrightarrow>
   worker_ok cd dumps dump_dt db' entries used pc"
  by (cases pc) (auto intro: entry_stored_mono)

text \<open>A new entry has an identifier no worker holds.\<close>

lemma worker_ok_grow:
  assumes "worker_ok cd dumps dump_dt db entries used pc" "i \<notin> used" "set entries' \<subseteq> insert (i, w) (set entries)"
  shows "worker_ok cd dumps dump_dt db entries' (insert i used) pc"
proof -
  have old: "(j, v) \<in> set entries" if "j \<in> used" "(j, v) \<in> set entries'" for j v using that assms(2,3) by auto
  show ?thesis using assms(1) old by (cases pc) (auto simp: list_all_iff legit_entry_def)
qed

lemma worker_update:
  "\<forall>pc \<in> set ws. P pc \<Longrightarrow> P pc' \<Longrightarrow> \<forall>pc \<in> set (ws[k := pc']). P pc"
  using set_update_subset_insert by fastforce

text \<open>Steps taken while the workers are less than a full stream behind.\<close>

definition kept_step ::
  "('r, 'w) stream_server \<Rightarrow> ('r, 'w) stream_view \<Rightarrow> settings \<Rightarrow> 'w codec \<Rightarrow> row_bind \<Rightarrow> (json \<Rightarrow> 'w) \<Rightarrow> (pydt \<Rightarrow> string)
   \<Rightarrow> ('r, 'w) pipeline_state \<Rightarrow> ('r, 'w) pipeline_state \<Rightarrow> bool"
where
  "kept_step srv view cfg cd bind dumps dump_dt s s' \<longleftrightarrow>
     pipe_step srv cfg cd bind dumps dump_dt s s' \<and> int (backlog view (pl_redis s)) < telemetry_stream_maxlen cfg"

lemma ingest_buffered:
  assumes "opt_redis_buffer cfg" "resolve_timestamp cfg (tc_timestamp data) now = Inr ts"
    "ingest cfg dump_dt viewers now data st = (Inr ack, st')" "broadcasts st' = broadcasts st @ [p]"
    "broadcast cfg dumps True (JObj p) None m = (m', [(stream, w)])"
  shows "w = wire_of dumps dump_dt data ts"
  using assms by (auto simp: ingest_def announce_def broadcast_def wire_of_def row_payload_def split: if_splits)

lemma pipe_inv_parts:
  assumes "pipe_inv cd dumps dump_dt view s"
  shows "(data, ts) \<in> set (pl_accepted s) \<Longrightarrow> readable cd dumps dump_dt data ts \<Longrightarrow>
      stored data ts (pl_db s) \<or> outstanding dumps dump_dt view (pl_redis s) data ts"
    and "(i, w) \<in> set (sv_log view (pl_redis s)) \<Longrightarrow> i \<in> sv_used view (pl_redis s)"
    and "i \<in> sv_acked view (pl_redis s) \<Longrightarrow> i \<in> sv_used view (pl_redis s)"
    and "(i, w) \<in> set (sv_log view (pl_redis s)) \<Longrightarrow> i \<in> sv_acked view (pl_redis s) \<Longrightarrow> entry_stored cd dumps dump_dt (pl_db s) w"
    and "\<forall>pc \<in> set (pl_workers s). worker_ok cd dumps dump_dt (pl_db s) (sv_log view (pl_redis s)) (sv_used view (pl_redis s)) pc"
  using assms unfolding pipe_inv_def by blast+

lemma pipe_invI:
  assumes "\<And>data ts. (data, ts) \<in> set (pl_accepted s) \<Longrightarrow> readable cd dumps dump_dt data ts \<Longrightarrow>
      stored data ts (pl_db s) \<or> outstanding dumps dump_dt view (pl_redis s) data ts"
    and "\<And>i w. (i, w) \<in> set (sv_log view (pl_redis s)) \<Longrightarrow> i \<in> sv_used view (pl_redis s)"
    and "\<And>i. i \<in> sv_acked view (pl_redis s) \<Longrightarrow> i \<in> sv_used view (pl_redis s)"
    and "\<And>i w. (i, w) \<in> set (sv_log view (pl_redis s)) \<Longrightarrow> i \<in> sv_acked view (pl_redis s) \<Longrightarrow> entry_stored cd dumps dump_dt (pl_db s) w"
    and "\<forall>pc \<in> set (pl_workers s). worker_ok cd dumps dump_dt (pl_db s) (sv_log view (pl_redis s)) (sv_used view (pl_redis s)) pc"
  shows "pipe_inv cd dumps dump_dt view s"
  using assms unfolding pipe_inv_def by blast

lemma appended_inv:
  assumes inv: "pipe_inv cd dumps dump_dt view s" and add: "appended view n w (pl_redis s) r'"
    and bl: "int (backlog view (pl_redis s)) < n"
    and acc: "\<And>data ts. (data, ts) \<in> set acc \<Longrightarrow> (data, ts) \<in> set (pl_accepted s) \<or> w = wire_of dumps dump_dt data ts"
  shows "pipe_inv cd dumps dump_dt view (s\<lparr>pl_redis := r', pl_accepted := acc\<rparr>)"
proof -
  let ?r = "pl_redis s"
  note P = pipe_inv_parts [OF inv]
  obtain i where i: "i \<notin> sv_used view ?r" and log: "trimmed n (sv_log view ?r @ [(i, w)]) (sv_log view r')"
    and acked: "sv_acked view r' = sv_acked view ?r" and used: "sv_used view r' = insert i (sv_used view ?r)"
    using add unfolding appended_def by blast
  have sub: "set (sv_log view r') \<subseteq> insert (i, w) (set (sv_log view ?r))" using trimmed_sub [OF log] by auto
  note keep = trimmed_keeps [OF log bl [unfolded backlog_def]]
  have ia: "i \<notin> sv_acked view ?r" using i P(3) by blast
  have out: "outstanding dumps dump_dt view r' d t" if "outstanding dumps dump_dt view ?r d t" for d t
    using that keep(2) acked by (fastforce simp: outstanding_def)
  have new: "outstanding dumps dump_dt view r' d t" if "w = wire_of dumps dump_dt d t" for d t
    using that keep(1) ia acked by (auto simp: outstanding_def)
  show ?thesis
  proof (rule pipe_invI)
    show "stored d t (pl_db (s\<lparr>pl_redis := r', pl_accepted := acc\<rparr>))
        \<or> outstanding dumps dump_dt view (pl_redis (s\<lparr>pl_redis := r', pl_accepted := acc\<rparr>)) d t"
      if "(d, t) \<in> set (pl_accepted (s\<lparr>pl_redis := r', pl_accepted := acc\<rparr>))" "readable cd dumps dump_dt d t" for d t
      using that acc [of d t] P(1) [of d t] out new by auto
  qed (use P sub used acked i ia in \<open>auto intro: worker_ok_grow\<close>)
qed

text \<open>A step of a worker: rows are only added, and what it acknowledges is stored.\<close>

lemma worker_step_inv:
  assumes inv: "pipe_inv cd dumps dump_dt view s" and db: "set (readings (pl_db s)) \<subseteq> set (readings db')"
    and log: "sv_log view r' = sv_log view (pl_redis s)" and used: "sv_used view r' = sv_used view (pl_redis s)"
    and acked: "sv_acked view (pl_redis s) \<subseteq> sv_acked view r'" "sv_acked view r' \<subseteq> sv_acked view (pl_redis s) \<union> set ids"
    and ids: "worker_ok cd dumps dump_dt db' (sv_log view r') (sv_used view r') (WStored ids)"
    and pc': "worker_ok cd dumps dump_dt db' (sv_log view r') (sv_used view r') pc'"
  shows "pipe_inv cd dumps dump_dt view (s\<lparr>pl_redis := r', pl_db := db', pl_workers := (pl_workers s)[k := pc']\<rparr>)"
proof -
  note P = pipe_inv_parts [OF inv]
  have st: "entry_stored cd dumps dump_dt db' w" if "(i, w) \<in> set (sv_log view r')" "i \<in> sv_acked view r'" for i w
    proof (cases "i \<in> sv_acked view (pl_redis s)")
    case True
    then show ?thesis using that(1) log P(4) [of i w] entry_stored_mono [OF _ db] by simp
  next
    case False
    then have "i \<in> set ids" using that(2) acked(2) by blast
    then show ?thesis using ids that(1) by simp
  qed
  have out: "stored d t db' \<or> outstanding dumps dump_dt view r' d t"
    if "outstanding dumps dump_dt view (pl_redis s) d t" "readable cd dumps dump_dt d t" for d t
    using that st log unfolding outstanding_def entry_stored_def by metis
  have ws: "\<forall>pc \<in> set ((pl_workers s)[k := pc']). worker_ok cd dumps dump_dt db' (sv_log view r') (sv_used view r') pc"
    by (rule worker_update) (use pc' P(5) log used in \<open>auto intro: worker_ok_mono [OF _ db]\<close>)
  have acc: "stored d t db' \<or> outstanding dumps dump_dt view r' d t"
    if "(d, t) \<in> set (pl_accepted s)" "readable cd dumps dump_dt d t" for d t
    using P(1) [OF that] out that(2) stored_mono [OF _ db] by blast
  show ?thesis
    by (rule pipe_invI) (use acc st ws P(2,3) log used acked(2) ids in auto)
qed

lemma fetch_legit:
  assumes "legit_answers entries used a" "fetch a = Some (Some es)"
  shows "list_all (legit_entry entries used) es"
  using assms by (auto simp: fetch_def legit_answers_def split: option.splits if_splits)

lemma processed_ok:
  assumes b: "bind_ok bind" and run: "process_batch cfg cd bind now es db = (Inr ids, db')"
    and es: "list_all (legit_entry entries used) es"
  shows "worker_ok cd dumps dump_dt db' entries used (WStored ids)"
proof -
  have ids: "ids = map fst es" using process_batch_result(1) [OF run] .
  have "entry_stored cd dumps dump_dt db' w" if i: "i \<in> set ids" "(i, w) \<in> set entries" for i w
  proof -
    obtain x where x: "(i, x) \<in> set es" using i(1) ids by auto
    then have "x = Some (Some w)" using es i(2) by (fastforce simp: list_all_iff legit_entry_def)
    then show ?thesis unfolding entry_stored_def using process_batch_stores [OF b run] x by blast
  qed
  moreover have "i \<in> used" if "i \<in> set ids" for i
    using that es ids by (auto simp: list_all_iff legit_entry_def)
  ultimately show ?thesis by simp
qed

lemma kept_step_inv:
  assumes ok: "stream_ok srv view" and b: "bind_ok bind" and buf: "opt_redis_buffer cfg"
    and step: "kept_step srv view cfg cd bind dumps dump_dt s s'" and inv: "pipe_inv cd dumps dump_dt view s"
  shows "pipe_inv cd dumps dump_dt view s'"
proof -
  note P = pipe_inv_parts [OF inv]
  have pcs: "worker_ok cd dumps dump_dt (pl_db s) (sv_log view (pl_redis s)) (sv_used view (pl_redis s)) (pl_workers s ! k)"
    if "k < length (pl_workers s)" for k using P(5) that by simp
  have bl: "int (backlog view (pl_redis s)) < telemetry_stream_maxlen cfg" using step by (simp add: kept_step_def)
  have "pipe_step srv cfg cd bind dumps dump_dt s s'" using step by (simp add: kept_step_def)
  then show ?thesis
  proof (cases rule: pipe_step_cases)
    case (accept data now ts viewers st ack st' p m m' w r')
    have "appended view (telemetry_stream_maxlen cfg) w (pl_redis s) r'"
      using ok accept(6) unfolding stream_ok_def by blast
    then show ?thesis unfolding accept(1)
      using ingest_buffered [OF buf accept(2,3,4,5)] by (intro appended_inv [OF inv _ bl]) auto
  next
    case (other msg m m' w ok' r')
    then consider "appended view (telemetry_stream_maxlen cfg) w (pl_redis s) r'" | "same_view view (pl_redis s) r'"
      using ok unfolding stream_ok_def by blast
    then show ?thesis
    proof cases
      case 1
      from appended_inv [OF inv 1 bl, of "pl_accepted s"] show ?thesis by (simp add: other(1))
    next
      case 2
      with inv show ?thesis by (simp add: other(1) same_view_def pipe_inv_def outstanding_def)
    qed
  next
    case (read k a r')
    have v: "legit_answers (sv_log view (pl_redis s)) (sv_used view (pl_redis s)) a" "same_view view (pl_redis s) r'"
      using ok read(4) unfolding stream_ok_def by blast+
    let ?pc = "case fetch a of Some (Some es) \<Rightarrow> if es = [] then WIdle else WFetched es | _ \<Rightarrow> WIdle"
    have "worker_ok cd dumps dump_dt (pl_db s) (sv_log view r') (sv_used view r') ?pc"
      using fetch_legit [OF v(1)] v(2) by (auto simp: same_view_def split: option.splits)
    with worker_step_inv [OF inv, of "pl_db s" r' "[]" ?pc k] v(2) show ?thesis
      by (simp add: read(1) same_view_def)
  next
    case (process k es now res db')
    have db: "set (readings (pl_db s)) \<subseteq> set (readings db')" using process_batch_mono [OF process(4)] .
    let ?pc = "case res of Inl e \<Rightarrow> WIdle | Inr ids \<Rightarrow> WStored ids"
    have "worker_ok cd dumps dump_dt db' (sv_log view (pl_redis s)) (sv_used view (pl_redis s)) ?pc"
    proof (cases res)
      case (Inr ids)
      then show ?thesis using processed_ok [OF b process(4) [unfolded Inr]] pcs [OF process(2)] process(3) Inr by simp
    qed simp
    with worker_step_inv [OF inv db, of "pl_redis s" "[]" ?pc k] show ?thesis by (simp add: process(1))
  next
    case (ack k ids ok' r')
    have v: "sv_log view r' = sv_log view (pl_redis s)" "sv_acked view (pl_redis s) \<subseteq> sv_acked view r'"
      "sv_acked view r' \<subseteq> sv_acked view (pl_redis s) \<union> set ids" "sv_used view r' = sv_used view (pl_redis s)"
      using ok ack(4) unfolding stream_ok_def by blast+
    with worker_step_inv [OF inv, of "pl_db s" r' ids WIdle k] pcs [OF ack(2)] ack(3) show ?thesis
      by (simp add: ack(1))
  next
    case (crash k)
    with worker_step_inv [OF inv, of "pl_db s" "pl_redis s" "[]" WIdle k] show ?thesis by simp
  qed
qed

section \<open>Properties\<close>

interpretation pipeline: step_invariant
    "kept_step srv view cfg cd bind dumps dump_dt"
    "\<lambda>s. stream_ok srv view \<and> bind_ok bind \<and> opt_redis_buffer cfg \<longrightarrow> pipe_inv cd dumps dump_dt view s"
    for srv view cfg cd bind dumps dump_dt
  by unfold_locales (blast intro: kept_step_inv)

text \<open>A deployment at its first boot: an empty stream, nothing accepted, all workers idle.\<close>

definition pipe_start :: "('r, 'w) stream_view \<Rightarrow> ('r, 'w) pipeline_state \<Rightarrow> bool" where
  "pipe_start view s \<longleftrightarrow> sv_log view (pl_redis s) = [] \<and> sv_acked view (pl_redis s) = {}
     \<and> pl_accepted s = [] \<and> list_all (\<lambda>pc. pc = WIdle) (pl_workers s)"

lemma pipe_start_inv: "pipe_start view s \<Longrightarrow> pipe_inv cd dumps dump_dt view s"
  by (auto simp: pipe_start_def pipe_inv_def list_all_iff)

text \<open>
  C9: Buffered ingest loses nothing. However API instances, any number of workers, failed calls
  and crashes interleave, as long as the workers stay less than one full stream behind, every
  published reading is in the telemetry table with its robot, values and resolved timestamp, or
  its entry is still on the stream unacknowledged and will be delivered again; so with nothing
  outstanding every published reading is stored.
\<close>

theorem buffered_ingest_lossless:
  assumes "stream_ok srv view" and "bind_ok bind" and "opt_redis_buffer cfg" and "pipe_start view s0"
    and "(kept_step srv view cfg cd bind dumps dump_dt)\<^sup>*\<^sup>* s0 s"
    and "(data, ts) \<in> set (pl_accepted s)" and "readable cd dumps dump_dt data ts"
  shows "(\<exists>i. new_row i data ts \<in> set (readings (pl_db s)))
    \<or> (\<exists>i. (i, dumps (row_payload dump_dt data ts)) \<in> set (sv_log view (pl_redis s)) \<and> i \<notin> sv_acked view (pl_redis s))"
proof -
  have "pipe_inv cd dumps dump_dt view s"
    using pipeline.run_keeps [OF assms(5)] assms(1-3) pipe_start_inv [OF assms(4)] by blast
  from pipe_inv_parts(1) [OF this assms(6,7)] show ?thesis by (simp add: stored_def outstanding_def wire_of_def)
qed

text \<open>A server that keeps a list: the next number, the entries, what was acknowledged.\<close>

type_synonym list_stream = "nat \<times> (string \<times> json) list \<times> string list"

definition ticks :: "nat \<Rightarrow> string" where
  "ticks n = replicate n CHR ''i''"

definition list_server :: "(list_stream, json) stream_server" where
  "list_server = \<lparr>
     ss_xadd = (\<lambda>(n, log, acked) w bound. (True, (n + 1, drop (Suc (length log) - nat bound) (log @ [(ticks n, w)]), acked))),
     ss_reads = (\<lambda>(n, log, acked). (\<lparr>read_own = Some [], autoclaim = None,
        read_new = Some (map (\<lambda>(i, w). (i, Some (Some w))) (filter (\<lambda>(i, w). i \<in> ticks ` {..<n} \<and> distinct (map fst log)) log)),
        xack_ok = True\<rparr>, (n, log, acked))),
     ss_xack = (\<lambda>(n, log, acked) ids. (True, (n, log, acked @ ids)))\<rparr>"

definition list_view :: "(list_stream, json) stream_view" where
  "list_view = \<lparr>sv_log = (\<lambda>(n, log, acked). log), sv_acked = (\<lambda>(n, log, acked). set acked), sv_used = (\<lambda>(n, log, acked). ticks ` {..<n})\<rparr>"

lemma ticks_inj: "ticks m = ticks n \<longleftrightarrow> m = n"
  unfolding ticks_def by (metis length_replicate)

lemma list_server_ok: "stream_ok list_server list_view"
  unfolding stream_ok_def
proof (intro conjI allI impI)
  fix r :: list_stream and w n ok r' assume "ss_xadd list_server r w n = (ok, r')"
  moreover obtain m log acked where "r = (m, log, acked)" by (cases r)
  moreover have "ticks m \<notin> ticks ` {..<m}" by (auto simp: ticks_inj)
  ultimately show "appended list_view n w r r' \<or> \<not> ok \<and> same_view list_view r r'"
    by (auto simp: appended_def trimmed_def list_server_def list_view_def lessThan_Suc less_Suc_eq intro!: exI [of _ "ticks m"])
next
  fix r a r' assume "ss_reads list_server r = (a, r')"
  then show "legit_answers (sv_log list_view r) (sv_used list_view r) a" "same_view list_view r r'"
    by (auto simp: legit_answers_def legit_entry_def list_all_iff same_view_def list_server_def list_view_def
          split: prod.splits) (metis eq_key_imp_eq_value)
qed (auto simp: list_server_def list_view_def split: prod.splits)


lemma sample_ingest_buffered:
  "ingest (default_settings ''db'' ''k'') (\<lambda>d. []) 0 50 (sample_reading 90) empty_ingest =
    (Inr [(''message'', JStr ''Telemetry queued in Redis''), (''id'', JNum 0)],
     empty_ingest\<lparr>broadcasts := broadcasts empty_ingest @ [queued_payload (\<lambda>d. []) (sample_reading 90) 90]\<rparr>)"
  "resolve_timestamp (default_settings ''db'' ''k'') (tc_timestamp (sample_reading 90)) 50 = Inr 90"
  by (simp_all add: ingest_def resolve_timestamp_def to_utc_def in_datetime_range_def sample_reading_def seconds_def
      default_settings_def announce_def)

definition sample_pipe :: "(list_stream, json) pipeline_state" where
  "sample_pipe = \<lparr>pl_redis = (0, [], []), pl_db = empty_tele, pl_workers = [WIdle, WIdle], pl_accepted = []\<rparr>"

definition sample_wire :: json where
  "sample_wire = row_payload (\<lambda>d. []) (sample_reading 90) 90"

lemma sample_accept:
  "pipe_step list_server (default_settings ''db'' ''k'') sample_codec sample_bind (\<lambda>j. j) (\<lambda>d. []) sample_pipe
     (sample_pipe\<lparr>pl_redis := (1, [([], sample_wire)], []), pl_accepted := [(sample_reading 90, 90)]\<rparr>)"
proof -
  let ?cfg = "default_settings ''db'' ''k''" and ?p = "queued_payload (\<lambda>d. []) (sample_reading 90) 90"
  have b: "broadcasts (empty_ingest\<lparr>broadcasts := broadcasts empty_ingest @ [?p]\<rparr>) = broadcasts empty_ingest @ [?p]" by simp
  have x: "broadcast ?cfg (\<lambda>j. j) True (JObj ?p) None m = (m, [(telemetry_stream, sample_wire)])" for m
    by (simp add: broadcast_def default_settings_def sample_wire_def row_payload_def)
  have a: "ss_xadd list_server (pl_redis sample_pipe) sample_wire (telemetry_stream_maxlen ?cfg) = (True, 1, [([], sample_wire)], [])"
    by (simp add: list_server_def sample_pipe_def default_settings_def ticks_def)
  from pipe_step.accept [OF sample_ingest_buffered(2,1) b x a] show ?thesis by (simp add: sample_pipe_def)
qed

theorem buffered_ingest_lossless_witness:
  "(\<exists>i. new_row i (sample_reading 90) 90 \<in> set (readings empty_tele))
   \<or> (\<exists>i. (i, row_payload (\<lambda>d. []) (sample_reading 90) 90) \<in> set [([], sample_wire)] \<and> i \<notin> set ([] :: string list))"
proof -
  let ?cfg = "default_settings ''db'' ''k''"
  let ?s = "sample_pipe\<lparr>pl_redis := (1, [([], sample_wire)], []), pl_accepted := [(sample_reading 90, 90)]\<rparr>"
  have start: "pipe_start list_view sample_pipe" by (simp add: pipe_start_def list_view_def sample_pipe_def)
  have "kept_step list_server list_view ?cfg sample_codec sample_bind (\<lambda>j. j) (\<lambda>d. []) sample_pipe ?s"
    using sample_accept by (simp add: kept_step_def backlog_def list_view_def sample_pipe_def default_settings_def)
  then have run: "(kept_step list_server list_view ?cfg sample_codec sample_bind (\<lambda>j. j) (\<lambda>d. []))\<^sup>*\<^sup>* sample_pipe ?s" by blast
  have "readable sample_codec (\<lambda>j. j) (\<lambda>d. []) (sample_reading 90) 90"
    by (simp add: readable_def telemetry_row_ok_def new_row_def sample_reading_def int4_def fits_def sample_codec_def wire_of_def)
  moreover have "opt_redis_buffer ?cfg" by (simp add: default_settings_def)
  ultimately show ?thesis
    using buffered_ingest_lossless [OF list_server_ok sample_bind_ok _ start run, of "sample_reading 90" 90]
    by (simp add: list_view_def sample_pipe_def)
qed

end
