(* ===== verification/FleetAnalytics.thy ===== *)
theory FleetAnalytics
  imports FleetStatus
begin

text \<open>
  Fleet analytics: the two aggregate queries of \<open>repositories/telemetry_repo.py\<close> (health trend by
  minute, completed missions by type), the distributions of \<open>services/analytics_service.py\<close>
  over the newest reading of every robot heard from in the last 180 seconds, and the cached,
  guarded route of \<open>routes/analytics.py\<close>.
\<close>

section \<open>The health trend\<close>

text \<open>\<open>date_trunc('minute', t)\<close>.\<close>

definition trunc_minute :: "instant \<Rightarrow> instant" where
  "trunc_minute t = t - t mod minutes 1"

text \<open>SQL's AVG over the values that are not NULL; NULL when there is none.\<close>

definition sql_avg :: "rat list \<Rightarrow> rat option" where
  "sql_avg xs = (if xs = [] then None else Some (sum_list xs / of_nat (length xs)))"

definition avg_of :: "(telemetry_row \<Rightarrow> rat option) \<Rightarrow> telemetry_row list \<Rightarrow> rat option" where
  "avg_of col rows = sql_avg (List.map_filter col rows)"

record trend_row =
  bucket :: instant
  avg_battery :: rat
  avg_temperature :: rat
  avg_batt_h :: "rat option"
  avg_motor_h :: "rat option"
  avg_sensor_h :: "rat option"
  avg_net_h :: "rat option"

definition bucket_row :: "telemetry_row list \<Rightarrow> instant \<Rightarrow> trend_row" where
  "bucket_row rows b =
     (let rs = filter (\<lambda>r. trunc_minute (t_timestamp r) = b) rows
      in \<lparr>bucket = b,
          avg_battery = sum_list (map t_battery rs) / of_nat (length rs),
          avg_temperature = sum_list (map t_temperature rs) / of_nat (length rs),
          avg_batt_h = avg_of t_battery_health rs, avg_motor_h = avg_of t_motor_health rs,
          avg_sensor_h = avg_of t_sensor_health rs, avg_net_h = avg_of t_network_health rs\<rparr>)"

text \<open>The statement: newest bucket first, at most \<open>limit_minutes\<close> of them.\<close>

definition trend_query :: "instant \<Rightarrow> nat \<Rightarrow> telemetry_row list \<Rightarrow> trend_row list" where
  "trend_query dbnow limit_minutes t =
     (let rows = filter (in_window dbnow (int limit_minutes)) t;
          buckets = sort (remdups (map (\<lambda>r. trunc_minute (t_timestamp r)) rows))
      in take limit_minutes (map (bucket_row rows) (rev buckets)))"

text \<open>Adding \<open>None\<close> to a number raises \<open>TypeError\<close>.\<close>

definition health_score :: "trend_row \<Rightarrow> rat result" where
  "health_score row =
     (case (avg_batt_h row, avg_motor_h row, avg_sensor_h row, avg_net_h row) of
        (Some b, Some m, Some s, Some n) \<Rightarrow>
          let avg_component = (b + m + s + n) / 4;
              score = avg_component * (55 / 100) + avg_battery row * (30 / 100)
                      - max 0 (avg_temperature row - 55) * (11 / 10)
          in Inr (py_round 1 (max 0 (min 100 score)))
      | _ \<Rightarrow> Inl TypeError)"

fun trend_points :: "trend_row list \<Rightarrow> (instant \<times> rat) list result" where
  "trend_points [] = Inr []"
| "trend_points (row # rows) =
     (case health_score row of Inl e \<Rightarrow> Inl e
      | Inr score \<Rightarrow> (case trend_points rows of Inl e \<Rightarrow> Inl e | Inr ps \<Rightarrow> Inr ((bucket row, score) # ps)))"

definition get_fleet_health_trend :: "instant \<Rightarrow> nat \<Rightarrow> telemetry_row list \<Rightarrow> (instant \<times> rat) list result" where
  "get_fleet_health_trend dbnow limit_minutes t = trend_points (rev (trend_query dbnow limit_minutes t))"

section \<open>Completed missions\<close>

definition mission_done :: "instant \<Rightarrow> telemetry_row \<Rightarrow> bool" where
  "mission_done dbnow r \<longleftrightarrow>
     in_window dbnow (60 * 24) r \<and> (case t_mission_progress r of Some p \<Rightarrow> p \<ge> 100 | None \<Rightarrow> False)
     \<and> t_mission_type r \<noteq> None"

definition completion_query :: "instant \<Rightarrow> telemetry_row list \<Rightarrow> (string \<times> nat) list" where
  "completion_query dbnow t =
     (let rows = filter (mission_done dbnow) t
      in map (\<lambda>mt. (mt, length (remdups (List.map_filter t_mission_id (filter (\<lambda>r. t_mission_type r = Some mt) rows)))))
           (remdups (List.map_filter t_mission_type rows)))"

definition mission_types :: "string list" where
  "mission_types = [''PATROL'', ''DELIVERY'', ''INSPECTION'']"

definition get_mission_completions :: "instant \<Rightarrow> telemetry_row list \<Rightarrow> (string \<times> nat) list" where
  "get_mission_completions dbnow t =
     fold (\<lambda>(mt, n) counts. if dict_get counts mt \<noteq> None then dict_set mt n counts else counts)
       (completion_query dbnow t) (map (\<lambda>mt. (mt, 0)) mission_types)"

section \<open>The distributions\<close>

definition latest_rows ::
  "(telemetry_row list \<Rightarrow> telemetry_row list) \<Rightarrow> (telemetry_row list \<Rightarrow> telemetry_row list) \<Rightarrow> instant \<Rightarrow> instant
   \<Rightarrow> telemetry_row list \<Rightarrow> telemetry_row list"
where
  "latest_rows scan scan2 dbnow now t =
     filter (\<lambda>r. now - t_timestamp r \<le> seconds 180)
       (map last (filter (\<lambda>rows. rows \<noteq> []) (map snd (get_recent_per_robot scan scan2 dbnow 1 15 t))))"

definition battery_ranges :: "(int \<times> int) list" where
  "battery_ranges = [(0, 20), (20, 40), (40, 60), (60, 80), (80, 101)]"

definition temperature_ranges :: "(int \<times> int) list" where
  "temperature_ranges = [(0, 40), (40, 55), (55, 70), (70, 85), (85, 200)]"

definition count_in :: "(telemetry_row \<Rightarrow> rat) \<Rightarrow> telemetry_row list \<Rightarrow> int \<times> int \<Rightarrow> nat" where
  "count_in col rows = (\<lambda>(lower, upper). length (filter (\<lambda>r. of_int lower \<le> col r \<and> col r < of_int upper) rows))"

definition battery_distribution :: "telemetry_row list \<Rightarrow> (string \<times> nat) list" where
  "battery_distribution rows =
     map (\<lambda>(lower, upper). (int_str lower @ ''-'' @ int_str (if upper < 101 then upper - 1 else 100) @ ''%'',
                            count_in t_battery rows (lower, upper))) battery_ranges"

definition temperature_distribution :: "telemetry_row list \<Rightarrow> (string \<times> nat) list" where
  "temperature_distribution rows =
     map (\<lambda>(lower, upper). (int_str lower @ ''-'' @ (if upper < 200 then int_str (upper - 1) @ ''C'' else ''95C+''),
                            count_in t_temperature rows (lower, upper))) temperature_ranges"

definition row_status :: "telemetry_row \<Rightarrow> string" where
  "row_status r = (if truthy_str (t_status r) then py_upper (the (t_status r)) else ''UNKNOWN'')"

definition shown_statuses :: "string list" where
  "shown_statuses = [''ACTIVE'', ''LOW POWER'', ''OVERHEATING'', ''OFFLINE'', ''CHARGING'', ''DEAD'']"

definition robot_status_breakdown :: "telemetry_row list \<Rightarrow> (string \<times> nat) list" where
  "robot_status_breakdown rows =
     map (\<lambda>status. (status, length (filter (\<lambda>r. row_status r = status) rows))) shown_statuses"

section \<open>The service and the route\<close>

record fleet_analytics =
  fleet_health_trend :: "(instant \<times> rat) list"
  fa_battery_distribution :: "(string \<times> nat) list"
  fa_temperature_distribution :: "(string \<times> nat) list"
  mission_completion_count :: "(string \<times> nat) list"
  fa_robot_status_breakdown :: "(string \<times> nat) list"

definition compute_analytics ::
  "(telemetry_row list \<Rightarrow> telemetry_row list) \<Rightarrow> (telemetry_row list \<Rightarrow> telemetry_row list) \<Rightarrow> instant \<Rightarrow> instant
   \<Rightarrow> telemetry_row list \<Rightarrow> fleet_analytics result"
where
  "compute_analytics scan scan2 dbnow now t =
     (case get_fleet_health_trend dbnow 20 t of
        Inl e \<Rightarrow> Inl e
      | Inr trend \<Rightarrow>
          (let rows = latest_rows scan scan2 dbnow now t
           in Inr \<lparr>fleet_health_trend = trend,
                   fa_battery_distribution = battery_distribution rows,
                   fa_temperature_distribution = temperature_distribution rows,
                   mission_completion_count = get_mission_completions dbnow t,
                   fa_robot_status_breakdown = robot_status_breakdown rows\<rparr>))"

definition get_fleet_analytics ::
  "(telemetry_row list \<Rightarrow> telemetry_row list) \<Rightarrow> (telemetry_row list \<Rightarrow> telemetry_row list) \<Rightarrow> settings
   \<Rightarrow> ('c, fleet_analytics) kv \<Rightarrow> instant \<Rightarrow> instant \<Rightarrow> telemetry_row list \<Rightarrow> 'c \<Rightarrow> fleet_analytics result \<times> 'c"
where
  "get_fleet_analytics scan scan2 cfg srv dbnow now t c =
     (case (if opt_read_cache cfg then cache_get srv c now ''fleet_analytics'' else None) of
        Some v \<Rightarrow> (Inr v, c)
      | None \<Rightarrow>
          (case compute_analytics scan scan2 dbnow now t of
             Inl e \<Rightarrow> (Inl e, c)
           | Inr v \<Rightarrow> (Inr v, if opt_read_cache cfg then cache_set srv c now ''fleet_analytics'' v 10 else c)))"

definition fleet_analytics_route ::
  "(telemetry_row list \<Rightarrow> telemetry_row list) \<Rightarrow> (telemetry_row list \<Rightarrow> telemetry_row list) \<Rightarrow> settings
   \<Rightarrow> ('c, fleet_analytics) kv \<Rightarrow> string option \<Rightarrow> instant \<Rightarrow> instant \<Rightarrow> telemetry_row list \<Rightarrow> 'c
   \<Rightarrow> fleet_analytics result \<times> 'c"
where
  "fleet_analytics_route scan scan2 cfg srv x_api_key dbnow now t c =
     (case verify_read_access cfg x_api_key of
        Inl e \<Rightarrow> (Inl e, c)
      | Inr _ \<Rightarrow> get_fleet_analytics scan scan2 cfg srv dbnow now t c)"

section \<open>Lemmas\<close>

lemma health_score_cases:
  "(\<exists>s. health_score row = Inr s \<and> 0 \<le> s \<and> s \<le> 100) \<or> health_score row = Inl TypeError"
proof -
  have "0 \<le> py_round 1 (max 0 (min 100 z)) \<and> py_round 1 (max 0 (min 100 z)) \<le> 100" for z :: rat
    using py_round_bounds [of 0 "max 0 (min 100 z)" 100 1] by simp
  then show ?thesis by (simp add: health_score_def Let_def split: option.splits)
qed

lemma health_score_error:
  "health_score row = Inl e \<longleftrightarrow>
   e = TypeError \<and> None \<in> {avg_batt_h row, avg_motor_h row, avg_sensor_h row, avg_net_h row}"
  by (auto simp: health_score_def Let_def split: option.splits)

lemma trend_points_ok:
  "trend_points rows = Inr ps \<Longrightarrow> map fst ps = map bucket rows \<and> (\<forall>p \<in> set ps. 0 \<le> snd p \<and> snd p \<le> 100)"
proof (induction rows arbitrary: ps)
  case (Cons row rows)
  then show ?case using health_score_cases [of row] by (fastforce split: sum.splits)
qed simp

lemma trend_points_error:
  "(\<exists>e. trend_points rows = Inl e) \<longleftrightarrow> (\<exists>row \<in> set rows. \<exists>e. health_score row = Inl e)"
  by (induction rows) (auto split: sum.splits)

lemma trend_points_TypeError: "trend_points rows = Inl e \<Longrightarrow> e = TypeError"
  by (induction rows) (auto simp: health_score_error split: sum.splits)

lemma avg_of_None: "avg_of col rows = None \<longleftrightarrow> (\<forall>r \<in> set rows. col r = None)"
  by (auto simp: avg_of_def sql_avg_def map_filter_def filter_empty_conv)

lemma bucket_bucket_row [simp]: "bucket (bucket_row rows b) = b"
  by (simp add: bucket_row_def Let_def)

section \<open>The trend\<close>

text \<open>The minutes in which something was recorded, oldest first, and the newest \<open>n\<close> of them.\<close>

definition trend_minutes :: "instant \<Rightarrow> nat \<Rightarrow> telemetry_row list \<Rightarrow> instant list" where
  "trend_minutes dbnow n t =
     (let bs = sorted_list_of_set ((\<lambda>r. trunc_minute (t_timestamp r)) ` {r \<in> set t. in_window dbnow (int n) r})
      in drop (length bs - n) bs)"

definition minute_rows :: "instant \<Rightarrow> nat \<Rightarrow> telemetry_row list \<Rightarrow> instant \<Rightarrow> telemetry_row list" where
  "minute_rows dbnow n t b = filter (\<lambda>r. trunc_minute (t_timestamp r) = b) (filter (in_window dbnow (int n)) t)"

lemma rev_trend_query:
  "rev (trend_query dbnow n t) = map (bucket_row (filter (in_window dbnow (int n)) t)) (trend_minutes dbnow n t)"
proof -
  let ?rows = "filter (in_window dbnow (int n)) t"
  let ?f = "\<lambda>r. trunc_minute (t_timestamp r)"
  have "sorted_list_of_set (?f ` {r \<in> set t. in_window dbnow (int n) r}) = sort (remdups (map ?f ?rows))"
    using sorted_list_of_set_sort_remdups [of "map ?f ?rows"] by simp
  then show ?thesis
    by (simp add: trend_query_def trend_minutes_def Let_def rev_take rev_map drop_map)
qed

lemma bucket_row_silent:
  "None \<in> {avg_batt_h (bucket_row (filter (in_window dbnow (int n)) t) b), avg_motor_h (bucket_row (filter (in_window dbnow (int n)) t) b),
      avg_sensor_h (bucket_row (filter (in_window dbnow (int n)) t) b), avg_net_h (bucket_row (filter (in_window dbnow (int n)) t) b)}
   \<longleftrightarrow> (\<exists>col \<in> {t_battery_health, t_motor_health, t_sensor_health, t_network_health}.
        \<forall>r \<in> set (minute_rows dbnow n t b). col r = None)"
  by (simp add: bucket_row_def Let_def minute_rows_def eq_commute [of None] avg_of_None del: filter_filter)

lemma health_trend_ok_iff:
  "(\<exists>ps. get_fleet_health_trend dbnow n t = Inr ps) \<longleftrightarrow>
   (\<forall>b \<in> set (trend_minutes dbnow n t). \<forall>col \<in> {t_battery_health, t_motor_health, t_sensor_health, t_network_health}.
      \<exists>r \<in> set (minute_rows dbnow n t b). col r \<noteq> None)"
proof -
  have "(\<exists>ps. get_fleet_health_trend dbnow n t = Inr ps) \<longleftrightarrow> \<not> (\<exists>e. get_fleet_health_trend dbnow n t = Inl e)"
    by (cases "get_fleet_health_trend dbnow n t") auto
  also have "\<dots> \<longleftrightarrow> (\<forall>b \<in> set (trend_minutes dbnow n t). \<not> (\<exists>col \<in> {t_battery_health, t_motor_health, t_sensor_health, t_network_health}.
      \<forall>r \<in> set (minute_rows dbnow n t b). col r = None))"
    unfolding get_fleet_health_trend_def rev_trend_query trend_points_error
    by (simp only: set_map bex_simps(7) health_score_error bucket_row_silent) blast
  finally show ?thesis by blast
qed

text \<open>
  C27: The health trend. Either it answers one point for each of the newest \<open>limit_minutes\<close>
  minutes in which anything was recorded, oldest first, every score between 0 and 100; or it
  raises \<open>TypeError\<close>, and it does so exactly when in one of those minutes no reading at all
  carried one of the four component health values.
\<close>

theorem health_trend_correct:
  "case get_fleet_health_trend dbnow n t of
     Inr ps \<Rightarrow> map fst ps = trend_minutes dbnow n t \<and> sorted_wrt (<) (map fst ps) \<and> length ps \<le> n
       \<and> list_all (\<lambda>p. 0 \<le> snd p \<and> snd p \<le> 100) ps
       \<and> list_all (\<lambda>b. \<not> (\<exists>col \<in> {t_battery_health, t_motor_health, t_sensor_health, t_network_health}.
             list_all (\<lambda>r. col r = None) (minute_rows dbnow n t b))) (trend_minutes dbnow n t)
   | Inl e \<Rightarrow> e = TypeError
       \<and> list_ex (\<lambda>b. \<exists>col \<in> {t_battery_health, t_motor_health, t_sensor_health, t_network_health}.
             list_all (\<lambda>r. col r = None) (minute_rows dbnow n t b)) (trend_minutes dbnow n t)"
proof -
  let ?rows = "filter (in_window dbnow (int n)) t"
  let ?silent = "\<lambda>b. \<exists>col \<in> {t_battery_health, t_motor_health, t_sensor_health, t_network_health}.
             list_all (\<lambda>r. col r = None) (minute_rows dbnow n t b)"
  have g: "get_fleet_health_trend dbnow n t = trend_points (map (bucket_row ?rows) (trend_minutes dbnow n t))"
    by (simp add: get_fleet_health_trend_def rev_trend_query)
  have silent: "(\<exists>e. health_score (bucket_row ?rows b) = Inl e) \<longleftrightarrow> ?silent b" for b
    using bucket_row_silent [of dbnow n t b] by (simp only: health_score_error list_all_iff) simp
  have err: "(\<exists>e. get_fleet_health_trend dbnow n t = Inl e) \<longleftrightarrow> list_ex ?silent (trend_minutes dbnow n t)"
    unfolding g trend_points_error by (simp only: set_map bex_simps(7) silent list_ex_iff)
  show ?thesis
  proof (cases "get_fleet_health_trend dbnow n t")
    case (Inl e)
    then have "e = TypeError" unfolding g by (rule trend_points_TypeError)
    with Inl err show ?thesis by simp
  next
    case (Inr ps)
    from trend_points_ok [OF Inr [unfolded g]]
    have p: "map fst ps = trend_minutes dbnow n t" "\<forall>p \<in> set ps. 0 \<le> snd p \<and> snd p \<le> 100"
      by (simp_all add: comp_def)
    have "sorted_wrt (<) (trend_minutes dbnow n t)" "length (trend_minutes dbnow n t) \<le> n"
      unfolding trend_minutes_def Let_def by (simp_all add: sorted_wrt_drop)
    moreover have "length ps = length (trend_minutes dbnow n t)" using p(1) by (metis length_map)
    moreover have "\<not> list_ex ?silent (trend_minutes dbnow n t)" using Inr err by (metis sum.distinct(1))
    ultimately show ?thesis using Inr p
      by (simp only: sum.case list_all_iff list_ex_iff) blast
  qed
qed

section \<open>The distributions\<close>

lemma count_in_adjacent:
  "a \<le> b \<Longrightarrow> b \<le> c \<Longrightarrow> count_in col rows (a, b) + count_in col rows (b, c) = count_in col rows (a, c)"
proof (induction rows)
  case (Cons r rows)
  have "of_int a \<le> (of_int b :: rat)" "of_int b \<le> (of_int c :: rat)" using Cons.prems by simp_all
  then have "(of_int a \<le> col r \<and> col r < of_int c) \<longleftrightarrow>
      (of_int a \<le> col r \<and> col r < of_int b) \<or> (of_int b \<le> col r \<and> col r < of_int c)"
    "\<not> ((of_int a \<le> col r \<and> col r < of_int b) \<and> (of_int b \<le> col r \<and> col r < of_int c))" by linarith+
  with Cons show ?case by (auto simp: count_in_def)
qed (simp add: count_in_def)

lemma battery_total: "sum_list (map snd (battery_distribution rows)) = count_in t_battery rows (0, 101)"
proof -
  have "count_in t_battery rows (0, 101) =
      count_in t_battery rows (0, 20) + (count_in t_battery rows (20, 40) + (count_in t_battery rows (40, 60)
        + (count_in t_battery rows (60, 80) + count_in t_battery rows (80, 101))))"
    by (simp add: count_in_adjacent)
  then show ?thesis by (simp add: battery_distribution_def battery_ranges_def)
qed

lemma temperature_total: "sum_list (map snd (temperature_distribution rows)) = count_in t_temperature rows (0, 200)"
proof -
  have "count_in t_temperature rows (0, 200) =
      count_in t_temperature rows (0, 40) + (count_in t_temperature rows (40, 55) + (count_in t_temperature rows (55, 70)
        + (count_in t_temperature rows (70, 85) + count_in t_temperature rows (85, 200))))"
    by (simp add: count_in_adjacent)
  then show ?thesis by (simp add: temperature_distribution_def temperature_ranges_def)
qed

lemma count_values:
  "distinct vs \<Longrightarrow> sum_list (map (\<lambda>v. length (filter (\<lambda>r. f r = v) rows)) vs) = length (filter (\<lambda>r. f r \<in> set vs) rows)"
proof (induction vs)
  case (Cons v vs)
  have "length (filter (\<lambda>r. f r = v \<or> f r \<in> set vs) rows)
      = length (filter (\<lambda>r. f r = v) rows) + length (filter (\<lambda>r. f r \<in> set vs) rows)"
    using Cons.prems by (induction rows) auto
  with Cons show ?case by simp
qed simp

lemma status_total:
  "sum_list (map snd (robot_status_breakdown rows)) = length (filter (\<lambda>r. row_status r \<in> set shown_statuses) rows)"
proof -
  have "distinct shown_statuses" by (simp add: shown_statuses_def)
  from count_values [OF this, of row_status rows] show ?thesis by (simp add: robot_status_breakdown_def comp_def)
qed

text \<open>The readings of one robot in the last quarter of an hour.\<close>

definition quarter_rows :: "instant \<Rightarrow> telemetry_row list \<Rightarrow> int \<Rightarrow> telemetry_row list" where
  "quarter_rows dbnow t rid = filter (\<lambda>r. t_robot_id r = rid) (filter (in_window dbnow 15) t)"

definition heard_from :: "instant \<Rightarrow> instant \<Rightarrow> telemetry_row list \<Rightarrow> int set" where
  "heard_from dbnow now t =
     {rid. quarter_rows dbnow t rid \<noteq> [] \<and> now - Max (t_timestamp ` set (quarter_rows dbnow t rid)) \<le> seconds 180}"

lemma latest_rows_eq:
  assumes "scan_ok scan" "scan_ok scan2"
  shows "latest_rows scan scan2 dbnow now t =
    filter (\<lambda>r. now - t_timestamp r \<le> seconds 180)
      (map (\<lambda>rid. last (newest_rows scan scan2 1 (quarter_rows dbnow t rid)))
        (sort (remdups (map t_robot_id (filter (in_window dbnow 15) t)))))"
proof -
  let ?ids = "sort (remdups (map t_robot_id (filter (in_window dbnow 15) t)))"
  have "newest_rows scan scan2 1 (quarter_rows dbnow t rid) \<noteq> []" if "rid \<in> set ?ids" for rid
  proof -
    have "quarter_rows dbnow t rid \<noteq> []" using that by (auto simp: quarter_rows_def filter_empty_conv)
    from newest_rows_last [OF assms _ this, of 1] show ?thesis by simp
  qed
  then have "filter (\<lambda>rows. rows \<noteq> []) (map (\<lambda>rid. newest_rows scan scan2 1 (quarter_rows dbnow t rid)) ?ids)
      = map (\<lambda>rid. newest_rows scan scan2 1 (quarter_rows dbnow t rid)) ?ids"
    by (intro filter_True) (auto simp del: set_sort)
  moreover have "map snd (get_recent_per_robot scan scan2 dbnow 1 15 t)
      = map (\<lambda>rid. newest_rows scan scan2 1 (quarter_rows dbnow t rid)) ?ids"
    by (simp add: get_recent_per_robot_def Let_def quarter_rows_def comp_def)
  ultimately show ?thesis unfolding latest_rows_def by (simp add: comp_def)
qed

lemma latest_rows_laws:
  assumes "scan_ok scan" "scan_ok scan2"
  shows "distinct (map t_robot_id (latest_rows scan scan2 dbnow now t))"
    and "t_robot_id ` set (latest_rows scan scan2 dbnow now t) = heard_from dbnow now t"
    and "\<forall>r \<in> set (latest_rows scan scan2 dbnow now t). r \<in> set t
      \<and> t_timestamp r = Max (t_timestamp ` set (quarter_rows dbnow t (t_robot_id r)))"
proof -
  let ?ids = "sort (remdups (map t_robot_id (filter (in_window dbnow 15) t)))"
  let ?l = "\<lambda>rid. last (newest_rows scan scan2 1 (quarter_rows dbnow t rid))"
  have idq: "rid \<in> set ?ids \<longleftrightarrow> quarter_rows dbnow t rid \<noteq> []" for rid
    by (auto simp: quarter_rows_def filter_empty_conv)
  have l: "?l rid \<in> set t \<and> t_robot_id (?l rid) = rid \<and> t_timestamp (?l rid) = Max (t_timestamp ` set (quarter_rows dbnow t rid))"
    if "rid \<in> set ?ids" for rid
  proof -
    have ne: "quarter_rows dbnow t rid \<noteq> []" using that idq by simp
    note n = newest_rows_last [OF assms _ ne, of 1]
    then have "?l rid \<in> set (quarter_rows dbnow t rid)" using last_in_set by (metis subsetD zero_less_one)
    with n show ?thesis by (auto simp: quarter_rows_def)
  qed
  have ids: "map t_robot_id (map ?l ?ids) = ?ids"
    unfolding map_map by (rule map_idI) (use l in \<open>simp add: comp_def\<close>)
  have "distinct ?ids" by simp
  then have "distinct (map t_robot_id (map ?l ?ids))" unfolding ids .
  then show "distinct (map t_robot_id (latest_rows scan scan2 dbnow now t))"
    unfolding latest_rows_eq [OF assms] by (rule distinct_map_filter)
  show "t_robot_id ` set (latest_rows scan scan2 dbnow now t) = heard_from dbnow now t"
  proof -
    have "set (latest_rows scan scan2 dbnow now t) = ?l ` {rid \<in> set ?ids. now - t_timestamp (?l rid) \<le> seconds 180}"
      unfolding latest_rows_eq [OF assms] set_filter set_map by blast
    moreover have "{rid \<in> set ?ids. now - t_timestamp (?l rid) \<le> seconds 180} = heard_from dbnow now t"
      unfolding heard_from_def using l idq by (intro Collect_cong) metis
    moreover have "t_robot_id ` ?l ` heard_from dbnow now t = heard_from dbnow now t"
      using l idq by (force simp: heard_from_def image_iff)
    ultimately show ?thesis by simp
  qed
  show "\<forall>r \<in> set (latest_rows scan scan2 dbnow now t). r \<in> set t
      \<and> t_timestamp r = Max (t_timestamp ` set (quarter_rows dbnow t (t_robot_id r)))"
    unfolding latest_rows_eq [OF assms] using l by (auto simp del: set_sort set_remdups)
qed


definition sample_row :: telemetry_row where
  "sample_row = \<lparr>t_id = 1, t_robot_id = 3, t_battery = 80, t_temperature = 30, t_speed = 1, t_status = Some ''active'',
     t_mission_id = Some ''m1'', t_mission_type = Some ''PATROL'', t_mission_progress = Some 100, t_mission_start_time = None,
     t_battery_health = Some 90, t_motor_health = Some 90, t_sensor_health = Some 90, t_network_health = Some 90,
     t_x = None, t_y = None, t_timestamp = 1000\<rparr>"

lemma sample_analytics: "\<exists>fa. compute_analytics (\<lambda>t. t) (\<lambda>t. t) 2000 2000 [sample_row] = Inr fa"
proof -
  have "in_window 2000 20 sample_row" "trunc_minute (t_timestamp sample_row) = 0"
    by (simp_all add: sample_row_def in_window_def trunc_minute_def minutes_def seconds_def)
  then have "(\<lambda>r. trunc_minute (t_timestamp r)) ` {r \<in> set [sample_row]. in_window 2000 (int 20) r} = {0}" by auto
  then have "trend_minutes 2000 20 [sample_row] = [0]" unfolding trend_minutes_def by simp
  moreover have "minute_rows 2000 20 [sample_row] 0 = [sample_row]"
    by (simp add: minute_rows_def sample_row_def in_window_def trunc_minute_def minutes_def seconds_def)
  ultimately have "\<exists>ps. get_fleet_health_trend 2000 20 [sample_row] = Inr ps"
    using health_trend_ok_iff [of 2000 20 "[sample_row]"] by (simp add: sample_row_def)
  then show ?thesis by (auto simp: compute_analytics_def Let_def)
qed


section \<open>Missions\<close>

definition missions_of :: "instant \<Rightarrow> telemetry_row list \<Rightarrow> string \<Rightarrow> string set" where
  "missions_of dbnow t mt =
     {mid. \<exists>r \<in> set t. mission_done dbnow r \<and> t_mission_type r = Some mt \<and> t_mission_id r = Some mid}"

lemma set_map_filter_option: "set (List.map_filter f xs) = {y. \<exists>x \<in> set xs. f x = Some y}"
  by (force simp: map_filter_def)

lemma completion_query_get:
  "map_of (completion_query dbnow t) mt =
     (if \<exists>r \<in> set t. mission_done dbnow r \<and> t_mission_type r = Some mt then Some (card (missions_of dbnow t mt)) else None)"
proof -
  let ?rows = "filter (mission_done dbnow) t"
  have "length (remdups (List.map_filter t_mission_id (filter (\<lambda>r. t_mission_type r = Some mt) ?rows)))
      = card (missions_of dbnow t mt)"
    unfolding length_remdups_card_conv set_map_filter_option missions_of_def by (rule arg_cong [where f = card]) auto
  then show ?thesis
    by (auto simp: completion_query_def Let_def map_of_map_pair set_map_filter_option simp del: filter_filter)
qed

lemma dict_rebuild: "distinct (map fst d) \<Longrightarrow> d = map (\<lambda>k. (k, the (map_of d k))) (map fst d)"
  unfolding map_map by (rule map_idI [symmetric]) (auto simp: comp_def)

lemma dict_set_keys: "map_of d k \<noteq> None \<Longrightarrow> map fst (dict_set k v d) = map fst d"
  by (induction d) auto

lemma fold_known_get:
  "distinct (map fst rows) \<Longrightarrow>
   map fst (fold (\<lambda>(mt, n) counts. if dict_get counts mt \<noteq> None then dict_set mt n counts else counts) rows counts) = map fst counts
   \<and> map_of (fold (\<lambda>(mt, n) counts. if dict_get counts mt \<noteq> None then dict_set mt n counts else counts) rows counts) mt =
     (case map_of counts mt of None \<Rightarrow> None
      | Some n \<Rightarrow> (case map_of rows mt of None \<Rightarrow> Some n | Some n' \<Rightarrow> Some n'))"
proof (induction rows arbitrary: counts)
  case Nil
  show ?case by (simp split: option.splits)
next
  case (Cons a rows)
  obtain k n where a: "a = (k, n)" by (cases a)
  have "map_of rows k = None" using Cons.prems a by (simp add: map_of_eq_None_iff)
  moreover have "map fst (dict_set k n counts) = map fst counts" if "map_of counts k \<noteq> None"
    using that by (simp add: dict_set_keys)
  ultimately show ?case using Cons a by (auto split: option.splits)
qed

text \<open>
  The completed missions are counted exactly. For the three mission types, in that order,
  the answer is the number of different missions of the type that reported full progress in
  the last 24 hours, zero included, however many readings each of them sent.
\<close>

theorem mission_completions_exact:
  "get_mission_completions dbnow t = map (\<lambda>mt. (mt, card (missions_of dbnow t mt))) mission_types"
proof -
  have "distinct (map fst (completion_query dbnow t))" by (simp add: completion_query_def Let_def comp_def)
  note f = fold_known_get [OF this, of "map (\<lambda>mt. (mt, 0)) mission_types"]
  let ?m = "get_mission_completions dbnow t"
  have keys: "map fst ?m = mission_types" using f by (simp add: get_mission_completions_def comp_def)
  have "missions_of dbnow t mt = {}" if "\<not> (\<exists>r \<in> set t. mission_done dbnow r \<and> t_mission_type r = Some mt)" for mt
    using that by (auto simp: missions_of_def)
  then have val: "map_of ?m mt = Some (card (missions_of dbnow t mt))" if "mt \<in> set mission_types" for mt
    using f [of mt] that by (simp add: get_mission_completions_def map_of_map_pair completion_query_get)
  have "distinct (map fst ?m)" unfolding keys by (simp add: mission_types_def)
  then have "?m = map (\<lambda>mt. (mt, the (map_of ?m mt))) (map fst ?m)" by (rule dict_rebuild)
  then show ?thesis unfolding keys using val by (metis (no_types, lifting) map_eq_conv option.sel)
qed

end
