(* ===== verification/FleetRetention.thy ===== *)
theory FleetRetention
  imports FleetTelemetry
begin

text \<open>
  Telemetry retention (\<open>retention.py\<close>): pruning in chunks of ten thousand rows, each its own
  transaction, and one turn of the pruning loop under its Redis lock. Which rows a chunk takes
  is left to the database (the parameter \<open>scan\<close>); \<open>fault k\<close> says that the transaction of the
  \<open>k\<close>-th chunk raises, which rolls it back and ends the run with the exception.
\<close>

section \<open>Pruning\<close>

definition chunk_size :: nat where
  "chunk_size = 10000"

definition prune_chunk ::
  "(telemetry_row list \<Rightarrow> telemetry_row list) \<Rightarrow> instant \<Rightarrow> telemetry_row list \<Rightarrow> telemetry_row list \<times> nat"
where
  "prune_chunk scan limit_date t =
     (let ids = set (map t_id (take chunk_size (filter (\<lambda>r. t_timestamp r < limit_date) (scan t))));
          t' = filter (\<lambda>r. t_id r \<notin> ids) t
      in (t', length t - length t'))"

lemma prune_chunk_shrinks: "prune_chunk scan limit_date t = (t', n) \<Longrightarrow> n \<noteq> 0 \<Longrightarrow> length t' < length t"
  by (auto simp: prune_chunk_def Let_def)

text \<open>\<open>while True\<close>: another chunk until one deletes nothing.\<close>

function prune_chunks ::
  "(telemetry_row list \<Rightarrow> telemetry_row list) \<Rightarrow> (nat \<Rightarrow> bool) \<Rightarrow> instant \<Rightarrow> nat \<Rightarrow> nat \<Rightarrow> telemetry_row list
   \<Rightarrow> telemetry_row list \<times> nat result"
where
  "prune_chunks scan fault limit_date k total_deleted t =
     (if fault k then (t, Inl OtherError)
      else case prune_chunk scan limit_date t of (t', deleted_count) \<Rightarrow>
        if deleted_count = 0 then (t', Inr (total_deleted + deleted_count))
        else prune_chunks scan fault limit_date (k + 1) (total_deleted + deleted_count) t')"
  by pat_completeness auto
termination
  by (relation "measure (\<lambda>(_, _, _, _, _, t). length t)") (auto dest: prune_chunk_shrinks [OF sym])

declare prune_chunks.simps [simp del]

text \<open>\<open>timedelta(days=d)\<close> rounds to the microsecond; both it and the subtraction are range-checked.\<close>

definition limit_date_of :: "settings \<Rightarrow> instant \<Rightarrow> instant result" where
  "limit_date_of cfg now =
     (let delta = round_half_even (retention_days cfg * 86400000000)
      in if \<bar>delta\<bar> \<le> 999999999 * 86400000000 \<and> in_datetime_range (now - delta) then Inr (now - delta)
         else Inl OverflowError)"

definition prune_old_telemetry ::
  "(telemetry_row list \<Rightarrow> telemetry_row list) \<Rightarrow> (nat \<Rightarrow> bool) \<Rightarrow> settings \<Rightarrow> instant \<Rightarrow> telemetry_row list
   \<Rightarrow> telemetry_row list \<times> nat result"
where
  "prune_old_telemetry scan fault cfg now t =
     (case limit_date_of cfg now of Inl e \<Rightarrow> (t, Inl e) | Inr limit_date \<Rightarrow> prune_chunks scan fault limit_date 0 0 t)"

section \<open>The loop\<close>

text \<open>
  The lock is a key with an expiry: \<open>SET key 1 NX EX 3600\<close> takes it when it is absent or has
  expired. The loop never deletes it. \<open>redis_up\<close> is false when the call raises.
\<close>

definition lock_ttl :: int where
  "lock_ttl = 3600"

definition try_lock :: "instant \<Rightarrow> instant option \<Rightarrow> instant option \<times> bool" where
  "try_lock now lock =
     (case lock of
        Some e \<Rightarrow> if now < e then (lock, False) else (Some (now + seconds lock_ttl), True)
      | None \<Rightarrow> (Some (now + seconds lock_ttl), True))"

text \<open>One turn of \<open>prune_loop\<close>: the rows, the lock and the seconds it then sleeps.\<close>

definition prune_turn ::
  "(telemetry_row list \<Rightarrow> telemetry_row list) \<Rightarrow> (nat \<Rightarrow> bool) \<Rightarrow> settings \<Rightarrow> bool \<Rightarrow> int \<Rightarrow> bool \<Rightarrow> instant
   \<Rightarrow> telemetry_row list \<times> instant option \<Rightarrow> (telemetry_row list \<times> instant option) \<times> int"
where
  "prune_turn scan fault cfg use_redis_lock interval_seconds redis_up now st =
     (case st of (t, lock) \<Rightarrow>
        if use_redis_lock \<and> \<not> redis_up then ((t, lock), 3600)
        else (case (if use_redis_lock then try_lock now lock else (lock, True)) of
          (lock', False) \<Rightarrow> ((t, lock'), interval_seconds)
        | (lock', True) \<Rightarrow>
            (case prune_old_telemetry scan fault cfg now t of
               (t', Inl e) \<Rightarrow> ((t', lock'), 3600)
             | (t', Inr deleted) \<Rightarrow> ((t', lock'), interval_seconds))))"

section \<open>Lemmas\<close>

definition old_rows :: "instant \<Rightarrow> telemetry_row list \<Rightarrow> telemetry_row list" where
  "old_rows limit_date t = filter (\<lambda>r. t_timestamp r < limit_date) t"

definition recent_rows :: "instant \<Rightarrow> telemetry_row list \<Rightarrow> telemetry_row list" where
  "recent_rows limit_date t = filter (\<lambda>r. \<not> t_timestamp r < limit_date) t"

text \<open>The primary key.\<close>

definition ids_unique :: "telemetry_row list \<Rightarrow> bool" where
  "ids_unique t = distinct (map t_id t)"

lemma ids_unique_eq: "ids_unique t \<Longrightarrow> r \<in> set t \<Longrightarrow> s \<in> set t \<Longrightarrow> t_id r = t_id s \<Longrightarrow> r = s"
  by (auto simp: ids_unique_def distinct_map dest: inj_onD)

lemma prune_chunk_keeps:
  assumes "scan_ok scan" "ids_unique t" "prune_chunk scan limit_date t = (t', n)"
  shows "recent_rows limit_date t' = recent_rows limit_date t" "ids_unique t'"
    "length (old_rows limit_date t) = n + length (old_rows limit_date t')"
    "n = min chunk_size (length (old_rows limit_date t))"
proof -
  define victims where "victims = take chunk_size (filter (\<lambda>r. t_timestamp r < limit_date) (scan t))"
  define gone where "gone r = (t_id r \<in> t_id ` set victims)" for r :: telemetry_row
  have t': "t' = filter (\<lambda>r. \<not> gone r) t" and n: "n = length t - length t'"
    using assms(3) by (auto simp: prune_chunk_def Let_def gone_def victims_def)
  have v: "r \<in> set t \<and> t_timestamp r < limit_date" if "r \<in> set victims" for r
    using in_set_takeD [OF that [unfolded victims_def]] scan_ok_set [OF assms(1), of t] by simp
  have gone: "gone r \<longleftrightarrow> r \<in> set victims" if "r \<in> set t" for r
    using that v ids_unique_eq [OF assms(2) that] unfolding gone_def by (metis image_iff)
  have old: "t_timestamp r < limit_date" if "gone r" "r \<in> set t" for r
    using gone that v by blast
  show "recent_rows limit_date t' = recent_rows limit_date t"
    unfolding recent_rows_def t' filter_filter using old by (intro filter_cong) auto
  show "ids_unique t'" using assms(2) unfolding t' ids_unique_def by (rule distinct_map_filter)
  have split: "length (filter P t) + length (filter (\<lambda>r. \<not> P r) t) = length t" for P
    by (rule sum_length_filter_compl)
  have n_gone: "n = length (filter gone t)" using n split [of gone] unfolding t' by linarith
  have "length (old_rows limit_date t) = length (filter gone t) + length (old_rows limit_date t')"
  proof -
    have "filter gone (old_rows limit_date t) = filter gone t"
      unfolding old_rows_def filter_filter using old by (intro filter_cong) auto
    moreover have "filter (\<lambda>r. \<not> gone r) (old_rows limit_date t) = old_rows limit_date t'"
      by (simp add: old_rows_def t' conj_commute)
    ultimately show ?thesis using sum_length_filter_compl [of gone "old_rows limit_date t"] by simp
  qed
  then show "length (old_rows limit_date t) = n + length (old_rows limit_date t')" using n_gone by simp
  have "distinct t" using assms(2) by (simp add: ids_unique_def distinct_map)
  then have "distinct (scan t)" using assms(1) by (metis mset_eq_imp_distinct_iff scan_ok_def)
  then have "card (set victims) = length victims" by (intro distinct_card) (simp add: victims_def)
  moreover have "set (filter gone t) = set victims" using gone v by auto
  moreover have "distinct (filter gone t)" using \<open>distinct t\<close> by simp
  ultimately have "length (filter gone t) = length victims" by (metis distinct_card)
  moreover have "length (filter (\<lambda>r. t_timestamp r < limit_date) (scan t)) = length (old_rows limit_date t)"
    using assms(1) unfolding old_rows_def scan_ok_def by (metis mset_filter size_mset)
  ultimately show "n = min chunk_size (length (old_rows limit_date t))" using n_gone by (simp add: victims_def min.commute)
qed

text \<open>What a run leaves behind: every recent row, and no old one when it returns.\<close>

definition pruned :: "instant \<Rightarrow> nat \<Rightarrow> telemetry_row list \<Rightarrow> telemetry_row list \<times> nat result \<Rightarrow> bool" where
  "pruned limit_date before t out =
     (recent_rows limit_date (fst out) = recent_rows limit_date t
      \<and> (case snd out of Inr n \<Rightarrow> fst out = recent_rows limit_date t \<and> n = before + length (old_rows limit_date t)
         | Inl e \<Rightarrow> e = OtherError))"

lemma recent_rows_all: "old_rows limit_date t = [] \<Longrightarrow> recent_rows limit_date t = t"
  by (auto simp: old_rows_def recent_rows_def filter_empty_conv)

lemma prune_chunks_pruned:
  "scan_ok scan \<Longrightarrow> ids_unique t \<Longrightarrow> pruned limit_date before t (prune_chunks scan fault limit_date k before t)"
proof (induction scan fault limit_date k before t rule: prune_chunks.induct)
  case (1 scan fault limit_date k before t)
  obtain t' n where c: "prune_chunk scan limit_date t = (t', n)" by fastforce
  note keeps = prune_chunk_keeps [OF 1(2,3) c]
  consider "fault k" | (last) "\<not> fault k" "n = 0" | (more) "\<not> fault k" "n \<noteq> 0" by blast
  then show ?case
  proof cases
    case last
    then have "old_rows limit_date t = []" using keeps(4) by (simp add: chunk_size_def min_def split: if_splits)
    moreover have "old_rows limit_date t' = []" using keeps(3) calculation by simp
    ultimately show ?thesis using last c keeps(1) recent_rows_all [of limit_date t']
      by (subst prune_chunks.simps) (simp add: pruned_def)
  next
    case more
    have "pruned limit_date (before + n) t' (prune_chunks scan fault limit_date (k + 1) (before + n) t')"
      using 1(1) [OF more(1) c [symmetric] more(2) 1(2) keeps(2)] by simp
    then show ?thesis using more c keeps(1,3)
      by (subst prune_chunks.simps) (auto simp: pruned_def split: sum.splits)
  qed (subst prune_chunks.simps, simp add: pruned_def)
qed

lemma prune_chunks_returns:
  "fault = (\<lambda>_. False) \<Longrightarrow> \<exists>n. snd (prune_chunks scan fault limit_date k before t) = Inr n"
proof (induction scan fault limit_date k before t rule: prune_chunks.induct)
  case (1 scan fault limit_date k before t)
  obtain t' n where "prune_chunk scan limit_date t = (t', n)" by fastforce
  with 1 show ?case by (subst prune_chunks.simps) auto
qed

section \<open>Properties\<close>

text \<open>
  C24: Pruning deletes exactly what is past retention. Whichever rows each chunk happens to
  take and wherever the run is cut short by an exception, every row inside the retention period
  is still there, in place. The loop of chunks ends; when no chunk raises it returns, and then
  the table is exactly the rows inside the period and the number returned is the number of rows
  that were past it.
\<close>

theorem prune_exact:
  assumes "scan_ok scan" and "ids_unique t" and "limit_date_of cfg now = Inr limit_date"
    and "prune_old_telemetry scan fault cfg now t = (t', out)"
  shows "recent_rows limit_date t' = recent_rows limit_date t
    \<and> (case out of Inr n \<Rightarrow> t' = recent_rows limit_date t \<and> n = length (old_rows limit_date t) | Inl e \<Rightarrow> e = OtherError)
    \<and> (fault = (\<lambda>_. False) \<longrightarrow> (\<exists>n. out = Inr n))"
proof -
  have "prune_chunks scan fault limit_date 0 0 t = (t', out)" using assms(3,4) by (simp add: prune_old_telemetry_def)
  with prune_chunks_pruned [OF assms(1,2), of limit_date 0 fault 0] prune_chunks_returns [of fault scan limit_date 0 0 t]
  show ?thesis by (auto simp: pruned_def split: sum.splits)
qed

definition reading_at :: "int \<Rightarrow> instant \<Rightarrow> telemetry_row" where
  "reading_at i ts =
     \<lparr>t_id = i, t_robot_id = 3, t_battery = 80, t_temperature = 30, t_speed = 1, t_status = None,
      t_mission_id = None, t_mission_type = None, t_mission_progress = None, t_mission_start_time = None,
      t_battery_health = None, t_motor_health = None, t_sensor_health = None, t_network_health = None,
      t_x = None, t_y = None, t_timestamp = ts\<rparr>"

theorem prune_exact_witness:
  "prune_old_telemetry (\<lambda>t. t) (\<lambda>_. False) (default_settings ''db'' ''k'') 200000000000
     [reading_at 1 5, reading_at 2 199000000000] = ([reading_at 2 199000000000], Inr 1)"
proof -
  let ?cfg = "default_settings ''db'' ''k''"
  let ?t = "[reading_at 1 5, reading_at 2 199000000000]"
  have d: "limit_date_of ?cfg 200000000000 = Inr 113600000000"
    by (simp add: limit_date_of_def default_settings_def in_datetime_range_def round_half_even_def)
  have u: "ids_unique ?t" by (simp add: ids_unique_def reading_at_def)
  obtain t' out where p: "prune_old_telemetry (\<lambda>t. t) (\<lambda>_. False) ?cfg 200000000000 ?t = (t', out)" by fastforce
  from prune_exact [OF scan_ok_id u d p] p show ?thesis
    by (auto simp: recent_rows_def old_rows_def reading_at_def)
qed

text \<open>
  Two turns less than an hour apart never both prune: the lock the first one took outlives it,
  whoever runs the second, and the second leaves table and lock alone. Since the lock is never
  released this also holds for the turns of one process.
\<close>

theorem pruner_exclusive:
  assumes "prune_turn scan fault cfg True interval True now (t, lock) = ((t1, lock1), pause)"
    and "now' - now < seconds 3600" and "snd (try_lock now lock)"
  shows "fst (prune_turn scan' fault' cfg' True interval' up now' (t2, lock1)) = (t2, lock1)"
proof -
  have "lock1 = Some (now + seconds lock_ttl)"
    using assms(1,3) by (auto simp: prune_turn_def try_lock_def split: option.splits if_splits prod.splits sum.splits)
  with assms(2) show ?thesis by (simp add: prune_turn_def try_lock_def lock_ttl_def)
qed

end
