(* ===== verification/FleetEvents.thy ===== *)
theory FleetEvents
  imports FleetTelemetry FleetWebsocket
begin

text \<open>
  Robot events (\<open>routes/events.py\<close>): an event is stored, then announced on the event stream; the
  list route pages through the events, newest first. The order of events with equal
  timestamps is left to the database (the parameter \<open>scan\<close>).
\<close>

record event =
  e_id :: int
  e_robot_id :: int
  e_message :: string
  e_timestamp :: instant

record event_db =
  events :: "event list"
  next_event_id :: int

definition event_ok :: "event \<Rightarrow> bool" where
  "event_ok e \<longleftrightarrow> int4 (e_robot_id e) \<and> length (e_message e) \<le> 512"

definition event_payload :: "event \<Rightarrow> json" where
  "event_payload e =
     JObj [(''type'', JStr ''EVENT''), (''robot_id'', JNum (of_int (e_robot_id e))),
           (''message'', JStr (e_message e)), (''timestamp'', JStr (iso_z (e_timestamp e)))]"

definition create_event ::
  "settings \<Rightarrow> (json \<Rightarrow> 'w) \<Rightarrow> bool \<Rightarrow> string option \<Rightarrow> int \<Rightarrow> string \<Rightarrow> instant \<Rightarrow> event_db \<Rightarrow> conn_mgr
   \<Rightarrow> int result \<times> event_db \<times> conn_mgr \<times> (string \<times> 'w) list"
where
  "create_event cfg dumps xadd_ok x_api_key robot_id message now db m =
     (case verify_api_key cfg x_api_key of
        Inl e \<Rightarrow> (Inl e, db, m, [])
      | Inr _ \<Rightarrow>
          (let e = \<lparr>e_id = next_event_id db, e_robot_id = robot_id, e_message = message, e_timestamp = now\<rparr>
           in if \<not> event_ok e then (Inl DataError, db, m, [])
              else (case broadcast cfg dumps xadd_ok (event_payload e) (Some event_stream) m of (m', out) \<Rightarrow>
                (Inr (e_id e), db\<lparr>events := events db @ [e], next_event_id := next_event_id db + 1\<rparr>, m', out))))"

definition get_events ::
  "(event list \<Rightarrow> event list) \<Rightarrow> settings \<Rightarrow> string option \<Rightarrow> int \<Rightarrow> int \<Rightarrow> event_db \<Rightarrow> event list result"
where
  "get_events scan cfg x_api_key limit skip db =
     (case verify_read_access cfg x_api_key of
        Inl e \<Rightarrow> Inl e
      | Inr _ \<Rightarrow>
          if limit < 1 \<or> 1000 < limit \<or> skip < 0 then Inl (HTTPException 422 ''Unprocessable Entity'')
          else Inr (take (nat limit) (drop (nat skip) (rev (sort_key e_timestamp (scan (events db)))))))"

section \<open>Lemmas\<close>

text \<open>An event never lands on the telemetry stream, whose overflow drops unsaved readings.\<close>

lemma event_off_telemetry_stream:
  assumes "create_event cfg dumps xadd_ok key robot_id message now db m = (r, db', m', out)"
  shows "telemetry_stream \<notin> fst ` set out"
  using assms
  by (auto simp: create_event_def broadcast_def Let_def
      split: sum.splits if_splits prod.splits)

text \<open>What is announced is stored, also when the stream refuses it; nothing is announced that is not.\<close>

lemma event_stored_before_announced:
  assumes "create_event cfg dumps xadd_ok key robot_id message now db m = (r, db', m', out)"
  shows "case r of Inl _ \<Rightarrow> db' = db \<and> m' = m \<and> out = []
    | Inr i \<Rightarrow> (\<exists>e. events db' = events db @ [e] \<and> e_id e = i \<and> event_ok e \<and> set out \<subseteq> {(event_stream, dumps (event_payload e))})"
  using assms
  by (auto simp: create_event_def broadcast_def Let_def split: sum.splits if_splits prod.splits)

text \<open>Reading page after page yields the newest events first and none twice.\<close>

lemma event_pages:
  assumes ok: "verify_read_access cfg key = Inr u" and l: "1 \<le> l" "l \<le> 1000" and s: "0 \<le> s"
    and p1: "get_events scan cfg key l s db = Inr p1" and p2: "get_events scan cfg key l (s + l) db = Inr p2"
  shows "p1 @ p2 = take (2 * nat l) (drop (nat s) (rev (sort_key e_timestamp (scan (events db)))))"
proof -
  let ?es = "rev (sort_key e_timestamp (scan (events db)))"
  have "p1 = take (nat l) (drop (nat s) ?es)" using p1 ok l s by (simp add: get_events_def)
  moreover have "p2 = take (nat l) (drop (nat l) (drop (nat s) ?es))"
    using p2 ok l s by (simp add: get_events_def nat_add_distrib add.commute)
  ultimately show ?thesis using take_add [of "nat l" "nat l" "drop (nat s) ?es"] by (simp add: mult_2)
qed

end
