(* ===== verification/FleetSchema.thy ===== *)
theory FleetSchema
  imports FleetEvents
begin

text \<open>
  The database schema: the tables \<open>models.py\<close> declares, the Alembic revisions that build them
  (\<open>alembic/versions\<close>) and the data one of them migrates. A statement has its meaning in
  PostgreSQL; tables, indexes and columns are lists in the order of creation. A run of
  revisions is one transaction (\<open>context.begin_transaction\<close> in \<open>env.py\<close>), so it yields a schema or
  fails as a whole.
\<close>

section \<open>Schemas and statements\<close>

datatype col_type = TInteger | TString nat | TFloat | TBoolean | TJson | TDateTime

record column =
  cl_name :: string
  cl_type :: col_type
  cl_nullable :: bool
  cl_default :: "string option"

datatype index_key = Asc string | Desc string

fun key_column :: "index_key \<Rightarrow> string" where
  "key_column (Asc c) = c"
| "key_column (Desc c) = c"

record index_def =
  ix_name :: string
  ix_table :: string
  ix_keys :: "index_key list"
  ix_unique :: bool

record table_def =
  tb_name :: string
  tb_columns :: "column list"
  tb_primary :: "string list"
  tb_uniques :: "(string \<times> string list) list"

record db_schema =
  sc_tables :: "table_def list"
  sc_indexes :: "index_def list"

definition empty_schema :: db_schema where
  "empty_schema = \<lparr>sc_tables = [], sc_indexes = []\<rparr>"

datatype ddl =
    CreateTable table_def
  | DropTable string
  | CreateIndex index_def
  | DropIndex string
  | AddColumn string column
  | DropColumn string string

datatype ddl_error = DuplicateName string | UndefinedName string

definition has_table :: "string \<Rightarrow> db_schema \<Rightarrow> bool" where
  "has_table t s = list_ex (\<lambda>x. tb_name x = t) (sc_tables s)"

definition has_index :: "string \<Rightarrow> db_schema \<Rightarrow> bool" where
  "has_index i s = list_ex (\<lambda>x. ix_name x = i) (sc_indexes s)"

definition has_column :: "string \<Rightarrow> string \<Rightarrow> db_schema \<Rightarrow> bool" where
  "has_column t c s = list_ex (\<lambda>x. tb_name x = t \<and> list_ex (\<lambda>y. cl_name y = c) (tb_columns x)) (sc_tables s)"

text \<open>Tables and indexes share one name space; an index goes with its table and with its columns.\<close>

fun exec_ddl :: "ddl \<Rightarrow> db_schema \<Rightarrow> ddl_error + db_schema" where
  "exec_ddl (CreateTable t) s =
     (if has_table (tb_name t) s \<or> has_index (tb_name t) s then Inl (DuplicateName (tb_name t))
      else Inr (s\<lparr>sc_tables := sc_tables s @ [t]\<rparr>))"
| "exec_ddl (DropTable t) s =
     (if \<not> has_table t s then Inl (UndefinedName t)
      else Inr \<lparr>sc_tables = filter (\<lambda>x. tb_name x \<noteq> t) (sc_tables s), sc_indexes = filter (\<lambda>i. ix_table i \<noteq> t) (sc_indexes s)\<rparr>)"
| "exec_ddl (CreateIndex i) s =
     (if has_table (ix_name i) s \<or> has_index (ix_name i) s then Inl (DuplicateName (ix_name i))
      else if \<not> list_all (\<lambda>k. has_column (ix_table i) (key_column k) s) (ix_keys i) then Inl (UndefinedName (ix_table i))
      else Inr (s\<lparr>sc_indexes := sc_indexes s @ [i]\<rparr>))"
| "exec_ddl (DropIndex n) s =
     (if \<not> has_index n s then Inl (UndefinedName n)
      else Inr (s\<lparr>sc_indexes := filter (\<lambda>i. ix_name i \<noteq> n) (sc_indexes s)\<rparr>))"
| "exec_ddl (AddColumn t c) s =
     (if \<not> has_table t s then Inl (UndefinedName t)
      else if has_column t (cl_name c) s then Inl (DuplicateName (cl_name c))
      else Inr (s\<lparr>sc_tables := map (\<lambda>x. if tb_name x = t then x\<lparr>tb_columns := tb_columns x @ [c]\<rparr> else x) (sc_tables s)\<rparr>))"
| "exec_ddl (DropColumn t c) s =
     (if \<not> has_column t c s then Inl (UndefinedName c)
      else Inr \<lparr>sc_tables = map (\<lambda>x. if tb_name x = t
                  then x\<lparr>tb_columns := filter (\<lambda>y. cl_name y \<noteq> c) (tb_columns x),
                         tb_primary := (if c \<in> set (tb_primary x) then [] else tb_primary x),
                         tb_uniques := filter (\<lambda>(n, cs). c \<notin> set cs) (tb_uniques x)\<rparr> else x) (sc_tables s),
                sc_indexes = filter (\<lambda>i. \<not> (ix_table i = t \<and> c \<in> set (map key_column (ix_keys i)))) (sc_indexes s)\<rparr>)"

fun exec_ddls :: "ddl list \<Rightarrow> db_schema \<Rightarrow> ddl_error + db_schema" where
  "exec_ddls [] s = Inr s"
| "exec_ddls (d # ds) s = (case exec_ddl d s of Inl e \<Rightarrow> Inl e | Inr s' \<Rightarrow> exec_ddls ds s')"

section \<open>Revisions\<close>

record revision =
  rv_id :: string
  rv_down :: "string option"
  rv_upgrade :: "ddl list"
  rv_downgrade :: "ddl list"

text \<open>\<open>sa.Column(name, type, nullable=...)\<close>, with and without a server default, and \<open>op.create_index\<close>.\<close>

definition sa_col :: "string \<Rightarrow> col_type \<Rightarrow> bool \<Rightarrow> column" where
  "sa_col n ty nul = \<lparr>cl_name = n, cl_type = ty, cl_nullable = nul, cl_default = None\<rparr>"

definition sa_col_default :: "string \<Rightarrow> col_type \<Rightarrow> string \<Rightarrow> bool \<Rightarrow> column" where
  "sa_col_default n ty d nul = \<lparr>cl_name = n, cl_type = ty, cl_nullable = nul, cl_default = Some d\<rparr>"

definition sa_index :: "string \<Rightarrow> string \<Rightarrow> index_key list \<Rightarrow> bool \<Rightarrow> index_def" where
  "sa_index n t keys unique = \<lparr>ix_name = n, ix_table = t, ix_keys = keys, ix_unique = unique\<rparr>"

definition op_index :: "string \<Rightarrow> string \<Rightarrow> index_key list \<Rightarrow> bool \<Rightarrow> ddl" where
  "op_index n t keys unique = CreateIndex (sa_index n t keys unique)"

definition robot_commands_table :: table_def where
  "robot_commands_table = \<lparr>tb_name = ''robot_commands'', tb_columns =
     [sa_col ''id'' (TString 36) False, sa_col ''robot_id'' TInteger False, sa_col ''command_type'' (TString 64) False,
      sa_col ''payload'' TJson True, sa_col ''status'' (TString 32) False, sa_col ''idempotency_key'' (TString 128) True,
      sa_col ''timeout_seconds'' TInteger True, sa_col ''retry_count'' TInteger False, sa_col ''max_retries'' TInteger False,
      sa_col_default ''created_at'' TDateTime ''(CURRENT_TIMESTAMP)'' True, sa_col ''dispatched_at'' TDateTime True,
      sa_col ''acknowledged_at'' TDateTime True, sa_col ''started_at'' TDateTime True, sa_col ''completed_at'' TDateTime True,
      sa_col ''expires_at'' TDateTime True, sa_col ''error_code'' (TString 64) True, sa_col ''error_message'' (TString 255) True,
      sa_col ''result'' TJson True],
     tb_primary = [''id''], tb_uniques = [(''uix_robot_id_idempotency_key'', [''robot_id'', ''idempotency_key''])]\<rparr>"

definition telemetry_table :: table_def where
  "telemetry_table = \<lparr>tb_name = ''telemetry'', tb_columns =
     [sa_col ''id'' TInteger False, sa_col ''robot_id'' TInteger False, sa_col ''battery'' TFloat False,
      sa_col ''temperature'' TFloat False, sa_col ''speed'' TFloat False, sa_col ''status'' (TString 32) True,
      sa_col ''mission_id'' (TString 64) True, sa_col ''mission_type'' (TString 32) True, sa_col ''mission_progress'' TFloat True,
      sa_col ''mission_start_time'' TDateTime True, sa_col ''battery_health'' TFloat True, sa_col ''motor_health'' TFloat True,
      sa_col ''sensor_health'' TFloat True, sa_col ''network_health'' TFloat True, sa_col ''x'' TFloat True, sa_col ''y'' TFloat True,
      sa_col_default ''timestamp'' TDateTime ''(CURRENT_TIMESTAMP)'' False],
     tb_primary = [''id''], tb_uniques = []\<rparr>"

definition rev_a224ad0c4028 :: revision where
  "rev_a224ad0c4028 = \<lparr>rv_id = ''a224ad0c4028'', rv_down = None,
     rv_upgrade =
      [CreateTable robot_commands_table,
       op_index ''ix_robot_commands_id'' ''robot_commands'' [Asc ''id''] False,
       op_index ''ix_robot_commands_robot_id'' ''robot_commands'' [Asc ''robot_id''] False,
       op_index ''ix_robot_commands_robot_id_desc'' ''robot_commands'' [Asc ''robot_id'', Desc ''created_at''] False,
       CreateTable telemetry_table,
       op_index ''ix_telemetry_id'' ''telemetry'' [Asc ''id''] False,
       op_index ''ix_telemetry_robot_id'' ''telemetry'' [Asc ''robot_id''] False,
       op_index ''ix_telemetry_robot_id_desc'' ''telemetry'' [Asc ''robot_id'', Desc ''timestamp''] False,
       op_index ''ix_telemetry_robot_timestamp'' ''telemetry'' [Asc ''robot_id'', Asc ''timestamp''] False,
       op_index ''ix_telemetry_status'' ''telemetry'' [Asc ''status''] False,
       op_index ''ix_telemetry_timestamp'' ''telemetry'' [Asc ''timestamp''] False],
     rv_downgrade =
      [DropIndex ''ix_telemetry_timestamp'', DropIndex ''ix_telemetry_status'', DropIndex ''ix_telemetry_robot_timestamp'',
       DropIndex ''ix_telemetry_robot_id_desc'', DropIndex ''ix_telemetry_robot_id'', DropIndex ''ix_telemetry_id'',
       DropTable ''telemetry'', DropIndex ''ix_robot_commands_robot_id_desc'', DropIndex ''ix_robot_commands_robot_id'',
       DropIndex ''ix_robot_commands_id'', DropTable ''robot_commands'']\<rparr>"

definition robots_table_2 :: table_def where
  "robots_table_2 = \<lparr>tb_name = ''robots'', tb_columns =
      [sa_col ''id'' TInteger False, sa_col ''name'' (TString 128) True, sa_col ''model'' (TString 64) True,
      sa_col ''firmware_version'' (TString 32) True, sa_col ''is_active'' TBoolean False,
      sa_col_default ''registered_at'' TDateTime ''now()'' True, sa_col ''decommissioned_at'' TDateTime True],
      tb_primary = [''id''], tb_uniques = []\<rparr>"

definition rev_cecf3447d0de :: revision where
  "rev_cecf3447d0de = \<lparr>rv_id = ''cecf3447d0de'', rv_down = Some ''a224ad0c4028'',
     rv_upgrade =
      [CreateTable robots_table_2,
       op_index ''ix_robots_id'' ''robots'' [Asc ''id''] False,
       op_index ''ix_robot_commands_robot_id_status'' ''robot_commands'' [Asc ''robot_id'', Asc ''status''] False],
     rv_downgrade =
      [DropIndex ''ix_robot_commands_robot_id_status'', DropIndex ''ix_robots_id'', DropTable ''robots'']\<rparr>"

definition events_table :: table_def where
  "events_table = \<lparr>tb_name = ''events'', tb_columns =
      [sa_col ''id'' TInteger False, sa_col ''robot_id'' TInteger False, sa_col ''message'' (TString 512) False,
      sa_col_default ''timestamp'' TDateTime ''now()'' False],
      tb_primary = [''id''], tb_uniques = []\<rparr>"

definition rev_b335be1d5039 :: revision where
  "rev_b335be1d5039 = \<lparr>rv_id = ''b335be1d5039'', rv_down = Some ''cecf3447d0de'',
     rv_upgrade =
      [CreateTable events_table,
       op_index ''ix_events_id'' ''events'' [Asc ''id''] False,
       op_index ''ix_events_robot_id'' ''events'' [Asc ''robot_id''] False,
       op_index ''ix_events_timestamp'' ''events'' [Asc ''timestamp''] False,
       op_index ''ix_events_robot_id_desc'' ''events'' [Asc ''robot_id'', Desc ''timestamp''] False],
     rv_downgrade =
      [DropIndex ''ix_events_robot_id_desc'', DropIndex ''ix_events_timestamp'', DropIndex ''ix_events_robot_id'',
       DropIndex ''ix_events_id'', DropTable ''events'']\<rparr>"

definition rev_d47f1a9c2e10 :: revision where
  "rev_d47f1a9c2e10 = \<lparr>rv_id = ''d47f1a9c2e10'', rv_down = Some ''b335be1d5039'',
     rv_upgrade =
      [AddColumn ''robots'' (sa_col ''last_seen'' TDateTime True),
       op_index ''ix_robots_last_seen'' ''robots'' [Asc ''last_seen''] False],
     rv_downgrade = [DropIndex ''ix_robots_last_seen'', DropColumn ''robots'' ''last_seen'']\<rparr>"

definition users_table :: table_def where
  "users_table = \<lparr>tb_name = ''users'', tb_columns =
      [sa_col ''id'' TInteger False, sa_col ''username'' (TString 64) False, sa_col ''password_hash'' (TString 128) False,
      sa_col_default ''role'' (TString 16) ''viewer'' False, sa_col_default ''is_active'' TBoolean ''true'' False,
      sa_col_default ''created_at'' TDateTime ''now()'' True, sa_col ''last_login_at'' TDateTime True],
      tb_primary = [''id''], tb_uniques = []\<rparr>"

definition rev_e58c2b7f10a4 :: revision where
  "rev_e58c2b7f10a4 = \<lparr>rv_id = ''e58c2b7f10a4'', rv_down = Some ''d47f1a9c2e10'',
     rv_upgrade =
      [CreateTable users_table,
       op_index ''ix_users_id'' ''users'' [Asc ''id''] False,
       op_index ''ix_users_username'' ''users'' [Asc ''username''] True],
     rv_downgrade = [DropIndex ''ix_users_username'', DropIndex ''ix_users_id'', DropTable ''users'']\<rparr>"

definition rev_f1a9c3e7b2d4 :: revision where
  "rev_f1a9c3e7b2d4 = \<lparr>rv_id = ''f1a9c3e7b2d4'', rv_down = Some ''e58c2b7f10a4'',
     rv_upgrade = [DropIndex ''ix_telemetry_id'', DropIndex ''ix_telemetry_robot_id_desc''],
     rv_downgrade =
      [op_index ''ix_telemetry_id'' ''telemetry'' [Asc ''id''] False,
       op_index ''ix_telemetry_robot_id_desc'' ''telemetry'' [Asc ''robot_id'', Asc ''timestamp''] False]\<rparr>"

text \<open>The directory \<open>versions\<close>, by file name, and the chain its \<open>down_revision\<close>s make.\<close>

definition versions :: "revision list" where
  "versions = [rev_a224ad0c4028, rev_b335be1d5039, rev_cecf3447d0de, rev_d47f1a9c2e10, rev_e58c2b7f10a4, rev_f1a9c3e7b2d4]"

fun lineage :: "nat \<Rightarrow> revision list \<Rightarrow> string option \<Rightarrow> revision list" where
  "lineage 0 revs current = []"
| "lineage (Suc n) revs current =
     (case List.find (\<lambda>r. rv_down r = current) revs of None \<Rightarrow> [] | Some r \<Rightarrow> r # lineage n revs (Some (rv_id r)))"

text \<open>\<open>alembic upgrade head\<close> from the revision the database is at, and \<open>alembic downgrade base\<close>.\<close>

definition upgrade_head :: "string option \<Rightarrow> db_schema \<Rightarrow> ddl_error + db_schema" where
  "upgrade_head current s = exec_ddls (concat (map rv_upgrade (lineage (length versions) versions current))) s"

definition downgrade_base :: "db_schema \<Rightarrow> ddl_error + db_schema" where
  "downgrade_base s = exec_ddls (concat (map rv_downgrade (rev (lineage (length versions) versions None)))) s"

section \<open>The models\<close>

text \<open>
  \<open>Column(...)\<close>: nullable unless it is a key or says otherwise; \<open>index=True\<close> makes an index named
  after the table and the column, a unique one with \<open>unique=True\<close>.
\<close>

record model_col =
  mc_name :: string
  mc_type :: col_type
  mc_primary :: bool
  mc_index :: bool
  mc_unique :: bool
  mc_nullable :: "bool option"
  mc_default :: "string option"

definition mcol :: "string \<Rightarrow> col_type \<Rightarrow> model_col" where
  "mcol n ty = \<lparr>mc_name = n, mc_type = ty, mc_primary = False, mc_index = False, mc_unique = False,
     mc_nullable = None, mc_default = None\<rparr>"

record model_class =
  md_name :: string
  md_cols :: "model_col list"
  md_uniques :: "(string \<times> string list) list"
  md_indexes :: "(string \<times> index_key list) list"

definition declared_column :: "model_col \<Rightarrow> column" where
  "declared_column c =
     \<lparr>cl_name = mc_name c, cl_type = mc_type c,
      cl_nullable = (case mc_nullable c of Some b \<Rightarrow> b | None \<Rightarrow> \<not> mc_primary c), cl_default = mc_default c\<rparr>"

definition declared_table :: "model_class \<Rightarrow> table_def" where
  "declared_table m =
     \<lparr>tb_name = md_name m, tb_columns = map declared_column (md_cols m),
      tb_primary = map mc_name (filter mc_primary (md_cols m)), tb_uniques = md_uniques m\<rparr>"

definition declared_indexes :: "model_class \<Rightarrow> index_def list" where
  "declared_indexes m =
     map (\<lambda>c. \<lparr>ix_name = ''ix_'' @ md_name m @ ''_'' @ mc_name c, ix_table = md_name m, ix_keys = [Asc (mc_name c)],
                ix_unique = mc_unique c\<rparr>) (filter mc_index (md_cols m))
     @ map (\<lambda>(n, ks). \<lparr>ix_name = n, ix_table = md_name m, ix_keys = ks, ix_unique = False\<rparr>) (md_indexes m)"

definition Robot :: model_class where
  "Robot = \<lparr>md_name = ''robots'', md_cols =
     [(mcol ''id'' TInteger)\<lparr>mc_primary := True, mc_index := True\<rparr>,
      (mcol ''name'' (TString 128))\<lparr>mc_nullable := Some True\<rparr>,
      (mcol ''model'' (TString 64))\<lparr>mc_nullable := Some True\<rparr>,
      (mcol ''firmware_version'' (TString 32))\<lparr>mc_nullable := Some True\<rparr>,
      (mcol ''is_active'' TBoolean)\<lparr>mc_nullable := Some False\<rparr>,
      (mcol ''registered_at'' TDateTime)\<lparr>mc_default := Some ''now()''\<rparr>,
      (mcol ''last_seen'' TDateTime)\<lparr>mc_nullable := Some True, mc_index := True\<rparr>,
      (mcol ''decommissioned_at'' TDateTime)\<lparr>mc_nullable := Some True\<rparr>],
     md_uniques = [], md_indexes = []\<rparr>"

definition RobotCommand :: model_class where
  "RobotCommand = \<lparr>md_name = ''robot_commands'', md_cols =
     [(mcol ''id'' (TString 36))\<lparr>mc_primary := True, mc_index := True\<rparr>,
      (mcol ''robot_id'' TInteger)\<lparr>mc_index := True, mc_nullable := Some False\<rparr>,
      (mcol ''command_type'' (TString 64))\<lparr>mc_nullable := Some False\<rparr>,
      (mcol ''payload'' TJson)\<lparr>mc_nullable := Some True\<rparr>,
      (mcol ''status'' (TString 32))\<lparr>mc_nullable := Some False\<rparr>,
      (mcol ''idempotency_key'' (TString 128))\<lparr>mc_nullable := Some True\<rparr>,
      (mcol ''timeout_seconds'' TInteger)\<lparr>mc_nullable := Some True\<rparr>,
      (mcol ''retry_count'' TInteger)\<lparr>mc_nullable := Some False\<rparr>,
      (mcol ''max_retries'' TInteger)\<lparr>mc_nullable := Some False\<rparr>,
      (mcol ''created_at'' TDateTime)\<lparr>mc_default := Some ''now()''\<rparr>,
      (mcol ''dispatched_at'' TDateTime)\<lparr>mc_nullable := Some True\<rparr>,
      (mcol ''acknowledged_at'' TDateTime)\<lparr>mc_nullable := Some True\<rparr>,
      (mcol ''started_at'' TDateTime)\<lparr>mc_nullable := Some True\<rparr>,
      (mcol ''completed_at'' TDateTime)\<lparr>mc_nullable := Some True\<rparr>,
      (mcol ''expires_at'' TDateTime)\<lparr>mc_nullable := Some True\<rparr>,
      (mcol ''error_code'' (TString 64))\<lparr>mc_nullable := Some True\<rparr>,
      (mcol ''error_message'' (TString 255))\<lparr>mc_nullable := Some True\<rparr>,
      (mcol ''result'' TJson)\<lparr>mc_nullable := Some True\<rparr>],
     md_uniques = [(''uix_robot_id_idempotency_key'', [''robot_id'', ''idempotency_key''])],
     md_indexes = [(''ix_robot_commands_robot_id_desc'', [Asc ''robot_id'', Desc ''created_at'']),
                   (''ix_robot_commands_robot_id_status'', [Asc ''robot_id'', Asc ''status''])]\<rparr>"

definition Telemetry :: model_class where
  "Telemetry = \<lparr>md_name = ''telemetry'', md_cols =
     [(mcol ''id'' TInteger)\<lparr>mc_primary := True\<rparr>,
      (mcol ''robot_id'' TInteger)\<lparr>mc_index := True, mc_nullable := Some False\<rparr>,
      (mcol ''battery'' TFloat)\<lparr>mc_nullable := Some False\<rparr>,
      (mcol ''temperature'' TFloat)\<lparr>mc_nullable := Some False\<rparr>,
      (mcol ''speed'' TFloat)\<lparr>mc_nullable := Some False\<rparr>,
      (mcol ''status'' (TString 32))\<lparr>mc_nullable := Some True, mc_index := True\<rparr>,
      (mcol ''mission_id'' (TString 64))\<lparr>mc_nullable := Some True\<rparr>,
      (mcol ''mission_type'' (TString 32))\<lparr>mc_nullable := Some True\<rparr>,
      (mcol ''mission_progress'' TFloat)\<lparr>mc_nullable := Some True\<rparr>,
      (mcol ''mission_start_time'' TDateTime)\<lparr>mc_nullable := Some True\<rparr>,
      (mcol ''battery_health'' TFloat)\<lparr>mc_nullable := Some True\<rparr>,
      (mcol ''motor_health'' TFloat)\<lparr>mc_nullable := Some True\<rparr>,
      (mcol ''sensor_health'' TFloat)\<lparr>mc_nullable := Some True\<rparr>,
      (mcol ''network_health'' TFloat)\<lparr>mc_nullable := Some True\<rparr>,
      (mcol ''x'' TFloat)\<lparr>mc_nullable := Some True\<rparr>,
      (mcol ''y'' TFloat)\<lparr>mc_nullable := Some True\<rparr>,
      (mcol ''timestamp'' TDateTime)\<lparr>mc_nullable := Some False, mc_index := True, mc_default := Some ''now()''\<rparr>],
     md_uniques = [], md_indexes = [(''ix_telemetry_robot_timestamp'', [Asc ''robot_id'', Asc ''timestamp''])]\<rparr>"

definition Event :: model_class where
  "Event = \<lparr>md_name = ''events'', md_cols =
     [(mcol ''id'' TInteger)\<lparr>mc_primary := True, mc_index := True\<rparr>,
      (mcol ''robot_id'' TInteger)\<lparr>mc_index := True, mc_nullable := Some False\<rparr>,
      (mcol ''message'' (TString 512))\<lparr>mc_nullable := Some False\<rparr>,
      (mcol ''timestamp'' TDateTime)\<lparr>mc_nullable := Some False, mc_index := True, mc_default := Some ''now()''\<rparr>],
     md_uniques = [], md_indexes = [(''ix_events_robot_id_desc'', [Asc ''robot_id'', Desc ''timestamp''])]\<rparr>"

definition User :: model_class where
  "User = \<lparr>md_name = ''users'', md_cols =
     [(mcol ''id'' TInteger)\<lparr>mc_primary := True, mc_index := True\<rparr>,
      (mcol ''username'' (TString 64))\<lparr>mc_unique := True, mc_nullable := Some False, mc_index := True\<rparr>,
      (mcol ''password_hash'' (TString 128))\<lparr>mc_nullable := Some False\<rparr>,
      (mcol ''role'' (TString 16))\<lparr>mc_nullable := Some False\<rparr>,
      (mcol ''is_active'' TBoolean)\<lparr>mc_nullable := Some False\<rparr>,
      (mcol ''created_at'' TDateTime)\<lparr>mc_default := Some ''now()''\<rparr>,
      (mcol ''last_login_at'' TDateTime)\<lparr>mc_nullable := Some True\<rparr>],
     md_uniques = [], md_indexes = []\<rparr>"

definition models_schema :: db_schema where
  "models_schema = \<lparr>sc_tables = map declared_table [Robot, RobotCommand, Telemetry, Event, User],
     sc_indexes = concat (map declared_indexes [Robot, RobotCommand, Telemetry, Event, User])\<rparr>"

text \<open>
  The comparison \<open>alembic check\<close> makes by default: names, types, nullability, keys, constraints and
  indexes, not the order of tables and columns and not server defaults.
\<close>

definition same_members :: "'a list \<Rightarrow> 'a list \<Rightarrow> bool" where
  "same_members xs ys \<longleftrightarrow> list_all (\<lambda>x. x \<in> set ys) xs \<and> list_all (\<lambda>y. y \<in> set xs) ys"

definition same_table :: "table_def \<Rightarrow> table_def \<Rightarrow> bool" where
  "same_table t u \<longleftrightarrow> tb_name t = tb_name u \<and> tb_primary t = tb_primary u \<and> same_members (tb_uniques t) (tb_uniques u)
     \<and> same_members (map (\<lambda>c. c\<lparr>cl_default := None\<rparr>) (tb_columns t)) (map (\<lambda>c. c\<lparr>cl_default := None\<rparr>) (tb_columns u))"

definition same_schema :: "db_schema \<Rightarrow> db_schema \<Rightarrow> bool" where
  "same_schema s s' \<longleftrightarrow>
     list_all (\<lambda>t. list_ex (same_table t) (sc_tables s')) (sc_tables s)
   \<and> list_all (\<lambda>t. list_ex (same_table t) (sc_tables s)) (sc_tables s')
   \<and> same_members (sc_indexes s) (sc_indexes s')"

section \<open>Lemmas: running the revisions\<close>

lemma exec_ddls_append:
  "exec_ddls (ds @ es) s = (case exec_ddls ds s of Inl e \<Rightarrow> Inl e | Inr s' \<Rightarrow> exec_ddls es s')"
  by (induction ds arbitrary: s) (auto split: sum.splits)

lemmas schema_steps = has_table_def has_index_def has_column_def op_index_def sa_col_def sa_col_default_def

lemma lineage_versions:
  "lineage (length versions) versions None =
     [rev_a224ad0c4028, rev_cecf3447d0de, rev_b335be1d5039, rev_d47f1a9c2e10, rev_e58c2b7f10a4, rev_f1a9c3e7b2d4]"
  by (simp add: versions_def rev_a224ad0c4028_def rev_cecf3447d0de_def rev_b335be1d5039_def rev_d47f1a9c2e10_def
      rev_e58c2b7f10a4_def rev_f1a9c3e7b2d4_def)

text \<open>The schema after the first \<open>n\<close> revisions of the chain, table by table and index by index.\<close>

definition robots_table :: table_def where
  "robots_table = robots_table_2\<lparr>tb_columns := tb_columns robots_table_2 @ [sa_col ''last_seen'' TDateTime True]\<rparr>"

definition command_indexes :: "index_def list" where
  "command_indexes =
     [sa_index ''ix_robot_commands_id'' ''robot_commands'' [Asc ''id''] False,
      sa_index ''ix_robot_commands_robot_id'' ''robot_commands'' [Asc ''robot_id''] False,
      sa_index ''ix_robot_commands_robot_id_desc'' ''robot_commands'' [Asc ''robot_id'', Desc ''created_at''] False]"

definition telemetry_indexes :: "index_def list" where
  "telemetry_indexes =
     [sa_index ''ix_telemetry_id'' ''telemetry'' [Asc ''id''] False,
      sa_index ''ix_telemetry_robot_id'' ''telemetry'' [Asc ''robot_id''] False,
      sa_index ''ix_telemetry_robot_id_desc'' ''telemetry'' [Asc ''robot_id'', Desc ''timestamp''] False,
      sa_index ''ix_telemetry_robot_timestamp'' ''telemetry'' [Asc ''robot_id'', Asc ''timestamp''] False,
      sa_index ''ix_telemetry_status'' ''telemetry'' [Asc ''status''] False,
      sa_index ''ix_telemetry_timestamp'' ''telemetry'' [Asc ''timestamp''] False]"

definition kept_telemetry_indexes :: "index_def list" where
  "kept_telemetry_indexes =
     [sa_index ''ix_telemetry_robot_id'' ''telemetry'' [Asc ''robot_id''] False,
      sa_index ''ix_telemetry_robot_timestamp'' ''telemetry'' [Asc ''robot_id'', Asc ''timestamp''] False,
      sa_index ''ix_telemetry_status'' ''telemetry'' [Asc ''status''] False,
      sa_index ''ix_telemetry_timestamp'' ''telemetry'' [Asc ''timestamp''] False]"

definition later_indexes :: "index_def list" where
  "later_indexes =
     [sa_index ''ix_robots_id'' ''robots'' [Asc ''id''] False,
      sa_index ''ix_robot_commands_robot_id_status'' ''robot_commands'' [Asc ''robot_id'', Asc ''status''] False,
      sa_index ''ix_events_id'' ''events'' [Asc ''id''] False,
      sa_index ''ix_events_robot_id'' ''events'' [Asc ''robot_id''] False,
      sa_index ''ix_events_timestamp'' ''events'' [Asc ''timestamp''] False,
      sa_index ''ix_events_robot_id_desc'' ''events'' [Asc ''robot_id'', Desc ''timestamp''] False,
      sa_index ''ix_robots_last_seen'' ''robots'' [Asc ''last_seen''] False,
      sa_index ''ix_users_id'' ''users'' [Asc ''id''] False,
      sa_index ''ix_users_username'' ''users'' [Asc ''username''] True]"

definition schema_at :: "nat \<Rightarrow> db_schema" where
  "schema_at n =
     \<lparr>sc_tables = (if n = 0 then [] else [robot_commands_table, telemetry_table]
         @ (if n < 2 then [] else [if n < 4 then robots_table_2 else robots_table])
         @ (if n < 3 then [] else [events_table]) @ (if n < 5 then [] else [users_table])),
      sc_indexes = (if n = 0 then [] else command_indexes @ (if n < 6 then telemetry_indexes else kept_telemetry_indexes)
         @ take (if n < 2 then 0 else if n < 3 then 2 else if n < 4 then 6 else if n < 5 then 7 else 9) later_indexes)\<rparr>"

lemmas revision_defs = rev_a224ad0c4028_def rev_cecf3447d0de_def rev_b335be1d5039_def rev_d47f1a9c2e10_def
  rev_e58c2b7f10a4_def rev_f1a9c3e7b2d4_def

lemmas table_defs = robot_commands_table_def telemetry_table_def robots_table_2_def robots_table_def events_table_def users_table_def
  command_indexes_def telemetry_indexes_def kept_telemetry_indexes_def later_indexes_def schema_at_def sa_index_def

lemma upgrade_1: "exec_ddls (rv_upgrade rev_a224ad0c4028) (schema_at 0) = Inr (schema_at 1)"
  by (simp add: revision_defs table_defs schema_steps)

lemma upgrade_2: "exec_ddls (rv_upgrade rev_cecf3447d0de) (schema_at 1) = Inr (schema_at 2)"
  by (simp add: revision_defs table_defs schema_steps)

lemma upgrade_3: "exec_ddls (rv_upgrade rev_b335be1d5039) (schema_at 2) = Inr (schema_at 3)"
  by (simp add: revision_defs table_defs schema_steps)

lemma upgrade_4: "exec_ddls (rv_upgrade rev_d47f1a9c2e10) (schema_at 3) = Inr (schema_at 4)"
  by (simp add: revision_defs table_defs schema_steps)

lemma upgrade_5: "exec_ddls (rv_upgrade rev_e58c2b7f10a4) (schema_at 4) = Inr (schema_at 5)"
  by (simp add: revision_defs table_defs schema_steps)

lemma upgrade_6: "exec_ddls (rv_upgrade rev_f1a9c3e7b2d4) (schema_at 5) = Inr (schema_at 6)"
  by (simp add: revision_defs table_defs schema_steps)

lemmas upgrades = upgrade_1 upgrade_2 upgrade_3 upgrade_4 upgrade_5 upgrade_6

lemma downgrade_1: "exec_ddls (rv_downgrade rev_a224ad0c4028) (schema_at 1) = Inr (schema_at 0)"
  by (simp add: revision_defs table_defs schema_steps)

lemma downgrade_2: "exec_ddls (rv_downgrade rev_cecf3447d0de) (schema_at 2) = Inr (schema_at 1)"
  by (simp add: revision_defs table_defs schema_steps)

lemma downgrade_3: "exec_ddls (rv_downgrade rev_b335be1d5039) (schema_at 3) = Inr (schema_at 2)"
  by (simp add: revision_defs table_defs schema_steps)

lemma downgrade_4: "exec_ddls (rv_downgrade rev_d47f1a9c2e10) (schema_at 4) = Inr (schema_at 3)"
  by (simp add: revision_defs table_defs schema_steps)

lemma downgrade_5: "exec_ddls (rv_downgrade rev_e58c2b7f10a4) (schema_at 5) = Inr (schema_at 4)"
  by (simp add: revision_defs table_defs schema_steps)

text \<open>The last revision comes back with an ascending index where there was a descending one.\<close>

definition schema_back :: db_schema where
  "schema_back = (schema_at 6)\<lparr>sc_indexes := sc_indexes (schema_at 6) @
     [sa_index ''ix_telemetry_id'' ''telemetry'' [Asc ''id''] False,
      sa_index ''ix_telemetry_robot_id_desc'' ''telemetry'' [Asc ''robot_id'', Asc ''timestamp''] False]\<rparr>"

lemma downgrade_6: "exec_ddls (rv_downgrade rev_f1a9c3e7b2d4) (schema_at 6) = Inr schema_back"
  by (simp add: revision_defs table_defs schema_steps schema_back_def)

lemma schema_back_differs: "\<not> same_members (sc_indexes schema_back) (sc_indexes (schema_at 5))"
  by (simp add: same_members_def schema_back_def table_defs)

text \<open>The indexes of the later revisions go one revision at a time, whatever the two in question are.\<close>

lemma downgrade_back:
  "exec_ddls (rv_downgrade rev_e58c2b7f10a4 @ rv_downgrade rev_d47f1a9c2e10 @ rv_downgrade rev_b335be1d5039
     @ rv_downgrade rev_cecf3447d0de @ rv_downgrade rev_a224ad0c4028) schema_back = Inr empty_schema"
  by (simp add: revision_defs table_defs schema_steps schema_back_def empty_schema_def)

lemma schema_at_0: "schema_at 0 = empty_schema"
  by (simp add: schema_at_def empty_schema_def)

lemma models_tables: "list_all2 same_table (sc_tables (schema_at 6)) (map declared_table [RobotCommand, Telemetry, Robot, Event, User])"
  by (simp add: same_table_def same_members_def table_defs declared_table_def declared_column_def mcol_def sa_col_def
      sa_col_default_def Robot_def RobotCommand_def Telemetry_def Event_def User_def)

lemma models_indexes: "same_members (sc_indexes (schema_at 6)) (sc_indexes models_schema)"
  by (simp add: same_members_def table_defs models_schema_def declared_indexes_def mcol_def
      Robot_def RobotCommand_def Telemetry_def Event_def User_def)

definition current_at :: "nat \<Rightarrow> string option" where
  "current_at n = (if n = 0 then None else Some (rv_id (lineage (length versions) versions None ! (n - 1))))"

lemma next_revision:
  "List.find (\<lambda>r. rv_down r = None) versions = Some rev_a224ad0c4028"
  "List.find (\<lambda>r. rv_down r = Some ''a224ad0c4028'') versions = Some rev_cecf3447d0de"
  "List.find (\<lambda>r. rv_down r = Some ''cecf3447d0de'') versions = Some rev_b335be1d5039"
  "List.find (\<lambda>r. rv_down r = Some ''b335be1d5039'') versions = Some rev_d47f1a9c2e10"
  "List.find (\<lambda>r. rv_down r = Some ''d47f1a9c2e10'') versions = Some rev_e58c2b7f10a4"
  "List.find (\<lambda>r. rv_down r = Some ''e58c2b7f10a4'') versions = Some rev_f1a9c3e7b2d4"
  "List.find (\<lambda>r. rv_down r = Some ''f1a9c3e7b2d4'') versions = None"
  by (simp_all add: versions_def revision_defs)

lemma revision_ids:
  "rv_id rev_a224ad0c4028 = ''a224ad0c4028''" "rv_id rev_cecf3447d0de = ''cecf3447d0de''"
  "rv_id rev_b335be1d5039 = ''b335be1d5039''" "rv_id rev_d47f1a9c2e10 = ''d47f1a9c2e10''"
  "rv_id rev_e58c2b7f10a4 = ''e58c2b7f10a4''" "rv_id rev_f1a9c3e7b2d4 = ''f1a9c3e7b2d4''"
  by (simp_all add: revision_defs)

lemma upto_6: "n \<le> 6 \<Longrightarrow> n = 0 \<or> n = 1 \<or> n = 2 \<or> n = 3 \<or> n = 4 \<or> n = 5 \<or> n = (6 :: nat)"
  by arith

lemma lineage_from:
  assumes "n \<le> 6"
  shows "lineage (length versions) versions (current_at n) = drop n (lineage (length versions) versions None)"
proof -
  have len: "length versions = Suc (Suc (Suc (Suc (Suc (Suc 0)))))" by (simp add: versions_def)
  show ?thesis
    using upto_6 [OF assms] unfolding current_at_def lineage_versions
    by (elim disjE) (simp_all add: len next_revision revision_ids)
qed

lemma upgrade_from:
  assumes "n \<le> 6"
  shows "upgrade_head (current_at n) (schema_at n) = Inr (schema_at 6)"
  using upto_6 [OF assms]
  by (elim disjE) (simp_all add: upgrade_head_def lineage_from lineage_versions exec_ddls_append upgrades [unfolded One_nat_def])

section \<open>Rows and columns\<close>

text \<open>
  What a column takes: a string no longer than its length, a 32-bit integer, a time in the range
  of \<open>datetime\<close>; NULL where it is nullable. A row has a value for every column of its table.
\<close>

datatype sql_value = VNull | VInt int | VStr string | VFloat rat | VBool bool | VJson json | VTime instant

fun value_ok :: "col_type \<Rightarrow> sql_value \<Rightarrow> bool" where
  "value_ok TInteger (VInt i) = int4 i"
| "value_ok (TString n) (VStr s) = (length s \<le> n)"
| "value_ok TFloat (VFloat x) = True"
| "value_ok TBoolean (VBool b) = True"
| "value_ok TJson (VJson j) = True"
| "value_ok TDateTime (VTime t) = in_datetime_range t"
| "value_ok _ _ = False"

definition column_ok :: "column \<Rightarrow> sql_value \<Rightarrow> bool" where
  "column_ok c v = (if v = VNull then cl_nullable c else value_ok (cl_type c) v)"

definition row_typed :: "table_def \<Rightarrow> (string \<times> sql_value) list \<Rightarrow> bool" where
  "row_typed t row \<longleftrightarrow> length row = length (tb_columns t)
     \<and> list_all (\<lambda>c. case dict_get row (cl_name c) of None \<Rightarrow> False | Some v \<Rightarrow> column_ok c v) (tb_columns t)"

definition table_of :: "string \<Rightarrow> db_schema \<Rightarrow> table_def option" where
  "table_of n s = List.find (\<lambda>t. tb_name t = n) (sc_tables s)"

definition in_table :: "db_schema \<Rightarrow> string \<Rightarrow> (string \<times> sql_value) list \<Rightarrow> bool" where
  "in_table s n row = (case table_of n s of None \<Rightarrow> False | Some t \<Rightarrow> row_typed t row)"

definition opt_value :: "('a \<Rightarrow> sql_value) \<Rightarrow> 'a option \<Rightarrow> sql_value" where
  "opt_value f v = (case v of None \<Rightarrow> VNull | Some x \<Rightarrow> f x)"

text \<open>The attributes of the mapped classes, as the driver sends them.\<close>

definition telemetry_values :: "telemetry_row \<Rightarrow> (string \<times> sql_value) list" where
  "telemetry_values r =
     [(''id'', VInt (t_id r)), (''robot_id'', VInt (t_robot_id r)), (''battery'', VFloat (t_battery r)),
      (''temperature'', VFloat (t_temperature r)), (''speed'', VFloat (t_speed r)), (''status'', opt_value VStr (t_status r)),
      (''mission_id'', opt_value VStr (t_mission_id r)), (''mission_type'', opt_value VStr (t_mission_type r)),
      (''mission_progress'', opt_value VFloat (t_mission_progress r)), (''mission_start_time'', opt_value VTime (t_mission_start_time r)),
      (''battery_health'', opt_value VFloat (t_battery_health r)), (''motor_health'', opt_value VFloat (t_motor_health r)),
      (''sensor_health'', opt_value VFloat (t_sensor_health r)), (''network_health'', opt_value VFloat (t_network_health r)),
      (''x'', opt_value VFloat (t_x r)), (''y'', opt_value VFloat (t_y r)), (''timestamp'', VTime (t_timestamp r))]"

definition command_values :: "robot_command \<Rightarrow> (string \<times> sql_value) list" where
  "command_values r =
     [(''id'', VStr (rc_id r)), (''robot_id'', VInt (rc_robot_id r)), (''command_type'', VStr (rc_command_type r)),
      (''payload'', opt_value (\<lambda>p. VJson (JObj p)) (rc_payload r)), (''status'', VStr (rc_status r)),
      (''idempotency_key'', opt_value VStr (rc_idempotency_key r)), (''timeout_seconds'', opt_value VInt (rc_timeout_seconds r)),
      (''retry_count'', VInt (rc_retry_count r)), (''max_retries'', VInt (rc_max_retries r)),
      (''created_at'', opt_value VTime (rc_created_at r)), (''dispatched_at'', opt_value VTime (rc_dispatched_at r)),
      (''acknowledged_at'', opt_value VTime (rc_acknowledged_at r)), (''started_at'', opt_value VTime (rc_started_at r)),
      (''completed_at'', opt_value VTime (rc_completed_at r)), (''expires_at'', opt_value VTime (rc_expires_at r)),
      (''error_code'', opt_value VStr (rc_error_code r)), (''error_message'', opt_value VStr (rc_error_message r)),
      (''result'', opt_value (\<lambda>p. VJson (JObj p)) (rc_result r))]"

definition event_values :: "event \<Rightarrow> (string \<times> sql_value) list" where
  "event_values e =
     [(''id'', VInt (e_id e)), (''robot_id'', VInt (e_robot_id e)), (''message'', VStr (e_message e)), (''timestamp'', VTime (e_timestamp e))]"

definition user_values :: "user \<Rightarrow> (string \<times> sql_value) list" where
  "user_values u =
     [(''id'', VInt (u_id u)), (''username'', VStr (u_username u)), (''password_hash'', VStr (u_password_hash u)),
      (''role'', VStr (u_role u)), (''is_active'', VBool (u_is_active u)), (''created_at'', VTime (u_created_at u)),
      (''last_login_at'', opt_value VTime (u_last_login_at u))]"

definition robot_values :: "robot \<Rightarrow> (string \<times> sql_value) list" where
  "robot_values r =
     [(''id'', VInt (r_id r)), (''name'', opt_value VStr (r_name r)), (''model'', opt_value VStr (r_model r)),
      (''firmware_version'', opt_value VStr (r_firmware_version r)), (''is_active'', VBool (r_is_active r)),
      (''registered_at'', VTime (r_registered_at r)), (''last_seen'', opt_value VTime (r_last_seen r)),
      (''decommissioned_at'', opt_value VTime (r_decommissioned_at r))]"

abbreviation time_ok :: "instant option \<Rightarrow> bool" where
  "time_ok t \<equiv> case t of None \<Rightarrow> True | Some t \<Rightarrow> in_datetime_range t"

lemma column_names: "cl_name (sa_col n ty b) = n" "cl_name (sa_col_default n ty d b) = n"
  by (simp_all add: sa_col_def sa_col_default_def)

lemma column_values:
  "column_ok (sa_col c TInteger b) (VInt i) = int4 i" "column_ok (sa_col c (TString n) b) (VStr s) = (length s \<le> n)"
  "column_ok (sa_col c TFloat b) (VFloat x)" "column_ok (sa_col c TBoolean b) (VBool y)"
  "column_ok (sa_col c TDateTime b) (VTime t) = in_datetime_range t"
  "column_ok (sa_col_default c (TString n) d b) (VStr s) = (length s \<le> n)"
  "column_ok (sa_col_default c TBoolean d b) (VBool y)"
  "column_ok (sa_col_default c TDateTime d b) (VTime t) = in_datetime_range t"
  by (simp_all add: sa_col_def sa_col_default_def column_ok_def)

lemma column_options:
  "column_ok (sa_col c (TString n) True) (opt_value VStr so) = fits n so"
  "column_ok (sa_col c TInteger True) (opt_value VInt io) = (case io of None \<Rightarrow> True | Some i \<Rightarrow> int4 i)"
  "column_ok (sa_col c TFloat True) (opt_value VFloat fo)"
  "column_ok (sa_col c TDateTime True) (opt_value VTime ti) = time_ok ti"
  "column_ok (sa_col_default c TDateTime d True) (opt_value VTime ti) = time_ok ti"
  "column_ok (sa_col c TJson True) (opt_value (\<lambda>p. VJson (JObj p)) jo)"
  by (auto simp: sa_col_def sa_col_default_def column_ok_def opt_value_def fits_def split: option.splits)

lemmas column_rules = column_names column_values column_options

lemma head_tables:
  "table_of ''telemetry'' (schema_at 6) = Some telemetry_table"
  "table_of ''robot_commands'' (schema_at 6) = Some robot_commands_table"
  "table_of ''robots'' (schema_at 6) = Some robots_table"
  "table_of ''events'' (schema_at 6) = Some events_table"
  "table_of ''users'' (schema_at 6) = Some users_table"
  by (simp_all add: table_of_def table_defs)

lemma telemetry_typed:
  "in_table (schema_at 6) ''telemetry'' (telemetry_values r) \<longleftrightarrow>
     telemetry_row_ok r \<and> int4 (t_id r) \<and> in_datetime_range (t_timestamp r)"
  by (auto simp: in_table_def head_tables row_typed_def telemetry_table_def telemetry_values_def column_rules telemetry_row_ok_def)

lemma event_typed:
  "in_table (schema_at 6) ''events'' (event_values e) \<longleftrightarrow> event_ok e \<and> int4 (e_id e) \<and> in_datetime_range (e_timestamp e)"
  by (auto simp: in_table_def head_tables row_typed_def events_table_def event_values_def column_rules event_ok_def)

lemma command_typed:
  "in_table (schema_at 6) ''robot_commands'' (command_values r) \<longleftrightarrow>
     command_columns_ok r \<and> int4 (rc_retry_count r) \<and> int4 (rc_max_retries r)
     \<and> time_ok (rc_created_at r) \<and> time_ok (rc_dispatched_at r) \<and> time_ok (rc_acknowledged_at r) \<and> time_ok (rc_started_at r)
     \<and> time_ok (rc_completed_at r) \<and> time_ok (rc_expires_at r)"
  by (auto simp: in_table_def head_tables row_typed_def robot_commands_table_def command_values_def column_rules command_columns_ok_def)

lemma user_typed:
  "in_table (schema_at 6) ''users'' (user_values u) \<longleftrightarrow>
     int4 (u_id u) \<and> length (u_username u) \<le> 64 \<and> length (u_password_hash u) \<le> 128 \<and> length (u_role u) \<le> 16
     \<and> in_datetime_range (u_created_at u) \<and> time_ok (u_last_login_at u)"
  by (auto simp: in_table_def head_tables row_typed_def users_table_def user_values_def column_rules)

lemma robot_typed:
  "in_table (schema_at 6) ''robots'' (robot_values r) \<longleftrightarrow>
     int4 (r_id r) \<and> fits 128 (r_name r) \<and> fits 64 (r_model r) \<and> fits 32 (r_firmware_version r)
     \<and> in_datetime_range (r_registered_at r) \<and> time_ok (r_last_seen r) \<and> time_ok (r_decommissioned_at r)"
  by (auto simp: in_table_def head_tables row_typed_def robots_table_def robots_table_2_def robot_values_def column_rules)

section \<open>The data of d47f1a9c2e10\<close>

text \<open>
  The new column is NULL in every row; the first statement fills it from the readings, the second
  adds a row for every robot that reported without being registered. The order in which the
  groups are inserted is the database's.
\<close>

definition last_reading :: "int \<Rightarrow> telemetry_row list \<Rightarrow> instant" where
  "last_reading rid t = Max (set (stamps rid t))"

definition first_reading :: "int \<Rightarrow> telemetry_row list \<Rightarrow> instant" where
  "first_reading rid t = Min (set (stamps rid t))"

definition fill_last_seen :: "telemetry_row list \<Rightarrow> robot list \<Rightarrow> robot list" where
  "fill_last_seen t = update_where (\<lambda>r. r_id r \<in> t_robot_id ` set t) (\<lambda>r. r\<lparr>r_last_seen := Some (last_reading (r_id r) t)\<rparr>)"

definition reporting_robot :: "telemetry_row list \<Rightarrow> int \<Rightarrow> robot" where
  "reporting_robot t rid =
     \<lparr>r_id = rid, r_name = None, r_model = None, r_firmware_version = None, r_is_active = True,
      r_registered_at = first_reading rid t, r_last_seen = Some (last_reading rid t), r_decommissioned_at = None\<rparr>"

definition unregistered :: "telemetry_row list \<Rightarrow> robot list \<Rightarrow> int list" where
  "unregistered t rs = remdups (filter (\<lambda>rid. \<not> list_ex (\<lambda>r. r_id r = rid) rs) (map t_robot_id t))"

definition register_reporting :: "(int list \<Rightarrow> int list) \<Rightarrow> telemetry_row list \<Rightarrow> robot list \<Rightarrow> robot list" where
  "register_reporting scan t rs = rs @ map (reporting_robot t) (scan (unregistered t rs))"

definition backfill :: "(int list \<Rightarrow> int list) \<Rightarrow> telemetry_row list \<Rightarrow> robot list \<Rightarrow> robot list" where
  "backfill scan t rs = register_reporting scan t (fill_last_seen t rs)"

lemma stamps_empty: "stamps rid t = [] \<longleftrightarrow> rid \<notin> t_robot_id ` set t"
  by (auto simp: stamps_def filter_empty_conv)

lemma last_seen_fill:
  assumes "\<forall>r \<in> set rs. r_last_seen r = None"
  shows "last_seen_of (fill_last_seen t rs) rid = (if list_ex (\<lambda>r. r_id r = rid) rs then max_of (stamps rid t) else None)"
  using assms
  by (induction rs) (auto simp: last_seen_of_def fill_last_seen_def update_where_def max_of_Max last_reading_def stamps_empty)

lemma fill_ids: "map r_id (fill_last_seen t rs) = map r_id rs"
  unfolding fill_last_seen_def by (rule map_update_where) simp

lemma registered_iff: "list_ex (\<lambda>r. r_id r = x) rs \<longleftrightarrow> x \<in> set (map r_id rs)"
  by (auto simp: list_ex_iff)

lemma find_unregistered: "x \<notin> set (map r_id rs) \<Longrightarrow> List.find (\<lambda>r. r_id r = x) rs = None"
  by (auto simp: find_None_iff)

lemma unregistered_laws:
  assumes "scan_ok scan"
  shows "set (scan (unregistered t rs)) = t_robot_id ` set t - r_id ` set rs" "distinct (scan (unregistered t rs))"
proof -
  show "set (scan (unregistered t rs)) = t_robot_id ` set t - r_id ` set rs"
    using scan_ok_set [OF assms] by (auto simp: unregistered_def registered_iff)
  have "mset (scan (unregistered t rs)) = mset (unregistered t rs)" using assms by (simp add: scan_ok_def)
  then have "distinct (scan (unregistered t rs)) = distinct (unregistered t rs)" by (rule mset_eq_imp_distinct_iff)
  then show "distinct (scan (unregistered t rs))" by (simp add: unregistered_def)
qed

lemma last_seen_reporting:
  "last_seen_of (map (reporting_robot t) ids) rid = (if rid \<in> set ids then Some (last_reading rid t) else None)"
  by (induction ids) (auto simp: last_seen_of_def reporting_robot_def)

lemma backfill_laws:
  assumes "scan_ok scan" "roster_wf rs" "\<forall>r \<in> set rs. r_last_seen r = None"
  shows "roster_wf (backfill scan t rs)" "last_seen_of (backfill scan t rs) rid = max_of (stamps rid t)"
    "r_id ` set (backfill scan t rs) = r_id ` set rs \<union> t_robot_id ` set t"
proof -
  let ?fs = "fill_last_seen t rs" and ?new = "scan (unregistered t (fill_last_seen t rs))"
  have sets: "r_id ` set ?fs = r_id ` set rs" using fill_ids [of t rs] by (metis list.set_map)
  note new = unregistered_laws [OF assms(1), of t ?fs, unfolded sets]
  have b: "backfill scan t rs = ?fs @ map (reporting_robot t) ?new" by (simp add: backfill_def register_reporting_def)
  have ids: "map r_id (backfill scan t rs) = map r_id rs @ ?new"
    by (simp add: b fill_ids comp_def reporting_robot_def)
  show "roster_wf (backfill scan t rs)" using assms(2) new by (auto simp: roster_wf_def ids)
  have "set (map r_id (backfill scan t rs)) = r_id ` set rs \<union> set ?new" by (simp only: ids) simp
  then show "r_id ` set (backfill scan t rs) = r_id ` set rs \<union> t_robot_id ` set t" using new(1) by auto
  show "last_seen_of (backfill scan t rs) rid = max_of (stamps rid t)"
  proof (cases "rid \<in> r_id ` set rs")
    case True
    then have "rid \<in> set (map r_id ?fs)" by (simp add: sets)
    then obtain r where "List.find (\<lambda>r. r_id r = rid) ?fs = Some r" 
      by (cases "List.find (\<lambda>r. r_id r = rid) ?fs") (auto simp: find_None_iff)
    then have "last_seen_of (backfill scan t rs) rid = last_seen_of ?fs rid" by (simp add: b last_seen_of_def find_append)
    with True show ?thesis using last_seen_fill [OF assms(3), of t rid] by (simp add: registered_iff)
  next
    case False
    then have "List.find (\<lambda>r. r_id r = rid) ?fs = None" using sets by (intro find_unregistered) simp
    then have "last_seen_of (backfill scan t rs) rid = last_seen_of (map (reporting_robot t) ?new) rid"
      by (simp add: b last_seen_of_def find_append)
    also have "\<dots> = max_of (stamps rid t)"
      using new(1) False stamps_empty [of rid t] by (simp add: last_seen_reporting max_of_Max last_reading_def)
    finally show ?thesis .
  qed
qed

section \<open>Properties\<close>

lemma reached_schema:
  assumes "n \<le> 6"
  shows "exec_ddls (concat (map rv_upgrade (take n (lineage (length versions) versions None)))) empty_schema = Inr (schema_at n)"
  unfolding schema_at_0 [symmetric] lineage_versions using upto_6 [OF assms]
  by (elim disjE) (simp_all add: exec_ddls_append upgrades [unfolded One_nat_def])

lemma list_all2_matches:
  "list_all2 P xs ys \<Longrightarrow> (\<forall>x \<in> set xs. \<exists>y \<in> set ys. P x y) \<and> (\<forall>y \<in> set ys. \<exists>x \<in> set xs. P x y)"
  by (induction rule: list_all2_induct) auto

lemma same_table_sym: "same_table t u \<Longrightarrow> same_table u t"
  by (auto simp: same_table_def same_members_def)

lemma models_table_set:
  "set (map declared_table [RobotCommand, Telemetry, Robot, Event, User]) = set (sc_tables models_schema)"
  by (simp add: models_schema_def insert_commute)

lemma head_is_models: "same_schema (schema_at 6) models_schema"
  using list_all2_matches [OF models_tables] models_indexes unfolding models_table_set same_schema_def
  by (simp add: list_all_iff list_ex_iff) (blast intro: same_table_sym)




text \<open>
  C37: The data migration registers the past. On a roster whose new column is empty, every robot ends
  with the \<open>last_seen\<close> that ingesting the stored readings would have given it, every robot that
  ever reported is registered once and none is lost.
\<close>

theorem backfill_replays_history:
  assumes "scan_ok scan" and "roster_wf rs" and "\<forall>r \<in> set rs. r_last_seen r = None"
  shows "roster_wf (backfill scan t rs)
    \<and> last_seen_of (backfill scan t rs) rid = last_seen_of (mark_seen now (latest_by_robot t) rs) rid
    \<and> r_id ` set (backfill scan t rs) = r_id ` set rs \<union> t_robot_id ` set t"
proof -
  have "last_seen_of rs rid = None" using assms(3) by (auto simp: last_seen_of_def find_Some_iff split: option.splits)
  moreover have "last_seen_of (mark_seen now (latest_by_robot t) rs) rid = join_seen (last_seen_of rs rid) (max_of (stamps rid t))"
    using roster.mark_joins [OF assms(2), of "latest_by_robot t"] latest_by_robot_laws by simp
  ultimately show ?thesis using backfill_laws [OF assms, of t] by simp
qed

definition sample_row_command :: robot_command where
  "sample_row_command = \<lparr>rc_id = ''c1'', rc_robot_id = 7, rc_command_type = ''RESUME'', rc_payload = None, rc_status = ''PENDING'',
     rc_idempotency_key = None, rc_timeout_seconds = Some 30, rc_retry_count = 0, rc_max_retries = 0, rc_created_at = Some 0,
     rc_dispatched_at = None, rc_acknowledged_at = None, rc_started_at = None, rc_completed_at = None, rc_expires_at = Some 30000000,
     rc_error_code = None, rc_error_message = None, rc_result = None\<rparr>"


theorem backfill_replays_history_witness:
  "last_seen_of (backfill (\<lambda>ids. ids) [new_row 1 (sample_reading 90) 90, new_row 2 (sample_reading 40) 40] []) 7 = Some 90"
  using backfill_replays_history [of "\<lambda>ids. ids" "[]" "[new_row 1 (sample_reading 90) 90, new_row 2 (sample_reading 40) 40]" 7 100]
  by (simp add: roster_wf_def latest_by_robot_def note_latest_def new_row_def sample_reading_def mark_seen_def upsert_robot_def
      last_seen_of_def)

end
