(* ===== verification/FleetProcess.thy ===== *)
theory FleetProcess
  imports FleetSchema FleetService
begin

text \<open>
  The life of the processes: \<open>prestart.py\<close>, which prepares the metrics directory and the database
  before the workers are forked, the metrics of \<open>metrics.py\<close> over that directory, and how API and
  worker processes end (\<open>lifespan\<close>, \<open>worker.main\<close>). The multiprocess mode of \<open>prometheus_client\<close>
  is a parameter: what it stores in its files is known only through \<open>prom_ok\<close>.
\<close>

section \<open>The metrics\<close>

datatype metric_kind = Counter | Gauge string | Histogram "rat list"

record metric =
  mt_name :: string
  mt_kind :: metric_kind
  mt_labels :: "string list"

definition latency_buckets :: "rat list" where
  "latency_buckets = [1/1000, 25/10000, 5/1000, 1/100, 25/1000, 5/100, 1/10, 25/100, 5/10, 1, 25/10]"

definition metric_definitions :: "metric list" where
  "metric_definitions =
     [\<lparr>mt_name = ''telemetry_ingested_total'', mt_kind = Counter, mt_labels = [''path'']\<rparr>,
      \<lparr>mt_name = ''telemetry_ingest_seconds'', mt_kind = Histogram latency_buckets, mt_labels = [''path'', ''buffered'']\<rparr>,
      \<lparr>mt_name = ''websocket_connections_active'', mt_kind = Gauge ''livesum'', mt_labels = []\<rparr>,
      \<lparr>mt_name = ''websocket_frames_dropped_total'', mt_kind = Counter, mt_labels = []\<rparr>,
      \<lparr>mt_name = ''db_write_latency_seconds'', mt_kind = Histogram latency_buckets, mt_labels = [''mode'']\<rparr>,
      \<lparr>mt_name = ''worker_batch_size'', mt_kind = Histogram [1, 5, 10, 25, 50, 100, 250, 500], mt_labels = []\<rparr>,
      \<lparr>mt_name = ''telemetry_stream_length'', mt_kind = Gauge ''max'', mt_labels = []\<rparr>,
      \<lparr>mt_name = ''telemetry_stream_pending'', mt_kind = Gauge ''max'', mt_labels = []\<rparr>]"

section \<open>The metrics directory\<close>

text \<open>A directory is the list of its entries; the file system knows the directories by path.\<close>

type_synonym 'v entries = "(string \<times> 'v) list"
type_synonym 'v dirs = "string \<Rightarrow> 'v entries option"

definition multiproc_dir :: "string option \<Rightarrow> string option" where
  "multiproc_dir raw = (if truthy_str raw then raw else None)"

definition ensure_dir :: "string option \<Rightarrow> 'v dirs \<Rightarrow> 'v dirs \<times> string option" where
  "ensure_dir raw fs =
     (case multiproc_dir raw of
        None \<Rightarrow> (fs, None)
      | Some target \<Rightarrow> (if fs target = None then fs(target \<mapsto> []) else fs, Some target))"

text \<open>\<open>target.glob("*.db")\<close>\<close>

definition is_db :: "string \<times> 'v \<Rightarrow> bool" where
  "is_db f \<longleftrightarrow> py_endswith (fst f) ''.db''"

definition init_multiproc_dir :: "string option \<Rightarrow> 'v dirs \<Rightarrow> 'v dirs" where
  "init_multiproc_dir raw fs =
     (case ensure_dir raw fs of
        (fs', None) \<Rightarrow> fs'
      | (fs', Some target) \<Rightarrow> fs'(target \<mapsto> filter (\<lambda>f. \<not> is_db f) (the (fs' target))))"

text \<open>
  The library in multiprocess mode: adding to the connections gauge as the process of some pid,
  \<open>mark_process_dead\<close> (\<open>None\<close> when it raises) and the gauge as the collector sums it up.
\<close>

record 'v prom_lib =
  pl_add :: "nat \<Rightarrow> int \<Rightarrow> 'v entries \<Rightarrow> 'v entries"
  pl_dead :: "nat \<Rightarrow> 'v entries \<Rightarrow> 'v entries option"
  pl_livesum :: "'v entries \<Rightarrow> int"

text \<open>
  What is documented of it: each process has a value of its own, a dead one has none, a
  \<open>livesum\<close> adds the values up, and all of it is in the \<open>.db\<close> files.
\<close>

definition prom_ok :: "'v prom_lib \<Rightarrow> ('v entries \<Rightarrow> nat \<Rightarrow> int) \<Rightarrow> bool" where
  "prom_ok lib view \<longleftrightarrow>
     (\<forall>p n es. view (pl_add lib p n es) = (view es)(p := view es p + n))
   \<and> (\<forall>p es es'. pl_dead lib p es = Some es' \<longrightarrow> view es' = (view es)(p := 0))
   \<and> (\<forall>es A. finite A \<longrightarrow> {p. view es p \<noteq> 0} \<subseteq> A \<longrightarrow> pl_livesum lib es = (\<Sum>p \<in> A. view es p))
   \<and> (\<forall>es. list_all (\<lambda>f. \<not> is_db f) es \<longrightarrow> view es = (\<lambda>_. 0))"

datatype registry = DefaultRegistry | MultiProcess string

definition build_registry :: "string option \<Rightarrow> registry" where
  "build_registry raw = (case multiproc_dir raw of None \<Rightarrow> DefaultRegistry | Some d \<Rightarrow> MultiProcess d)"

definition mark_worker_exit :: "'v prom_lib \<Rightarrow> string option \<Rightarrow> nat \<Rightarrow> 'v dirs \<Rightarrow> 'v dirs" where
  "mark_worker_exit lib raw pid fs =
     (case multiproc_dir raw of
        None \<Rightarrow> fs
      | Some d \<Rightarrow> (case pl_dead lib pid (the (fs d)) of None \<Rightarrow> fs | Some es \<Rightarrow> fs(d \<mapsto> es)))"

text \<open>\<open>websocket_connections_active.inc()\<close> and \<open>.dec()\<close>, and its value in a scrape a process answers.\<close>

definition gauge_add :: "'v prom_lib \<Rightarrow> string option \<Rightarrow> nat \<Rightarrow> int \<Rightarrow> 'v dirs \<Rightarrow> 'v dirs" where
  "gauge_add lib raw pid n fs =
     (case multiproc_dir raw of None \<Rightarrow> fs | Some d \<Rightarrow> fs(d \<mapsto> pl_add lib pid n (the (fs d))))"

definition rendered_connections :: "'v prom_lib \<Rightarrow> string option \<Rightarrow> conn_mgr \<Rightarrow> 'v dirs \<Rightarrow> int" where
  "rendered_connections lib raw m fs =
     (case build_registry raw of
        DefaultRegistry \<Rightarrow> connections_active m
      | MultiProcess d \<Rightarrow> pl_livesum lib (the (fs d)))"

section \<open>Starting up and shutting down\<close>

text \<open>\<open>prestart.main\<close>: a failed migration is logged and raised again, so no worker is started.\<close>

definition prestart_main ::
  "string option \<Rightarrow> string option \<Rightarrow> 'v dirs \<Rightarrow> db_schema \<Rightarrow> (ddl_error + unit) \<times> 'v dirs \<times> db_schema"
where
  "prestart_main raw current fs schema =
     (let fs' = init_multiproc_dir raw fs
      in case upgrade_head current schema of
           Inl e \<Rightarrow> (Inl e, fs', schema)
         | Inr head \<Rightarrow> (Inr (), fs', head))"

text \<open>The tasks \<open>lifespan\<close> cancels after its \<open>yield\<close>; \<open>listening\<close>: the listener task is set.\<close>

definition shutdown_cancels :: "settings \<Rightarrow> bool \<Rightarrow> background list" where
  "shutdown_cancels cfg listening =
     (if listening then [RedisListener] else [])
   @ [PruneLoop (websocket_backend cfg = ''redis'') 300 1800]
   @ (if \<not> opt_redis_buffer cfg \<and> defer_writes_without_viewers cfg then [FlushLoop 600] else [])"

text \<open>
  The worker's health file by the time it was last written: a turn of \<open>health_heartbeat\<close>, whose
  failed write is ignored, and the end of \<open>main\<close>, interrupted or by the exception of a task.
\<close>

definition health_heartbeat :: "bool \<Rightarrow> instant \<Rightarrow> instant option \<Rightarrow> instant option" where
  "health_heartbeat write_ok now health_file = (if write_ok then Some now else health_file)"

datatype worker_end = Interrupted | TaskFailed py_exn

definition worker_main_end :: "worker_end \<Rightarrow> instant option \<Rightarrow> py_exn option \<times> background list \<times> instant option" where
  "worker_main_end why health_file =
     (case why of
        Interrupted \<Rightarrow> (None, worker_main_tasks, None)
      | TaskFailed e \<Rightarrow> (Some e, [], None))"

section \<open>A deployment\<close>

text \<open>
  The API processes by pid, the directories they share, and for each pid what its processes left
  in the gauge by ending without the shutdown hook. \<open>tidy\<close> deployments have no such ends.
\<close>

record 'v deployment =
  dp_dirs :: "'v dirs"
  dp_procs :: "nat \<Rightarrow> conn_mgr option"
  dp_phantom :: "nat \<Rightarrow> int"

definition booted :: "string option \<Rightarrow> 'v dirs \<Rightarrow> 'v deployment" where
  "booted raw fs = \<lparr>dp_dirs = init_multiproc_dir raw fs, dp_procs = Map.empty, dp_phantom = (\<lambda>_. 0)\<rparr>"

definition clients_of :: "'v deployment \<Rightarrow> nat \<Rightarrow> int" where
  "clients_of s p = (case dp_procs s p of None \<Rightarrow> 0 | Some m \<Rightarrow> int (connection_count m))"

text \<open>Whether the shutdown hook of \<open>pid\<close> removes its values.\<close>

definition exit_marked :: "'v prom_lib \<Rightarrow> string option \<Rightarrow> nat \<Rightarrow> 'v dirs \<Rightarrow> bool" where
  "exit_marked lib raw pid fs =
     (case multiproc_dir raw of None \<Rightarrow> True | Some d \<Rightarrow> pl_dead lib pid (the (fs d)) \<noteq> None)"

inductive dp_step ::
  "'v prom_lib \<Rightarrow> string option \<Rightarrow> settings \<Rightarrow> bool \<Rightarrow> 'v deployment \<Rightarrow> 'v deployment \<Rightarrow> bool"
  for lib :: "'v prom_lib" and raw :: "string option" and cfg :: settings and tidy :: bool
where
  start: "dp_procs s p = None \<Longrightarrow>
     dp_step lib raw cfg tidy s (s\<lparr>dp_procs := (dp_procs s)(p \<mapsto> new_manager)\<rparr>)"
| join: "dp_procs s p = Some m \<Longrightarrow>
     dp_step lib raw cfg tidy s (s\<lparr>dp_procs := (dp_procs s)(p \<mapsto> connect cfg ws m), dp_dirs := gauge_add lib raw p 1 (dp_dirs s)\<rparr>)"
| leave: "dp_procs s p = Some m \<Longrightarrow>
     dp_step lib raw cfg tidy s (s\<lparr>dp_procs := (dp_procs s)(p \<mapsto> disconnect ws m),
       dp_dirs := (if ws \<in> set (active_connections m) then gauge_add lib raw p (- 1) (dp_dirs s) else dp_dirs s)\<rparr>)"
| exits: "dp_procs s p = Some m \<Longrightarrow> exit_marked lib raw p (dp_dirs s) \<Longrightarrow>
     dp_step lib raw cfg tidy s (s\<lparr>dp_procs := (dp_procs s)(p := None), dp_dirs := mark_worker_exit lib raw p (dp_dirs s),
       dp_phantom := (dp_phantom s)(p := 0)\<rparr>)"
| exit_unmarked: "dp_procs s p = Some m \<Longrightarrow> \<not> tidy \<Longrightarrow> \<not> exit_marked lib raw p (dp_dirs s) \<Longrightarrow>
     dp_step lib raw cfg tidy s (s\<lparr>dp_procs := (dp_procs s)(p := None), dp_dirs := mark_worker_exit lib raw p (dp_dirs s),
       dp_phantom := (dp_phantom s)(p := dp_phantom s p + int (connection_count m))\<rparr>)"
| killed: "dp_procs s p = Some m \<Longrightarrow> \<not> tidy \<Longrightarrow>
     dp_step lib raw cfg tidy s (s\<lparr>dp_procs := (dp_procs s)(p := None),
       dp_phantom := (dp_phantom s)(p := dp_phantom s p + int (connection_count m))\<rparr>)"
| reboot: "dp_step lib raw cfg tidy s (booted raw (dp_dirs s))"

definition gauge_inv :: "('v entries \<Rightarrow> nat \<Rightarrow> int) \<Rightarrow> string option \<Rightarrow> bool \<Rightarrow> 'v deployment \<Rightarrow> bool" where
  "gauge_inv view raw tidy s \<longleftrightarrow>
     finite (dom (dp_procs s)) \<and> finite {p. dp_phantom s p \<noteq> 0} \<and> (tidy \<longrightarrow> dp_phantom s = (\<lambda>_. 0))
   \<and> (\<forall>p m. dp_procs s p = Some m \<longrightarrow> connections_active m = int (connection_count m))
   \<and> (\<forall>d. multiproc_dir raw = Some d \<longrightarrow>
        (\<exists>es. dp_dirs s d = Some es \<and> (\<forall>p. view es p = clients_of s p + dp_phantom s p)))"

section \<open>Lemmas\<close>

lemma multiproc_dir_Some: "multiproc_dir raw = Some d \<longleftrightarrow> raw = Some d \<and> d \<noteq> []"
  by (cases raw) (auto simp: multiproc_dir_def)

lemma init_multiproc_dir_clean:
  assumes "multiproc_dir raw = Some d"
  shows "\<exists>es. init_multiproc_dir raw fs d = Some es \<and> list_all (\<lambda>f. \<not> is_db f) es"
  using assms by (auto simp: init_multiproc_dir_def ensure_dir_def list_all_iff)

text \<open>Every other entry and directory is left alone.\<close>

lemma init_multiproc_dir_keeps:
  "multiproc_dir raw \<noteq> Some d \<Longrightarrow> init_multiproc_dir raw fs d = fs d"
  "multiproc_dir raw = Some d \<Longrightarrow> fs d = Some es \<Longrightarrow> init_multiproc_dir raw fs d = Some (filter (\<lambda>f. \<not> is_db f) es)"
  by (auto simp: init_multiproc_dir_def ensure_dir_def split: option.splits)

lemma connect_counts:
  "connection_count (connect cfg ws m) = connection_count m + 1" "connections_active (connect cfg ws m) = connections_active m + 1"
  by (simp_all add: connect_def connection_count_def Let_def)

lemma disconnect_counts:
  "int (connection_count (disconnect ws m)) = int (connection_count m) - (if ws \<in> set (active_connections m) then 1 else 0)"
proof (cases "ws \<in> set (active_connections m)")
  case True
  then have "int (length (active_connections m) - 1) = int (length (active_connections m)) - 1"
    by (cases "active_connections m") auto
  with True show ?thesis by (simp add: connection_count_def length_remove1)
qed (simp add: connection_count_def remove1_idem)

lemma gauge_inv_booted: "prom_ok lib view \<Longrightarrow> gauge_inv view raw tidy (booted raw fs)"
  using init_multiproc_dir_clean [of raw _ fs] by (fastforce simp: gauge_inv_def booted_def prom_ok_def clients_of_def)

lemma finite_support_upd: "finite {q. f q \<noteq> (0 :: int)} \<Longrightarrow> finite {q. (f(p := v)) q \<noteq> 0}"
  by (rule finite_subset [of _ "insert p {q. f q \<noteq> 0}"]) auto

lemma gauge_inv_killed:
  assumes "gauge_inv view raw tidy s" and "dp_procs s p = Some m" and "\<not> tidy"
  shows "gauge_inv view raw tidy (s\<lparr>dp_procs := (dp_procs s)(p := None),
    dp_phantom := (dp_phantom s)(p := dp_phantom s p + int (connection_count m))\<rparr>)"
proof -
  let ?s = "s\<lparr>dp_procs := (dp_procs s)(p := None), dp_phantom := (dp_phantom s)(p := dp_phantom s p + int (connection_count m))\<rparr>"
  have same: "clients_of ?s q + dp_phantom ?s q = clients_of s q + dp_phantom s q" for q
    using assms(2) by (simp add: clients_of_def)
  have fin: "finite {q. dp_phantom ?s q \<noteq> 0}"
    using assms(1) finite_support_upd [of "dp_phantom s" p] by (simp add: gauge_inv_def)
  have "\<exists>es. dp_dirs ?s d = Some es \<and> (\<forall>q. view es q = clients_of ?s q + dp_phantom ?s q)" if "multiproc_dir raw = Some d" for d
    unfolding same using assms(1) that by (simp add: gauge_inv_def)
  moreover have "finite (dom (dp_procs ?s))" "\<forall>q m. dp_procs ?s q = Some m \<longrightarrow> connections_active m = int (connection_count m)"
    using assms(1) by (auto simp: gauge_inv_def)
  ultimately show ?thesis using fin assms(3) unfolding gauge_inv_def by blast
qed

lemma gauge_inv_step:
  assumes "prom_ok lib view"
  shows "dp_step lib raw cfg tidy s s' \<Longrightarrow> gauge_inv view raw tidy s \<Longrightarrow> gauge_inv view raw tidy s'"
proof (induction rule: dp_step.induct)
  case (start s p)
  then show ?case by (auto simp: gauge_inv_def new_manager_def connection_count_def clients_of_def)
next
  case (join s p m ws)
  then show ?case using assms
    by (auto simp: gauge_inv_def gauge_add_def connect_counts clients_of_def prom_ok_def)
next
  case (leave s p m ws)
  then show ?case using assms
    by (auto simp: gauge_inv_def gauge_add_def disconnect_counts clients_of_def prom_ok_def)
next
  case (exits s p m)
  then show ?case using assms finite_support_upd [of "dp_phantom s" p 0]
    by (auto simp: gauge_inv_def mark_worker_exit_def exit_marked_def clients_of_def prom_ok_def split: if_splits)
next
  case (exit_unmarked s p m)
  then have "mark_worker_exit lib raw p (dp_dirs s) = dp_dirs s"
    by (auto simp: mark_worker_exit_def exit_marked_def split: option.splits)
  then show ?case using gauge_inv_killed [OF exit_unmarked(4,1,2)] by simp
next
  case (killed s p m)
  then show ?case using gauge_inv_killed by blast
next
  case (reboot s)
  show ?case by (rule gauge_inv_booted [OF assms])
qed

interpretation deployment: step_invariant "dp_step lib raw cfg tidy" "\<lambda>s. prom_ok lib view \<longrightarrow> gauge_inv view raw tidy s"
  by unfold_locales (blast intro: gauge_inv_step)

lemma livesum_of_inv:
  assumes "prom_ok lib view" and "gauge_inv view raw tidy s" and "multiproc_dir raw = Some d"
  shows "pl_livesum lib (the (dp_dirs s d)) =
    (\<Sum>q \<in> dom (dp_procs s). clients_of s q) + (\<Sum>q | dp_phantom s q \<noteq> 0. dp_phantom s q)"
proof -
  let ?L = "dom (dp_procs s)" and ?P = "{q. dp_phantom s q \<noteq> 0}"
  obtain es where es: "dp_dirs s d = Some es" "\<forall>p. view es p = clients_of s p + dp_phantom s p"
    using assms(2,3) by (auto simp: gauge_inv_def)
  have fin: "finite ?L" "finite ?P" using assms(2) by (simp_all add: gauge_inv_def)
  have "{p. view es p \<noteq> 0} \<subseteq> ?L \<union> ?P" using es(2) by (auto simp: clients_of_def split: option.splits)
  then have "pl_livesum lib es = (\<Sum>q \<in> ?L \<union> ?P. view es q)"
    using assms(1) fin unfolding prom_ok_def by blast
  also have "\<dots> = (\<Sum>q \<in> ?L \<union> ?P. clients_of s q) + (\<Sum>q \<in> ?L \<union> ?P. dp_phantom s q)"
    by (simp add: es(2) sum.distrib)
  also have "(\<Sum>q \<in> ?L \<union> ?P. clients_of s q) = (\<Sum>q \<in> ?L. clients_of s q)"
    by (rule sum.mono_neutral_right) (use fin in \<open>auto simp: clients_of_def split: option.splits\<close>)
  also have "(\<Sum>q \<in> ?L \<union> ?P. dp_phantom s q) = (\<Sum>q \<in> ?P. dp_phantom s q)"
    by (rule sum.mono_neutral_right) (use fin in auto)
  finally show ?thesis by (simp add: es(1))
qed

text \<open>Whatever an earlier run left behind, a start ends with the schema of the models and no old sample.\<close>

lemma prestart_ready:
  assumes "n \<le> 6"
  shows "\<exists>head. prestart_main raw (current_at n) fs (schema_at n) = (Inr (), init_multiproc_dir raw fs, head) \<and> same_schema head models_schema"
  using upgrade_from [OF assms] head_is_models by (simp add: prestart_main_def Let_def)

text \<open>Every background task of the API process is cancelled when it ends.\<close>

lemma shutdown_cancels_started: "shutdown_cancels cfg (websocket_backend cfg = ''redis'') = startup_tasks cfg"
  by (simp add: shutdown_cancels_def startup_tasks_def)

text \<open>
  The health file of the worker is as old as the last write that succeeded, and gone once \<open>main\<close>
  has ended in whatever way.
\<close>

lemma heartbeat_age:
  "fold (\<lambda>(ok, t). health_heartbeat ok t) turns f =
     (case rev (filter fst turns) of [] \<Rightarrow> f | (ok, t) # _ \<Rightarrow> Some t)"
  by (induction turns rule: rev_induct) (auto simp: health_heartbeat_def)

lemma worker_end_unhealthy: "snd (snd (worker_main_end why f)) = None"
  by (cases why) (simp_all add: worker_main_end_def)

section \<open>The connections gauge\<close>

text \<open>
  C30: A scrape counts the connected clients of the whole deployment. In every run of starting,
  connecting, disconnecting and ending processes since the last boot, whatever files an earlier
  run left, the gauge rendered by any live process is the number of clients connected to live
  processes plus those of processes that ended without their shutdown hook; without such ends it
  is exact. Where no metrics directory is configured it counts the answering process alone.
\<close>

theorem gauge_counts_clients:
  assumes "prom_ok lib view" and "(dp_step lib raw cfg tidy)\<^sup>*\<^sup>* (booted raw fs) s" and "dp_procs s p = Some m"
  shows "rendered_connections lib raw m (dp_dirs s) =
    (if multiproc_dir raw = None then int (connection_count m)
     else (\<Sum>q \<in> dom (dp_procs s). clients_of s q) + (\<Sum>q | dp_phantom s q \<noteq> 0. dp_phantom s q))
    \<and> (tidy \<longrightarrow> dp_phantom s = (\<lambda>_. 0))"
proof -
  have inv: "gauge_inv view raw tidy s"
    using deployment.run_keeps [OF assms(2)] gauge_inv_booted assms(1) by blast
  then have "connections_active m = int (connection_count m)" "tidy \<longrightarrow> dp_phantom s = (\<lambda>_. 0)"
    using assms(3) by (auto simp: gauge_inv_def)
  with livesum_of_inv [OF assms(1) inv] show ?thesis
    by (simp add: rendered_connections_def build_registry_def split: option.splits)
qed

text \<open>A library that keeps its promises: every addition is an entry of its own.\<close>

definition logged_lib :: "(nat \<times> int) prom_lib" where
  "logged_lib =
     \<lparr>pl_add = \<lambda>p n es. es @ [(''gauge_livesum.db'', (p, n))],
      pl_dead = \<lambda>p es. Some (filter (\<lambda>f. \<not> (is_db f \<and> fst (snd f) = p)) es),
      pl_livesum = \<lambda>es. (\<Sum>f \<leftarrow> es. if is_db f then snd (snd f) else 0)\<rparr>"

definition logged_view :: "(nat \<times> int) entries \<Rightarrow> nat \<Rightarrow> int" where
  "logged_view es p = (\<Sum>f \<leftarrow> es. if is_db f \<and> fst (snd f) = p then snd (snd f) else 0)"

lemma logged_sum:
  assumes "finite B"
  shows "fst ` snd ` set es \<subseteq> B \<Longrightarrow> (\<Sum>p \<in> B. logged_view es p) = pl_livesum logged_lib es"
proof (induction es)
  case (Cons f es)
  have "logged_view (f # es) p = (if p = fst (snd f) then (if is_db f then snd (snd f) else 0) else 0) + logged_view es p" for p
    by (simp add: logged_view_def)
  with Cons assms show ?case by (simp add: logged_lib_def sum.distrib sum.delta)
qed (simp add: logged_view_def logged_lib_def)

lemma logged_lib_ok: "prom_ok logged_lib logged_view"
proof -
  have dead: "logged_view (filter (\<lambda>f. \<not> (is_db f \<and> fst (snd f) = p)) es) = (logged_view es)(p := 0)" for p es
    by (rule ext, induction es) (auto simp: logged_view_def)
  have livesum: "pl_livesum logged_lib es = (\<Sum>p \<in> A. logged_view es p)" if "finite A" "{p. logged_view es p \<noteq> 0} \<subseteq> A" for es A
  proof -
    have "(\<Sum>p \<in> A \<union> fst ` snd ` set es. logged_view es p) = (\<Sum>p \<in> A. logged_view es p)"
      by (rule sum.mono_neutral_right) (use that in auto)
    then show ?thesis using logged_sum [of "A \<union> fst ` snd ` set es" es] that(1) by simp
  qed
  have none: "logged_view es p = 0" if "list_all (\<lambda>f. \<not> is_db f) es" for es p
    using that by (induction es) (auto simp: logged_view_def)
  have "is_db (''gauge_livesum.db'', x)" for x :: "nat \<times> int"
    by (simp add: is_db_def py_endswith_def)
  then have add: "logged_view (es @ [(''gauge_livesum.db'', (p, n))]) = (logged_view es)(p := logged_view es p + n)" for p n es
    by (auto simp: logged_view_def)
  show ?thesis unfolding prom_ok_def using dead livesum none add by (auto simp: logged_lib_def)
qed

theorem gauge_counts_clients_witness:
  "\<exists>fs m. rendered_connections logged_lib (Some ''/m'') m fs = 1 \<and> connection_count m = 1"
proof -
  let ?cfg = "default_settings ''db'' ''k''"
  let ?s0 = "booted (Some ''/m'') [''/m'' \<mapsto> [(''gauge_livesum.db'', (9, 5))]] :: (nat \<times> int) deployment"
  let ?s1 = "?s0\<lparr>dp_procs := (dp_procs ?s0)(4 \<mapsto> new_manager)\<rparr>"
  let ?s2 = "?s1\<lparr>dp_procs := (dp_procs ?s1)(4 \<mapsto> connect ?cfg 1 new_manager),
    dp_dirs := gauge_add logged_lib (Some ''/m'') 4 1 (dp_dirs ?s1)\<rparr>"
  have "dp_step logged_lib (Some ''/m'') ?cfg True ?s0 ?s1" by (rule dp_step.start) (simp add: booted_def)
  moreover have "dp_step logged_lib (Some ''/m'') ?cfg True ?s1 ?s2" by (rule dp_step.join) simp
  ultimately have "(dp_step logged_lib (Some ''/m'') ?cfg True)\<^sup>*\<^sup>* ?s0 ?s2" by simp
  from gauge_counts_clients [OF logged_lib_ok this, of 4 "connect ?cfg 1 new_manager"]
  have "rendered_connections logged_lib (Some ''/m'') (connect ?cfg 1 new_manager) (dp_dirs ?s2) = 1"
    by (simp add: multiproc_dir_def booted_def clients_of_def connect_counts) (simp add: new_manager_def connection_count_def)
  moreover have "connection_count (connect ?cfg 1 new_manager) = 1"
    by (simp add: connect_counts) (simp add: new_manager_def connection_count_def)
  ultimately show ?thesis by blast
qed


end
