(* ===== verification/FleetResponses.thy ===== *)
theory FleetResponses
  imports FleetAnalytics FleetEvents FleetService FleetSimRobot
begin

text \<open>
  The schemas of \<open>schemas.py\<close> as data, and what the routes answer against them. FastAPI passes the
  value a route returns through its \<open>response_model\<close>: a value whose fields have the declared types
  is accepted, fields left out take their default, fields the schema does not name are dropped.
  Pydantic's conversions between types (a number in a string, say) are not modelled; no route
  relies on one. The same schemas type what the simulator posts.
\<close>

section \<open>Types of fields\<close>

datatype field_type =
    FInt
  | FFloat
  | FStr
  | FBool
  | FDatetime
  | FDict
  | FOptional field_type
  | FList field_type
  | FDictOf field_type
  | FModel "model_field list"
and model_field = Field string field_type "json option"

text \<open>\<open>is_dt\<close> says which strings are read as a datetime.\<close>

fun accepts :: "(string \<Rightarrow> bool) \<Rightarrow> field_type \<Rightarrow> json \<Rightarrow> bool"
  and accepts_fields :: "(string \<Rightarrow> bool) \<Rightarrow> model_field list \<Rightarrow> json_obj \<Rightarrow> bool"
where
  "accepts is_dt FInt v = (case v of JNum r \<Rightarrow> of_int \<lfloor>r\<rfloor> = r | _ \<Rightarrow> False)"
| "accepts is_dt FFloat v = (case v of JNum r \<Rightarrow> True | _ \<Rightarrow> False)"
| "accepts is_dt FStr v = (case v of JStr s \<Rightarrow> True | _ \<Rightarrow> False)"
| "accepts is_dt FBool v = (case v of JBool b \<Rightarrow> True | _ \<Rightarrow> False)"
| "accepts is_dt FDatetime v = (case v of JStr s \<Rightarrow> is_dt s | _ \<Rightarrow> False)"
| "accepts is_dt FDict v = (case v of JObj ps \<Rightarrow> True | _ \<Rightarrow> False)"
| "accepts is_dt (FOptional t) v = (v = JNull \<or> accepts is_dt t v)"
| "accepts is_dt (FList t) v = (case v of JArr vs \<Rightarrow> list_all (\<lambda>x. accepts is_dt t x) vs | _ \<Rightarrow> False)"
| "accepts is_dt (FDictOf t) v = (case v of JObj ps \<Rightarrow> list_all (\<lambda>p. accepts is_dt t (snd p)) ps | _ \<Rightarrow> False)"
| "accepts is_dt (FModel fs) v = (case v of JObj ps \<Rightarrow> accepts_fields is_dt fs ps | _ \<Rightarrow> False)"
| "accepts_fields is_dt [] ps = True"
| "accepts_fields is_dt (Field n t d # fs) ps =
     ((case dict_get ps n of Some v \<Rightarrow> accepts is_dt t v | None \<Rightarrow> d \<noteq> None) \<and> accepts_fields is_dt fs ps)"

text \<open>The accepted value as it is sent: the fields of the schema in its order.\<close>

fun serialise :: "field_type \<Rightarrow> json \<Rightarrow> json"
  and serialise_fields :: "model_field list \<Rightarrow> json_obj \<Rightarrow> json_obj"
where
  "serialise (FOptional t) v = (if v = JNull then JNull else serialise t v)"
| "serialise (FList t) v = (case v of JArr vs \<Rightarrow> JArr (map (\<lambda>x. serialise t x) vs) | _ \<Rightarrow> v)"
| "serialise (FDictOf t) v = (case v of JObj ps \<Rightarrow> JObj (map (\<lambda>p. (fst p, serialise t (snd p))) ps) | _ \<Rightarrow> v)"
| "serialise (FModel fs) v = (case v of JObj ps \<Rightarrow> JObj (serialise_fields fs ps) | _ \<Rightarrow> v)"
| "serialise t v = v"
| "serialise_fields [] ps = []"
| "serialise_fields (Field n t d # fs) ps =
     (n, case dict_get ps n of Some v \<Rightarrow> serialise t v | None \<Rightarrow> (case d of Some v \<Rightarrow> v | None \<Rightarrow> JNull)) # serialise_fields fs ps"

text \<open>A route's value that passes its schema and arrives as the route made it.\<close>

definition conforms :: "(string \<Rightarrow> bool) \<Rightarrow> field_type \<Rightarrow> json \<Rightarrow> bool" where
  "conforms is_dt t v \<longleftrightarrow> accepts is_dt t v \<and> serialise t v = v"

definition answer_typed :: "(string \<Rightarrow> bool) \<Rightarrow> field_type \<Rightarrow> ('a \<Rightarrow> json) \<Rightarrow> 'a result \<Rightarrow> bool" where
  "answer_typed is_dt t body r = (case r of Inl _ \<Rightarrow> True | Inr x \<Rightarrow> conforms is_dt t (body x))"

section \<open>The schemas\<close>

definition required :: "string \<Rightarrow> field_type \<Rightarrow> model_field" where
  "required n t = Field n t None"

definition optional :: "string \<Rightarrow> field_type \<Rightarrow> model_field" where
  "optional n t = Field n (FOptional t) (Some JNull)"

definition defaulted :: "string \<Rightarrow> field_type \<Rightarrow> json \<Rightarrow> model_field" where
  "defaulted n t d = Field n t (Some d)"

definition CommandCreate :: field_type where
  "CommandCreate = FModel
     [required ''command_type'' FStr, optional ''payload'' FDict, optional ''timeout_seconds'' FInt, optional ''idempotency_key'' FStr]"

definition CommandStatusUpdate :: field_type where
  "CommandStatusUpdate = FModel
     [required ''status'' FStr, optional ''error_code'' FStr, optional ''error_message'' FStr, optional ''result'' FDict]"

definition EventCreate :: field_type where
  "EventCreate = FModel [required ''robot_id'' FInt, required ''message'' FStr]"

definition EventResponse :: field_type where
  "EventResponse = FModel
     [required ''id'' FInt, required ''robot_id'' FInt, required ''message'' FStr, required ''timestamp'' FDatetime]"

definition TelemetryCreate :: field_type where
  "TelemetryCreate = FModel
     [required ''robot_id'' FInt, required ''battery'' FFloat, required ''temperature'' FFloat, required ''speed'' FFloat,
      optional ''timestamp'' FDatetime, optional ''status'' FStr, optional ''mission_id'' FStr, optional ''mission_type'' FStr,
      optional ''mission_progress'' FFloat, optional ''mission_start_time'' FDatetime, optional ''battery_health'' FFloat,
      optional ''motor_health'' FFloat, optional ''sensor_health'' FFloat, optional ''network_health'' FFloat,
      optional ''x'' FFloat, optional ''y'' FFloat]"

definition TelemetryResponse :: field_type where
  "TelemetryResponse = FModel
     [required ''id'' FInt, required ''robot_id'' FInt, required ''battery'' FFloat, required ''temperature'' FFloat,
      required ''speed'' FFloat, optional ''status'' FStr, optional ''mission_id'' FStr, optional ''mission_type'' FStr,
      optional ''mission_progress'' FFloat, optional ''mission_start_time'' FDatetime, optional ''battery_health'' FFloat,
      optional ''motor_health'' FFloat, optional ''sensor_health'' FFloat, optional ''network_health'' FFloat,
      optional ''x'' FFloat, optional ''y'' FFloat, required ''timestamp'' FDatetime]"

definition RobotStatusResponse :: field_type where
  "RobotStatusResponse = FModel
     [required ''robot_id'' FInt, required ''battery'' FFloat, required ''temperature'' FFloat, required ''speed'' FFloat,
      required ''status'' FStr, optional ''mission_id'' FStr, optional ''mission_type'' FStr, optional ''mission_progress'' FFloat,
      optional ''mission_start_time'' FStr, optional ''last_seen'' FStr, optional ''runtime_remaining_minutes'' FFloat,
      defaulted ''x'' FFloat (JNum 0), defaulted ''y'' FFloat (JNum 0), defaulted ''battery_health'' FFloat (JNum 100),
      defaulted ''motor_health'' FFloat (JNum 100), defaulted ''sensor_health'' FFloat (JNum 100),
      defaulted ''network_health'' FFloat (JNum 100)]"

definition DistributionBucket :: field_type where
  "DistributionBucket = FModel [required ''range'' FStr, required ''count'' FInt]"

definition StatusBreakdownItem :: field_type where
  "StatusBreakdownItem = FModel [required ''status'' FStr, required ''count'' FInt]"

definition MissionCompletionItem :: field_type where
  "MissionCompletionItem = FModel [required ''mission_type'' FStr, required ''count'' FInt]"

definition HealthTrendPoint :: field_type where
  "HealthTrendPoint = FModel [required ''timestamp'' (FOptional FStr), required ''health_score'' FFloat]"

definition FleetAnalyticsResponse :: field_type where
  "FleetAnalyticsResponse = FModel
     [defaulted ''fleet_health_trend'' (FList HealthTrendPoint) (JArr []),
      defaulted ''battery_distribution'' (FList DistributionBucket) (JArr []),
      defaulted ''temperature_distribution'' (FList DistributionBucket) (JArr []),
      defaulted ''mission_completion_count'' (FList MissionCompletionItem) (JArr []),
      defaulted ''robot_status_breakdown'' (FList StatusBreakdownItem) (JArr [])]"

definition TokenResponse :: field_type where
  "TokenResponse = FModel
     [required ''access_token'' FStr, defaulted ''token_type'' FStr (JStr ''bearer''), required ''expires_at'' FInt,
      required ''username'' FStr, required ''role'' FStr]"

definition PrincipalResponse :: field_type where
  "PrincipalResponse = FModel [required ''username'' FStr, required ''role'' FStr, required ''authenticated'' FBool]"

definition AuthConfigResponse :: field_type where
  "AuthConfigResponse = FModel [required ''auth_mode'' FStr, required ''login_required'' FBool]"

definition TicketResponse :: field_type where
  "TicketResponse = FModel [required ''ticket'' FStr, required ''expires_at'' FInt, required ''scope'' FStr]"

definition HealthResponse :: field_type where
  "HealthResponse = FModel
     [required ''status'' FStr, required ''database'' FStr, defaulted ''version'' FStr (JStr ''1.0.0''),
      defaulted ''optimizations'' (FDictOf FBool) (JObj [])]"

lemmas schema_defs = RobotStatusResponse_def DistributionBucket_def StatusBreakdownItem_def MissionCompletionItem_def
  HealthTrendPoint_def FleetAnalyticsResponse_def TokenResponse_def PrincipalResponse_def AuthConfigResponse_def
  TicketResponse_def HealthResponse_def TelemetryResponse_def EventResponse_def EventCreate_def TelemetryCreate_def
  CommandStatusUpdate_def CommandCreate_def required_def optional_def defaulted_def

section \<open>What the routes return\<close>

text \<open>
  Rows become objects by their attributes; \<open>dump_dt\<close> is Pydantic's form of a datetime. \<open>dicts\<close> of the
  services are built by hand in the code.
\<close>

definition telemetry_body :: "(instant \<Rightarrow> string) \<Rightarrow> telemetry_row \<Rightarrow> json" where
  "telemetry_body dump_dt r = JObj
     [(''id'', JNum (of_int (t_id r))), (''robot_id'', JNum (of_int (t_robot_id r))), (''battery'', JNum (t_battery r)),
      (''temperature'', JNum (t_temperature r)), (''speed'', JNum (t_speed r)), (''status'', opt_json JStr (t_status r)),
      (''mission_id'', opt_json JStr (t_mission_id r)), (''mission_type'', opt_json JStr (t_mission_type r)),
      (''mission_progress'', opt_json JNum (t_mission_progress r)),
      (''mission_start_time'', opt_json (\<lambda>t. JStr (dump_dt t)) (t_mission_start_time r)),
      (''battery_health'', opt_json JNum (t_battery_health r)), (''motor_health'', opt_json JNum (t_motor_health r)),
      (''sensor_health'', opt_json JNum (t_sensor_health r)), (''network_health'', opt_json JNum (t_network_health r)),
      (''x'', opt_json JNum (t_x r)), (''y'', opt_json JNum (t_y r)), (''timestamp'', JStr (dump_dt (t_timestamp r)))]"

definition event_body :: "(instant \<Rightarrow> string) \<Rightarrow> event \<Rightarrow> json" where
  "event_body dump_dt e = JObj
     [(''id'', JNum (of_int (e_id e))), (''robot_id'', JNum (of_int (e_robot_id e))), (''message'', JStr (e_message e)),
      (''timestamp'', JStr (dump_dt (e_timestamp e)))]"

definition trend_json :: "instant \<times> rat \<Rightarrow> json" where
  "trend_json p = JObj [(''timestamp'', JStr (iso_z (fst p))), (''health_score'', JNum (snd p))]"

definition counted_json :: "string \<Rightarrow> string \<times> nat \<Rightarrow> json" where
  "counted_json key p = JObj [(key, JStr (fst p)), (''count'', JNum (of_nat (snd p)))]"

definition analytics_body :: "fleet_analytics \<Rightarrow> json" where
  "analytics_body fa = JObj
     [(''fleet_health_trend'', JArr (map trend_json (fleet_health_trend fa))),
      (''battery_distribution'', JArr (map (counted_json ''range'') (fa_battery_distribution fa))),
      (''temperature_distribution'', JArr (map (counted_json ''range'') (fa_temperature_distribution fa))),
      (''mission_completion_count'', JArr (map (counted_json ''mission_type'') (mission_completion_count fa))),
      (''robot_status_breakdown'', JArr (map (counted_json ''status'') (fa_robot_status_breakdown fa)))]"

definition token_body :: "token_response \<Rightarrow> json" where
  "token_body t = JObj
     [(''access_token'', JStr (tr_access_token t)), (''token_type'', JStr (tr_token_type t)),
      (''expires_at'', JNum (of_int (tr_expires_at t))), (''username'', JStr (tr_username t)), (''role'', JStr (tr_role t))]"

definition auth_config_body :: "string \<times> bool \<Rightarrow> json" where
  "auth_config_body c = JObj [(''auth_mode'', JStr (fst c)), (''login_required'', JBool (snd c))]"

definition ticket_body :: "string \<times> int \<times> string \<Rightarrow> json" where
  "ticket_body t = (case t of (ticket, expires_at, scope) \<Rightarrow>
     JObj [(''ticket'', JStr ticket), (''expires_at'', JNum (of_int expires_at)), (''scope'', JStr scope)])"

definition health_body :: "health_response \<Rightarrow> json" where
  "health_body h = JObj
     [(''status'', JStr (he_status h)), (''database'', JStr (he_database h)), (''version'', JStr (he_version h)),
      (''optimizations'', JObj (map (\<lambda>(n, b). (n, JBool b)) (he_optimizations h)))]"

text \<open>
  \<open>whoami\<close> builds its model in the route: a \<open>sub\<close> claim that is no string raises there. The root and
  the liveness route have no schema.
\<close>

definition whoami :: "crypto \<Rightarrow> settings \<Rightarrow> instant \<Rightarrow> string option \<Rightarrow> json result" where
  "whoami lib cfg now authorization =
     bindR (current_principal lib cfg now authorization) (\<lambda>p.
       let body = JObj [(''username'', p_username p), (''role'', JStr (p_role p)), (''authenticated'', JBool (p_authenticated p))]
       in if accepts (\<lambda>_. False) PrincipalResponse body then Inr body else Inl ValueError)"

definition root :: json_obj where
  "root = [(''message'', JStr ''FleetOps API running''), (''version'', JStr ''1.0.0'')]"

definition liveness :: json_obj where
  "liveness = [(''status'', JStr ''ok'')]"

section \<open>Lemmas\<close>

lemma accepts_opt [simp]:
  "accepts is_dt (FOptional FStr) (JStr s)"
  "accepts is_dt (FOptional FStr) (opt_json JStr v)"
  "accepts is_dt (FOptional FFloat) (opt_json JNum n)"
  "accepts is_dt (FOptional FStr) (to_iso t)"
  "accepts is_dt (FOptional FDatetime) (opt_json (\<lambda>t. JStr (f t)) d) \<longleftrightarrow> (case d of None \<Rightarrow> True | Some t \<Rightarrow> is_dt (f t))"
  by (auto simp: opt_json_def to_iso_def split: option.splits)

lemma serialise_opt [simp]:
  "serialise (FOptional FStr) v = v" "serialise (FOptional FFloat) v = v" "serialise (FOptional FDatetime) v = v"
  by simp_all

declare accepts.simps(7) [simp del] and serialise.simps(1) [simp del]

lemma status_conforms: "conforms is_dt RobotStatusResponse (JObj (status_json s))"
  by (simp add: conforms_def schema_defs status_json_def)

lemma page_conforms:
  "conforms is_dt (FList RobotStatusResponse) (JArr (map JObj (page_of scan scan2 cfg q)))"
proof -
  have "\<forall>p \<in> set (page_of scan scan2 cfg q). \<exists>s. p = status_json s"
    by (auto simp: page_of_def fleet_page_def py_slice_def dest!: in_set_takeD in_set_dropD)
  then show ?thesis
    using status_conforms by (fastforce simp: conforms_def list_all_iff intro: map_idI)
qed

lemma analytics_conforms: "conforms is_dt FleetAnalyticsResponse (analytics_body fa)"
  by (simp add: conforms_def schema_defs analytics_body_def trend_json_def counted_json_def list_all_iff)

lemma telemetry_conforms:
  "(\<And>t. is_dt (dump_dt t)) \<Longrightarrow> conforms is_dt (FList TelemetryResponse) (JArr (map (telemetry_body dump_dt) rows))"
  by (auto simp: conforms_def schema_defs telemetry_body_def list_all_iff intro!: map_idI split: option.splits)

lemma events_conforms:
  "(\<And>t. is_dt (dump_dt t)) \<Longrightarrow> conforms is_dt (FList EventResponse) (JArr (map (event_body dump_dt) es))"
  by (auto simp: conforms_def schema_defs event_body_def list_all_iff intro!: map_idI)

lemma token_conforms: "conforms is_dt TokenResponse (token_body t)"
  by (simp add: conforms_def schema_defs token_body_def)

lemma auth_config_conforms: "conforms is_dt AuthConfigResponse (auth_config_body c)"
  by (simp add: conforms_def schema_defs auth_config_body_def)

lemma ticket_conforms: "conforms is_dt TicketResponse (ticket_body t)"
  by (cases t) (simp add: conforms_def schema_defs ticket_body_def)

lemma health_conforms: "conforms is_dt HealthResponse (health_body h)"
  by (auto simp: conforms_def schema_defs health_body_def list_all_iff comp_def)

lemma principal_accepts [simp]:
  "accepts is_dt PrincipalResponse (JObj [(''username'', u), (''role'', JStr r), (''authenticated'', JBool b)])
    \<longleftrightarrow> (\<exists>s. u = JStr s)"
  by (auto simp: schema_defs split: json.splits)

text \<open>The route refuses a valid token only for a \<open>sub\<close> that is no string.\<close>

lemma whoami_cases:
  "whoami lib cfg now authz = (case current_principal lib cfg now authz of
     Inl e \<Rightarrow> Inl e
   | Inr p \<Rightarrow> (case p_username p of
       JStr s \<Rightarrow> Inr (JObj [(''username'', JStr s), (''role'', JStr (p_role p)), (''authenticated'', JBool (p_authenticated p))])
     | _ \<Rightarrow> Inl ValueError))"
  by (auto simp: whoami_def Let_def split: sum.splits json.splits)

lemma whoami_typed: "answer_typed is_dt PrincipalResponse (\<lambda>v. v) (whoami lib cfg now authz)"
  by (auto simp: whoami_cases answer_typed_def conforms_def split: sum.splits json.splits) (simp add: schema_defs)

lemma served_pages_typed:
  assumes "kv_ok srv view" and "\<forall>limit skip. view c (status_key limit skip) = None"
  shows "list_all (\<lambda>page. conforms is_dt (FList RobotStatusResponse) (JArr (map JObj page)))
    (serve_all (serve_status scan scan2 cfg srv) qs c)"
proof -
  have "cached_from key_of q_now (page_of scan scan2 cfg) 10 [] (view c)" using assms(2) by (simp add: cached_from_def)
  note pages = serve_status_all [OF assms(1) this]
  have "\<exists>q. serve_all (serve_status scan scan2 cfg srv) qs c ! i = page_of scan scan2 cfg q" if "i < length qs" for i
    using pages [OF that] by (auto simp: fresh_enough_def)
  then show ?thesis using page_conforms by (fastforce simp: list_all_length)
qed

lemma typed_Inr: "(\<And>x. conforms is_dt t (body x)) \<Longrightarrow> answer_typed is_dt t body r"
  by (simp add: answer_typed_def split: sum.splits)

section \<open>The answers have the declared types\<close>

text \<open>
  C38: Every answer has the type its route declares. Whatever is stored, whoever asks and whatever
  the cache server does within its contract, the pages of the fleet list, the analytics, the
  lists of readings and events, tokens, identities, tickets, the sign-in configuration and the
  health report pass the schema of their route and arrive as the service made them: no field is
  missing, of another type, dropped, or replaced by a default.
\<close>

theorem responses_typed:
  assumes "kv_ok srv view" and "\<forall>limit skip. view c (status_key limit skip) = None" and "\<And>t. is_dt (dump_dt t)"
  shows "list_all (\<lambda>page. conforms is_dt (FList RobotStatusResponse) (JArr (map JObj page)))
      (serve_all (serve_status scan scan2 cfg srv) qs c)
    \<and> answer_typed is_dt FleetAnalyticsResponse analytics_body (fst (fleet_analytics_route scan scan2 cfg asrv key dbnow now (readings db) ac))
    \<and> answer_typed is_dt (FList TelemetryResponse) (\<lambda>rows. JArr (map (telemetry_body dump_dt) rows)) (get_telemetry cfg key limit skip db)
    \<and> answer_typed is_dt (FList EventResponse) (\<lambda>es. JArr (map (event_body dump_dt) es)) (get_events escan cfg key limit skip edb)
    \<and> answer_typed is_dt TokenResponse token_body (fst (login lib cfg dummy_hash touch_ok now credentials us))
    \<and> answer_typed is_dt PrincipalResponse (\<lambda>v. v) (whoami lib cfg now authz)
    \<and> answer_typed is_dt TicketResponse ticket_body (create_console_ticket lib cfg now nonce authz key)
    \<and> conforms is_dt AuthConfigResponse (auth_config_body (auth_config cfg))
    \<and> conforms is_dt HealthResponse (health_body (health_check cfg select_ok))"
  using served_pages_typed [OF assms(1,2)] telemetry_conforms [of is_dt dump_dt] events_conforms [of is_dt dump_dt] assms(3)
  by (simp add: typed_Inr analytics_conforms token_conforms whoami_typed ticket_conforms auth_config_conforms health_conforms)

theorem responses_typed_witness:
  "conforms (\<lambda>s. s \<noteq> []) (FList RobotStatusResponse)
     (JArr (map JObj (hd (serve_all (serve_status (\<lambda>t. t) (\<lambda>t. t) (default_settings ''db'' ''k'') map_kv) [poll 0] Map.empty))))"
proof -
  have "list_all (\<lambda>page. conforms (\<lambda>s. s \<noteq> []) (FList RobotStatusResponse) (JArr (map JObj page)))
      (serve_all (serve_status (\<lambda>t. t) (\<lambda>t. t) (default_settings ''db'' ''k'') map_kv) [poll 0] Map.empty)"
    by (rule conjunct1 [OF responses_typed [OF map_kv_ok, where dump_dt = "\<lambda>t. ''t''"]]) simp_all
  then show ?thesis by (simp split: prod.splits)
qed

section \<open>What the simulator posts\<close>

text \<open>
  The bodies the simulated robot sends: a reading as the dictionary \<open>emit_telemetry\<close> builds, a
  status report, an event. Times are written as \<open>iso_utc_now\<close> writes them.
\<close>

definition time_json :: "pydt option \<Rightarrow> json" where
  "time_json t = opt_json (\<lambda>d. JStr (iso_z (dt_instant d))) t"

definition reading_body :: "telemetry_create \<Rightarrow> json_obj" where
  "reading_body d =
     [(''robot_id'', JNum (of_int (tc_robot_id d))), (''timestamp'', time_json (tc_timestamp d)), (''battery'', JNum (tc_battery d)),
      (''temperature'', JNum (tc_temperature d)), (''speed'', JNum (tc_speed d)), (''status'', opt_json JStr (tc_status d)),
      (''mission_id'', opt_json JStr (tc_mission_id d)), (''mission_type'', opt_json JStr (tc_mission_type d)),
      (''mission_progress'', opt_json JNum (tc_mission_progress d)), (''mission_start_time'', time_json (tc_mission_start_time d)),
      (''battery_health'', opt_json JNum (tc_battery_health d)), (''motor_health'', opt_json JNum (tc_motor_health d)),
      (''sensor_health'', opt_json JNum (tc_sensor_health d)), (''network_health'', opt_json JNum (tc_network_health d)),
      (''x'', opt_json JNum (tc_x d)), (''y'', opt_json JNum (tc_y d))]"

definition status_body :: "string \<Rightarrow> json option \<Rightarrow> json_obj" where
  "status_body status result = (''status'', JStr status) # (case result of None \<Rightarrow> [] | Some v \<Rightarrow> [(''result'', v)])"

definition posted_event :: "int \<Rightarrow> string \<Rightarrow> json_obj" where
  "posted_event robot_id message = [(''robot_id'', JNum (of_int robot_id)), (''message'', JStr message)]"

text \<open>
  An accepted body as the object the route gets: absent and null optional fields are \<open>None\<close>.
  \<open>fromiso\<close> is Pydantic's reading of a datetime.
\<close>

definition num_of :: "json_obj \<Rightarrow> string \<Rightarrow> rat option" where
  "num_of body n = (case dict_get body n of Some (JNum r) \<Rightarrow> Some r | _ \<Rightarrow> None)"

definition str_of_field :: "json_obj \<Rightarrow> string \<Rightarrow> string option" where
  "str_of_field body n = (case dict_get body n of Some (JStr s) \<Rightarrow> Some s | _ \<Rightarrow> None)"

definition telemetry_of_body :: "(string \<Rightarrow> pydt option) \<Rightarrow> json_obj \<Rightarrow> telemetry_create option" where
  "telemetry_of_body fromiso body =
     (if \<not> accepts (\<lambda>s. fromiso s \<noteq> None) TelemetryCreate (JObj body) then None
      else Some
        \<lparr>tc_robot_id = \<lfloor>the (num_of body ''robot_id'')\<rfloor>, tc_battery = the (num_of body ''battery''),
         tc_temperature = the (num_of body ''temperature''), tc_speed = the (num_of body ''speed''),
         tc_timestamp = Option.bind (str_of_field body ''timestamp'') fromiso, tc_status = str_of_field body ''status'',
         tc_mission_id = str_of_field body ''mission_id'', tc_mission_type = str_of_field body ''mission_type'',
         tc_mission_progress = num_of body ''mission_progress'',
         tc_mission_start_time = Option.bind (str_of_field body ''mission_start_time'') fromiso,
         tc_battery_health = num_of body ''battery_health'', tc_motor_health = num_of body ''motor_health'',
         tc_sensor_health = num_of body ''sensor_health'', tc_network_health = num_of body ''network_health'',
         tc_x = num_of body ''x'', tc_y = num_of body ''y''\<rparr>)"

lemma num_opt [simp]:
  "(case opt_json JNum v of JNum r \<Rightarrow> Some r | _ \<Rightarrow> None) = v"
  "(case opt_json JStr w of JStr s \<Rightarrow> Some s | _ \<Rightarrow> None) = w"
  by (simp_all add: opt_json_def split: option.splits)

text \<open>The times a reading carries, and that they are written in UTC.\<close>

definition reading_times :: "telemetry_create \<Rightarrow> instant list" where
  "reading_times d = map dt_instant (List.map_filter (\<lambda>t. t) [tc_timestamp d, tc_mission_start_time d])"

definition in_utc :: "pydt option \<Rightarrow> bool" where
  "in_utc t = (case t of None \<Rightarrow> True | Some d \<Rightarrow> d = utc_dt (dt_instant d))"

lemma time_read:
  assumes "\<forall>d. t = Some d \<longrightarrow> fromiso (iso_z (dt_instant d)) = Some (utc_dt (dt_instant d))" and "in_utc t"
  shows "Option.bind (case time_json t of JStr s \<Rightarrow> Some s | _ \<Rightarrow> None) fromiso = t"
    and "accepts (\<lambda>s. fromiso s \<noteq> None) (FOptional FDatetime) (time_json t)"
  using assms by (auto simp: time_json_def opt_json_def in_utc_def accepts.simps(7) split: option.splits)

lemma body_read:
  assumes iso: "\<forall>t \<in> set (reading_times d). fromiso (iso_z t) = Some (utc_dt t)"
    and utc: "in_utc (tc_timestamp d)" "in_utc (tc_mission_start_time d)"
  shows "telemetry_of_body fromiso (reading_body d) = Some d"
proof -
  have ts: "\<forall>x. tc_timestamp d = Some x \<longrightarrow> fromiso (iso_z (dt_instant x)) = Some (utc_dt (dt_instant x))"
    "\<forall>x. tc_mission_start_time d = Some x \<longrightarrow> fromiso (iso_z (dt_instant x)) = Some (utc_dt (dt_instant x))"
    using iso by (auto simp: reading_times_def map_filter_simps split: option.splits)
  have "accepts (\<lambda>s. fromiso s \<noteq> None) TelemetryCreate (JObj (reading_body d))"
    using time_read(2) [OF ts(1) utc(1)] time_read(2) [OF ts(2) utc(2)] by (simp add: schema_defs reading_body_def)
  moreover have "Option.bind (str_of_field (reading_body d) ''timestamp'') fromiso = tc_timestamp d"
    "Option.bind (str_of_field (reading_body d) ''mission_start_time'') fromiso = tc_mission_start_time d"
    using time_read(1) [OF ts(1) utc(1)] time_read(1) [OF ts(2) utc(2)] by (simp_all add: reading_body_def str_of_field_def)
  moreover have "num_of (reading_body d) ''robot_id'' = Some (of_int (tc_robot_id d))"
    "num_of (reading_body d) ''battery'' = Some (tc_battery d)" "num_of (reading_body d) ''temperature'' = Some (tc_temperature d)"
    "num_of (reading_body d) ''speed'' = Some (tc_speed d)" "num_of (reading_body d) ''mission_progress'' = tc_mission_progress d"
    "num_of (reading_body d) ''battery_health'' = tc_battery_health d" "num_of (reading_body d) ''motor_health'' = tc_motor_health d"
    "num_of (reading_body d) ''sensor_health'' = tc_sensor_health d" "num_of (reading_body d) ''network_health'' = tc_network_health d"
    "num_of (reading_body d) ''x'' = tc_x d" "num_of (reading_body d) ''y'' = tc_y d"
    "str_of_field (reading_body d) ''status'' = tc_status d" "str_of_field (reading_body d) ''mission_id'' = tc_mission_id d"
    "str_of_field (reading_body d) ''mission_type'' = tc_mission_type d"
    by (simp_all add: reading_body_def num_of_def str_of_field_def)
  ultimately show ?thesis by (simp add: telemetry_of_body_def)
qed

text \<open>A posted body is what its route accepts, and a reading is read back as it was taken.\<close>

fun times_of :: "sim_output \<Rightarrow> instant list" where
  "times_of (Reading d) = reading_times d"
| "times_of _ = []"

fun body_accepted :: "(string \<Rightarrow> pydt option) \<Rightarrow> sim_output \<Rightarrow> bool" where
  "body_accepted fromiso (Reading d) = (telemetry_of_body fromiso (reading_body d) = Some d)"
| "body_accepted fromiso (Patch cmd_id status result) =
     accepts (\<lambda>s. fromiso s \<noteq> None) CommandStatusUpdate (JObj (status_body status result))"
| "body_accepted fromiso (FleetSimRobot.Event robot_id message) =
     accepts (\<lambda>s. fromiso s \<noteq> None) EventCreate (JObj (posted_event robot_id message))"

lemma body_accepted_simps [simp]:
  "body_accepted fromiso (Patch cmd_id status None)"
  "body_accepted fromiso (Patch cmd_id status (Some (JObj ps)))"
  "body_accepted fromiso (FleetSimRobot.Event robot_id message)"
  by (simp_all add: schema_defs status_body_def posted_event_def accepts.simps(7))

declare body_accepted.simps(2,3) [simp del]

lemma reading_accepted:
  assumes "\<forall>t \<in> set (times_of post). fromiso (iso_z t) = Some (utc_dt t)" and "post \<in> set (emit_telemetry u stamp active r)"
  shows "body_accepted fromiso post"
  using assms body_read
  by (auto simp: emit_telemetry_def reading_of_def in_utc_def split: if_splits option.splits)

lemma handle_command_accepted: "post \<in> set (snd (handle_command cmd_id action r)) \<Longrightarrow> body_accepted fromiso post"
  by (auto simp: handle_command_def split: if_splits prod.splits)

lemma handle_commands_accepted: "post \<in> set (snd (handle_commands cs r)) \<Longrightarrow> body_accepted fromiso post"
proof (induction cs r rule: handle_commands.induct)
  case (2 c cs r)
  show ?case
  proof (cases "ck_id c")
    case (Some cmd_id)
    obtain r' out where h: "handle_command cmd_id (command_action c) r = (r', out)" by fastforce
    have "post \<in> set out \<or> post \<in> set (snd (handle_commands cs r'))"
      using "2.prems" Some h by (auto split: prod.splits)
    then show ?thesis using handle_command_accepted [of post cmd_id "command_action c" r] "2.IH" [OF Some h [symmetric]] h by auto
  qed (use "2.prems" in simp)
qed simp

lemma physics_accepted:
  assumes "\<forall>t \<in> set (times_of post). fromiso (iso_z t) = Some (utc_dt t)"
    and "physics u stamp active out_of_reach ambient_c now dt r = Inr (r', out)" and "post \<in> set out"
  shows "body_accepted fromiso post"
  using assms(2,3) reading_accepted [OF assms(1)]
  by (auto simp: physics_def hot_phase_def mission_phase_def completion_event_def Let_def split: if_splits option.splits)

lemma end_tick_accepted:
  assumes iso: "\<forall>t \<in> set (times_of post). fromiso (iso_z t) = Some (utc_dt t)"
    and "end_tick ambient_c i out_of_reach dt r = Inr (r', out)" and "post \<in> set out"
  shows "body_accepted fromiso post"
  using assms(2,3) reading_accepted [OF iso] physics_accepted [OF iso]
  by (auto simp: end_tick_def dead_tick_def working_tick_def emit_unless_def fence_phase_def Let_def bindR_eq_Inr
      split: if_splits prod.splits)

text \<open>
  C39: What a robot posts, the backend understands. In every tick, the body of every status report
  and event the robot sends passes the schema of its route, and the body of every reading is
  accepted and read back as exactly the reading the robot took.
\<close>

theorem posts_are_read:
  assumes "\<forall>t \<in> set (times_of post). fromiso (iso_z t) = Some (utc_dt t)"
    and "robot_tick ambient_c i r = Inr (r', out)" and "post \<in> set out"
  shows "body_accepted fromiso post"
proof -
  obtain r1 b dt where b: "begin_tick i r = (r1, b, dt)" by (metis prod_cases3)
  obtain r2 out1 where p: "poll_commands (ti_polling i) (ti_commands i) r1 = (r2, out1)" by fastforce
  obtain out2 where e: "end_tick ambient_c i b dt r2 = Inr (r', out2)" and out: "out = out1 @ out2"
    using assms(2) b p by (auto simp: robot_tick_def bindR_eq_Inr)
  have "body_accepted fromiso post" if "post \<in> set out1"
  proof -
    have "out1 = snd (poll_commands (ti_polling i) (ti_commands i) r1)" using p by simp
    then show ?thesis
      using that handle_commands_accepted by (auto simp: poll_commands_def split: if_splits option.splits)
  qed
  then show ?thesis using assms(3) out end_tick_accepted [OF assms(1) e] by auto
qed

theorem posts_are_read_witness:
  "\<exists>r' d. robot_tick 30 ((idle_input 0)\<lparr>ti_stamp := 90, ti_reporting := True\<rparr>) (sample_robot ''STOPPED'' 50) = Inr (r', [Reading d])
     \<and> telemetry_of_body (\<lambda>s. if s = iso_z 90 then Some (utc_dt 90) else None) (reading_body d) = Some d"
proof -
  let ?i = "(idle_input 0)\<lparr>ti_stamp := 90, ti_reporting := True\<rparr>"
  have "\<not> is_dead ((sample_robot ''STOPPED'' 50)\<lparr>rb_last_update_s := 0\<rparr>)"
    by (simp add: sample_robot_def is_dead_def)
  then obtain r' d where run: "robot_tick 30 ?i (sample_robot ''STOPPED'' 50) = Inr (r', [Reading d])"
      and d: "d = reading_of (ti_draws ?i) 90 ((sample_robot ''STOPPED'' 50)\<lparr>rb_last_update_s := 0\<rparr>)"
    by (simp add: robot_tick_def begin_tick_def start_tick_def blackout_phase_def poll_commands_def end_tick_def emit_unless_def
        emit_telemetry_def idle_input_def sample_robot_def)
  have "reading_times d = [90]"
    by (simp add: d reading_of_def reading_times_def map_filter_simps sample_robot_def)
  then have "body_accepted (\<lambda>s. if s = iso_z 90 then Some (utc_dt 90) else None) (Reading d)"
    by (intro posts_are_read [OF _ run]) simp_all
  then show ?thesis using run by auto
qed


end
