(* ===== verification/FleetSimMain.thy ===== *)
theory FleetSimMain
  imports FleetSimNet
begin

text \<open>
  The simulator's processes (\<open>main\<close>, \<open>worker_process\<close> and \<open>main_async\<close> of \<open>robot_sim.py\<close>, the
  wrapper's \<open>run_simulator\<close>): the command line, the worker processes it starts, the tasks of each
  and the seeds of their random streams. Seeds are integers; the streams drawn from them are the
  draws of the other theories.
\<close>

section \<open>The command line\<close>

record sim_args =
  ag_api_url :: string
  ag_local :: bool
  ag_robots :: int
  ag_workers :: int
  ag_api_key :: "string option"
  ag_ambient :: real
  ag_radius :: real
  ag_tick_min :: real
  ag_tick_max :: real
  ag_seed :: int
  ag_timeout :: real
  ag_always_active :: bool

definition local_url :: string where
  "local_url = ''http://localhost:8000/api/v1/telemetry''"

text \<open>The defaults; the key comes from the environment.\<close>

definition parser_defaults :: "string option \<Rightarrow> sim_args" where
  "parser_defaults env_key =
     \<lparr>ag_api_url = local_url, ag_local = False, ag_robots = 0, ag_workers = 1, ag_api_key = env_key, ag_ambient = 30,
      ag_radius = 20, ag_tick_min = 2, ag_tick_max = 5, ag_seed = 42, ag_timeout = 10, ag_always_active = False\<rparr>"

text \<open>The processes a command line starts, as index and number of workers; \<open>None\<close> is the usage error.\<close>

definition sim_main :: "sim_args \<Rightarrow> (sim_args \<times> (nat \<times> nat) list) option" where
  "sim_main args =
     (if \<not> truthy_str (ag_api_key args) then None
      else let args' = (if ag_local args then args\<lparr>ag_api_url := local_url\<rparr> else args)
           in if ag_workers args' > 1
              then Some (args', map (\<lambda>i. (i, nat (ag_workers args'))) [0..<nat (ag_workers args')])
              else Some (args', [(0, 1)]))"

section \<open>One process\<close>

datatype sim_task =
    DispatcherLoop int
  | TelemetryBatcher
  | ViewerWatchLoop
  | RobotLoop int int

text \<open>\<open>drawn\<close> is what \<open>rng.randint(35, 55)\<close> gives for the seed, the same in every process.\<close>

definition robots_count :: "sim_args \<Rightarrow> nat \<Rightarrow> nat" where
  "robots_count args drawn = (if ag_robots args \<le> 0 then drawn else nat (ag_robots args))"

definition robot_seed :: "int \<Rightarrow> int \<Rightarrow> int" where
  "robot_seed seed rid = seed * 1000 + rid * 17"

definition started_tasks :: "sim_args \<Rightarrow> nat \<Rightarrow> nat \<times> nat \<Rightarrow> sim_task list" where
  "started_tasks args drawn proc = (case proc of (worker_index, total_workers) \<Rightarrow>
     [DispatcherLoop (ag_seed args + 999), TelemetryBatcher]
     @ (if ag_always_active args then [] else [ViewerWatchLoop])
     @ map (\<lambda>rid. RobotLoop (int rid) (robot_seed (ag_seed args) (int rid)))
         (worker_ids (robots_count args drawn) total_workers worker_index))"

text \<open>
  The tasks the \<open>finally\<close> of \<open>main_async\<close> cancels, in its order; the robots' tasks are kept in a
  dictionary by robot id.
\<close>

definition active_robot_tasks :: "sim_args \<Rightarrow> nat list \<Rightarrow> (nat \<times> sim_task) list" where
  "active_robot_tasks args ids =
     fold (\<lambda>rid d. dict_set rid (RobotLoop (int rid) (robot_seed (ag_seed args) (int rid))) d) ids []"

definition cancelled_tasks :: "sim_args \<Rightarrow> nat \<Rightarrow> nat \<times> nat \<Rightarrow> sim_task list" where
  "cancelled_tasks args drawn proc = (case proc of (worker_index, total_workers) \<Rightarrow>
     [DispatcherLoop (ag_seed args + 999), TelemetryBatcher]
     @ (if ag_always_active args then [] else [ViewerWatchLoop])
     @ map snd (active_robot_tasks args (worker_ids (robots_count args drawn) total_workers worker_index)))"

text \<open>\<open>ViewerState\<close> starts active, so robots report until the first polls say otherwise.\<close>

definition initial_viewer_active :: bool where
  "initial_viewer_active = True"

section \<open>The hosted wrapper\<close>

definition env_or :: "(string \<times> string) list \<Rightarrow> string \<Rightarrow> string \<Rightarrow> string" where
  "env_or environ k d = (case dict_get environ k of Some v \<Rightarrow> v | None \<Rightarrow> d)"

definition simulator_command :: "(string \<times> string) list \<Rightarrow> string list" where
  "simulator_command environ =
     [''-u'', ''robot_sim.py'', ''--api-url'', env_or environ ''SIMULATOR_API_URL'' local_url,
      ''--robots'', env_or environ ''SIMULATOR_ROBOTS'' ''24'', ''--workers'', env_or environ ''SIMULATOR_WORKERS'' ''2'']"

text \<open>\<open>os._exit(returncode or 1)\<close>: the wrapper never ends as a success.\<close>

definition wrapper_exit :: "int \<Rightarrow> int" where
  "wrapper_exit returncode = (if returncode \<noteq> 0 then returncode else 1)"

section \<open>The fleet a command line simulates\<close>

fun loop_of :: "sim_task \<Rightarrow> (int \<times> int) list" where
  "loop_of (RobotLoop rid seed) = [(rid, seed)]"
| "loop_of _ = []"

definition robot_loops :: "sim_args \<Rightarrow> nat \<Rightarrow> (nat \<times> nat) list \<Rightarrow> (int \<times> int) list" where
  "robot_loops args drawn procs = concat (map loop_of (concat (map (started_tasks args drawn) procs)))"

lemma robot_seed_inject: "robot_seed seed r = robot_seed seed r' \<longleftrightarrow> r = r'"
  by (simp add: robot_seed_def)

lemma loops_of_process:
  "concat (map loop_of (started_tasks args drawn (i, n))) =
     map (\<lambda>rid. (int rid, robot_seed (ag_seed args) (int rid))) (worker_ids (robots_count args drawn) n i)"
  by (simp add: started_tasks_def comp_def)

lemma robot_loops_concat:
  "robot_loops args drawn (map (\<lambda>i. (i, n)) is) =
     map (\<lambda>rid. (int rid, robot_seed (ag_seed args) (int rid))) (concat (map (worker_ids (robots_count args drawn) n) is))"
  by (induction "is") (simp_all add: robot_loops_def loops_of_process)

lemma fold_dict_set_new:
  "distinct (map fst d @ ids) \<Longrightarrow> fold (\<lambda>k d. dict_set k (f k) d) ids d = d @ map (\<lambda>k. (k, f k)) ids"
proof (induction ids arbitrary: d)
  case (Cons k ids)
  have "dict_set k v d = d @ [(k, v)]" if "k \<notin> fst ` set d" for v
    using that by (induction d) auto
  with Cons show ?case by simp
qed simp

lemma all_cancelled: "cancelled_tasks args drawn proc = started_tasks args drawn proc"
  by (cases proc) (simp add: cancelled_tasks_def started_tasks_def active_robot_tasks_def fold_dict_set_new worker_ids_def comp_def)

text \<open>
  A command line with a key starts a loop for every robot of the fleet, 1 up to the number asked
  for, exactly once over all its processes, and no two robots share a random stream; every task a
  process starts is cancelled when it ends.
\<close>

theorem fleet_simulated_once:
  assumes "sim_main args = Some (args', procs)"
  shows "map fst (robot_loops args' drawn procs) = map int [1..<robots_count args drawn + 1]
    \<and> distinct (map snd (robot_loops args' drawn procs))
    \<and> (\<forall>proc \<in> set procs. cancelled_tasks args' drawn proc = started_tasks args' drawn proc)"
proof -
  let ?n = "if ag_workers args > 1 then nat (ag_workers args) else 1"
  have procs: "procs = map (\<lambda>i. (i, ?n)) [0..<?n]" and same: "robots_count args' drawn = robots_count args drawn"
    using assms by (auto simp: sim_main_def Let_def robots_count_def split: if_splits)
  have "concat (map (worker_ids (robots_count args drawn) ?n) [0..<?n]) = [1..<robots_count args drawn + 1]"
    using workers_partition_fleet [of ?n "robots_count args drawn"] by simp
  then have "robot_loops args' drawn procs =
      map (\<lambda>rid. (int rid, robot_seed (ag_seed args') (int rid))) [1..<robots_count args drawn + 1]"
    unfolding procs robot_loops_concat same by simp
  then show ?thesis
    by (simp add: comp_def distinct_map inj_on_def robot_seed_inject all_cancelled del: upt_Suc)
qed

text \<open>Without a key nothing is started.\<close>

lemma sim_main_needs_key: "sim_main (parser_defaults None) = None"
  by (simp add: sim_main_def parser_defaults_def)

lemma wrapper_never_succeeds: "wrapper_exit returncode \<noteq> 0"
  by (simp add: wrapper_exit_def)

end
