(* ===== verification/Spec2Isabelle.thy ===== *)
theory Spec2Isabelle
  imports FleetEndToEnd FleetCommandSystem FleetReport FleetBenchStack FleetPipeline FleetAnalytics FleetRetention FleetProcess FleetResponses FleetSimMain
begin

text \<open>
  A verification of the robot fleet platform: the backend that ingests telemetry, tracks the
  fleet and hands out commands (\<open>src/backend/app\<close>), the worker process that writes buffered
  telemetry and expires commands (\<open>worker.py\<close>), the simulated robots that feed and obey it
  (\<open>src/simulator\<close>), the scripts that measure it (\<open>src/scripts\<close>), and the migrations that build
  its database (\<open>src/backend/alembic\<close>).

  \<^bold>\<open>The parts and how they interact.\<close> Robots post readings to the ingest routes and claim
  commands. The ingest service writes readings to the database, or to a Redis stream which the
  worker drains, or to an in-process buffer which a flush loop drains; it announces them to the
  dashboards' WebSocket clients through the connection manager. Operators sign in, obtain
  console tickets and send commands; a command is a row of \<open>robot_commands\<close> whose status moves
  along a state machine under the hands of the creator, the claim route, the robot's status
  reports and the worker's timeout scanner, all at once. The read side lists the fleet from the
  roster and a window of recent readings, computes analytics, and caches both. A pruning loop
  bounds the telemetry table. Every request passes a rate limiter and a request-id layer. Before
  the processes start, a hook migrates the database and clears the metrics directory they share.

  \<^bold>\<open>Theories, in the order of import.\<close>

  \<^item> \<open>FleetPrelude\<close>: exceptions and results, the methods of \<open>str\<close> in use, JSON, datetimes and
    their ISO form, decimal rounding, tables as lists of rows with \<open>update_where\<close> and
    \<open>rowcount\<close>, and the locale \<open>step_invariant\<close> of step relations.
  \<^item> \<open>FleetCommands\<close>, \<open>FleetCommandSystem\<close>: \<open>models.RobotCommand\<close>, \<open>command_service.py\<close>,
    \<open>command_repo.py\<close>, \<open>_claim_pending_commands\<close> and \<open>scan_for_timeouts\<close>. A handler that awaits
    between reading and writing is a step function over a program counter; the locale
    \<open>status_writer\<close> is what all four writers of the table promise, and \<open>sys_step\<close> interleaves any
    number of requests.
  \<^item> \<open>FleetConfig\<close>: \<open>config.py\<close>, its defaults, derived properties and start-up guard.
  \<^item> \<open>FleetTickets\<close>, \<open>FleetAuth\<close>: \<open>tickets.py\<close>, \<open>security.py\<close>, \<open>auth.py\<close>, \<open>user_repo.py\<close>,
    \<open>routes/auth.py\<close>, \<open>routes/commands.py\<close>; the locale \<open>guarded_route\<close> is a handler behind
    dependencies, interpreted for every guarded route of the program.
  \<^item> \<open>FleetRateLimit\<close>: the limiter of \<open>middleware.py\<close>; the locale \<open>sliding_window\<close> is met by the
    in-process and by the Redis window.
  \<^item> \<open>FleetWebsocket\<close>: \<open>websocket_manager.py\<close> and the WebSocket endpoint.
  \<^item> \<open>FleetTelemetry\<close>: \<open>telemetry_service.py\<close>, \<open>telemetry_repo.py\<close>, \<open>robot_repo.py\<close>,
    \<open>telemetry_buffer.py\<close> and the ingest routes; the locale \<open>last_seen_register\<close> is the roster's
    contract.
  \<^item> \<open>FleetWorker\<close>: decoding, writing and acknowledging of stream entries in \<open>worker.py\<close>.
  \<^item> \<open>FleetPipeline\<close>: API instances and workers over one Redis stream, interleaved with failures
    and crashes; \<open>stream_ok\<close> states what Redis promises of XADD, XREADGROUP and XACK.
  \<^item> \<open>FleetStatus\<close>, \<open>FleetAnalytics\<close>: \<open>robot_service.py\<close>, \<open>analytics_service.py\<close>, \<open>cache.py\<close>.
  \<^item> \<open>FleetRetention\<close>, \<open>FleetEvents\<close>: \<open>retention.py\<close>, \<open>routes/events.py\<close>.
  \<^item> \<open>FleetSchema\<close>: the tables \<open>models.py\<close> declares, the revisions of \<open>alembic/versions\<close> in both
    directions, the rows of the other theories as rows of those tables, and the data migration.
  \<^item> \<open>FleetResponses\<close>: \<open>schemas.py\<close> as data, what the routes answer and what the simulator posts.
  \<^item> \<open>FleetTracing\<close>, \<open>FleetService\<close>: request ids, access lines and log records; the background
    tasks, health and viewer routes and the middleware stack of \<open>main.py\<close>. \<open>FleetProcess\<close>:
    \<open>prestart.py\<close>, \<open>metrics.py\<close>, shutdown, and a deployment of several processes.
  \<^item> \<open>FleetSimRobot\<close>, \<open>FleetSimFleet\<close>, \<open>FleetSimNet\<close>: one robot and its tick, the fleet with its
    dispatcher, and the batcher, viewer watch and retries of \<open>robot_sim.py\<close>. \<open>FleetSimMain\<close>: the
    simulator's command line and the processes and tasks it starts.
  \<^item> \<open>FleetBenchmark\<close>, \<open>FleetReport\<close>: \<open>benchmark_matrix.py\<close>, its measurements and the text of its
    report. \<open>FleetStress\<close>: \<open>stress_test.py\<close>, and its write verification run against the backend.
    \<open>FleetBenchStack\<close>: the stack the harness drives, and a measured run against its rate limiter.
  \<^item> \<open>FleetEndToEnd\<close> and this theory: the robot's command loop against the backend's claim and
    status routes, and ingest against the fleet list.

  \<^bold>\<open>How state and operations correspond.\<close> A table is the list of its rows in insertion order;
  an INSERT appends, an UPDATE maps, a DELETE filters, and column sizes and unique constraints
  are checked where the statement would fail. Where a statement leaves the order of its result
  open, the order is a parameter \<open>scan\<close> with \<open>scan_ok\<close>, a permutation of the rows. An UPDATE and
  the COMMIT after it are one step, since the row lock keeps other writers of the row out.
  Instants are microseconds since the epoch in UTC; naive datetimes are read as UTC. Floating
  point is idealised: exact rationals in the backend and the harness, exact reals in the
  simulator. Strings are lists of 8-bit characters with ASCII case. A request reads the clock
  once. Random draws, generated identifiers and what the network answers are arguments.

  \<^bold>\<open>Code that is not part of the program\<close> is a parameter with its documented behaviour as a named
  hypothesis: HMAC (\<open>mac_hex\<close>, \<open>urlsafe\<close>), PyJWT (\<open>jwt_ok\<close>), bcrypt (\<open>bcrypt_ok\<close>), Redis sorted sets
  (\<open>zset_pipeline_ok\<close>) and key-value server (\<open>kv_ok\<close>), parameter binding (\<open>bind_ok\<close>), JSON and ISO
  parsing (\<open>loads\<close>, \<open>fromiso\<close>), the ASGI application behind a middleware (\<open>app_ok\<close>). The
  Redis stream (\<open>stream_ok\<close>) and the multiprocess mode of \<open>prometheus_client\<close> (\<open>prom_ok\<close>) likewise.
  Each has a concrete instance in a witness. SQL statements, those of the migrations included,
  have the meaning PostgreSQL documents.

  \<^bold>\<open>Loops.\<close> The claim loop is a \<open>partial_function\<close> proved to return; the pruning loop terminates
  because every full chunk deletes rows; the health wait, the batcher and the watch loop run
  over the list of what they observe; the loops over Redis are modelled by their round. The
  only numeric bound is that of charging: 510 ticks, since a tick of at least 0.1 s at the lowest
  charge rate adds 0.1925 points and a gap of at most 95 points has to be closed.

  \<^bold>\<open>What the properties show.\<close> End to end: a claimed command is executed and settled, and an
  accepted reading shows in the fleet list. Commands: under every interleaving the table stays
  well formed, rows move only along the state machine, a command is handed out at most once, a
  terminal row never changes, a timeout is announced only when stored, creation is idempotent,
  claiming does exactly its work. Access: what it takes to send a command, tickets and tokens
  are neither forged nor widened and round-trip, one admin is bootstrapped. Limits: no window
  admits more than its budget, the two backends agree, the charged address cannot be forged.
  Delivery: queues are gap-free suffixes. Ingest: queued and direct readings become the same
  rows, the roster holds the latest time, and the buffered path loses nothing while the workers
  are less than a stream behind. Reading: the list is complete, cached answers are at most ten
  seconds old, analytics count each robot once. Retention deletes exactly what is old. Types:
  the migrations build the declared schema, statements refuse what its columns refuse, answers
  have the declared shape, and the backend reads a robot's posts as the robot meant them. The
  data migration replays history, the middleware flag changes no behaviour, the connections
  gauge counts the clients of all processes. Simulation: every robot keeps its invariant and
  never raises, stops hold, missions are exclusive, charging ends, batches are complete.
  Benchmarks: a report rests on verified, accepted runs, and an ingest run needs a budget; the
  stress test's write verification passes on a backend that writes directly.

  \<^bold>\<open>Not modelled\<close>: the dashboard (not Python); connection pools and sessions, router registration
  and CORS (calls into libraries); the observations of metrics other than the connections
  gauge; Pydantic's conversions between types; what the scripts print while they run, the
  execution of their docker commands, and re-rendering a report from its JSON file.
\<close>

section \<open>Properties of the composed system\<close>

text \<open>
  C1: A command, end to end. Take any well-formed command table and any robot that has not yet seen
  the identifiers pending for it. The claim route returns; the robot that polls it handles every
  entry of the answer; and once its reports have been applied in order, every command that was
  pending for the robot is in the state its type asks for, COMPLETED for the three commands a
  robot knows and FAILED for any other, while every other command of the table has the status
  it had. If all that was pending were emergency stops, the robot has come to a halt: stopped,
  at speed zero, without a mission and not on its way to charge.
\<close>

theorem command_end_to_end:
  assumes "scan_ok scan" and "commands_wf (commands db)"
    and "\<forall>c \<in> set (commands db). pending_for rid c \<longrightarrow> rc_id c \<notin> set (rb_processed r)"
  shows "\<exists>entries db1 r' out. claim_pending_commands scan rid clock db = Some (entries, db1)
    \<and> poll_commands True (Some (map command_of_entry entries)) r = (r', out)
    \<and> (\<forall>c \<in> set (commands db). status_of (rc_id c) (commands (deliver clock' 0 out db1)) =
          Some (if pending_for rid c then outcome (rc_command_type c) else rc_status c))
    \<and> ((\<exists>c \<in> set (commands db). pending_for rid c)
         \<and> (\<forall>c \<in> set (commands db). pending_for rid c \<longrightarrow> rc_command_type c = ''EMERGENCY_STOP'') \<longrightarrow> halted r')"
  using assms by (rule commands_handled)

definition stop_db :: cmd_db where
  "stop_db = (sample_db ''PENDING'')\<lparr>commands := [(sample_command ''PENDING'')\<lparr>rc_command_type := ''EMERGENCY_STOP''\<rparr>]\<rparr>"

theorem command_end_to_end_witness:
  "\<exists>entries db1 r' out. claim_pending_commands (\<lambda>t. t) 7 (\<lambda>_. 5) stop_db = Some (entries, db1)
    \<and> poll_commands True (Some (map command_of_entry entries)) (new_robot 24 100 (\<lambda>_. 0) 7) = (r', out)
    \<and> status_of ''c1'' (commands (deliver (\<lambda>_. 6) 0 out db1)) = Some ''COMPLETED'' \<and> halted r'"
proof -
  have wf: "commands_wf (commands stop_db)"
    by (simp add: stop_db_def sample_defs commands_wf_def row_ok_def command_columns_ok_def fits_def int4_def)
  obtain c where c: "commands stop_db = [c]" "pending_for 7 c" "rc_id c = ''c1''" "rc_command_type c = ''EMERGENCY_STOP''"
    by (simp add: stop_db_def sample_defs pending_for_def)
  have "rb_processed (new_robot 24 100 (\<lambda>_. 0) 7) = []" by (simp add: new_robot_def Let_def split: prod.splits)
  then have "\<forall>c \<in> set (commands stop_db). pending_for 7 c \<longrightarrow> rc_id c \<notin> set (rb_processed (new_robot 24 100 (\<lambda>_. 0) 7))"
    by simp
  from command_end_to_end [OF scan_ok_id wf this, of "\<lambda>_. 5" "\<lambda>_. 6"] c show ?thesis
    by (auto simp: outcome_def)
qed



end
